(* ===== verification/Prelude.thy ===== *)
theory Prelude
  imports Complex_Main "HOL-Library.Word" "HOL-Library.Char_ord" "HOL-Library.List_Lexorder"
begin

text \<open>
  What every component of the development shares.

  \<^item> Names for the Rust types of the program: \<open>u32\<close> and \<open>u64\<close> are words, an
    \<open>i64\<close> (an SQLite INTEGER column) is an \<open>int\<close>, a \<open>DateTime<Utc>\<close> is the number of
    nanoseconds since the epoch, a \<open>Duration\<close> a number of nanoseconds. An \<open>f64\<close> is a
    rational number: the floating point numbers of the modelled code are finite. Those of a retry
    policy are only multiplied by powers of two before they are cast to \<open>i64\<close>; where the code rounds,
    in the worker's backoff, the rounding is that of \<open>Floats\<close>.
  \<^item> The effect of a fallible function on a state: \<open>('s, 'e, 'a) exec\<close> returns an error or
    a value, and in both cases the state. The server runs every statement in SQLite's
    autocommit mode, so what a function wrote before it failed stays written.
  \<^item> SQL on tables that are lists of rows: \<open>WHERE\<close>, \<open>UPDATE\<close> under a \<open>CHECK\<close>, the first row
    of a query, \<open>ORDER BY\<close>, \<open>LIKE\<close>. The order of a table is the order of insertion, which is
    the order in which SQLite scans a rowid table, and \<open>ORDER BY\<close> keeps it among equal keys.
\<close>

named_theorems exec_simps \<open>evaluation of state-and-error computations\<close>
named_theorems inv_rules \<open>operations that keep an invariant\<close>

section \<open>Machine types\<close>

type_synonym u32 = "32 word"
type_synonym u64 = "64 word"
type_synonym i64 = int
type_synonym f64 = rat
type_synonym sqltext = string
type_synonym uuid = string
type_synonym time = int
type_synonym duration = nat
type_synonym smap = "(string \<times> string) list"

abbreviation nanos_per_sec :: int where
  "nanos_per_sec \<equiv> 1000000000"

text \<open>Rust's \<open>as\<close> casts between the integer types of the program.\<close>

definition u64_as_i64 :: "u64 \<Rightarrow> i64" where
  "u64_as_i64 w = sint w"

definition i64_as_u64 :: "i64 \<Rightarrow> u64" where
  "i64_as_u64 i = word_of_int i"

definition u32_as_i64 :: "u32 \<Rightarrow> i64" where
  "u32_as_i64 w = uint w"

definition i64_as_u32 :: "i64 \<Rightarrow> u32" where
  "i64_as_u32 i = word_of_int i"

definition i64_max :: i64 where
  "i64_max = 2 ^ 63 - 1"

definition i64_min :: i64 where
  "i64_min = - (2 ^ 63)"

text \<open>\<open>f64 as i64\<close>: truncation towards zero that saturates at the ends of the range.\<close>

definition f64_as_i64 :: "f64 \<Rightarrow> i64" where
  "f64_as_i64 x =
     (let t = (if 0 \<le> x then \<lfloor>x\<rfloor> else \<lceil>x\<rceil>) in max i64_min (min i64_max t))"

lemma u64_i64_roundtrip [simp]: "i64_as_u64 (u64_as_i64 w) = w"
  by (simp add: i64_as_u64_def u64_as_i64_def)

lemma u32_i64_roundtrip [simp]: "i64_as_u32 (u32_as_i64 w) = w"
  by (simp add: i64_as_u32_def u32_as_i64_def)

lemma map_option_u64_i64_roundtrip [simp]:
  "map_option i64_as_u64 (map_option u64_as_i64 v) = v"
  by (cases v) simp_all

lemma f64_as_i64_range: "i64_min \<le> f64_as_i64 x \<and> f64_as_i64 x \<le> i64_max"
  by (simp add: f64_as_i64_def Let_def i64_min_def i64_max_def)

lemma f64_as_i64_nonneg: "0 \<le> x \<Longrightarrow> 0 \<le> f64_as_i64 x"
  by (simp add: f64_as_i64_def i64_min_def i64_max_def)

lemma f64_as_i64_mono: "x \<le> y \<Longrightarrow> f64_as_i64 x \<le> f64_as_i64 y"
proof -
  assume le: "x \<le> y"
  have "(if 0 \<le> x then \<lfloor>x\<rfloor> else \<lceil>x\<rceil>) \<le> (if 0 \<le> y then \<lfloor>y\<rfloor> else \<lceil>y\<rceil>)"
  proof (cases "0 \<le> x")
    case True
    with le show ?thesis by (simp add: floor_mono)
  next
    case neg: False
    show ?thesis
    proof (cases "0 \<le> y")
      case True
      with neg have "\<lceil>x\<rceil> \<le> 0" and "0 \<le> \<lfloor>y\<rfloor>" by (simp_all add: ceiling_le_iff)
      then have "\<lceil>x\<rceil> \<le> \<lfloor>y\<rfloor>" by linarith
      with True neg show ?thesis by (simp only: if_True if_False)
    next
      case False
      with neg le show ?thesis by (simp add: ceiling_mono)
    qed
  qed
  then show ?thesis by (simp add: f64_as_i64_def Let_def)
qed

text \<open>The decimal text of an integer, as \<open>format!("{}", n)\<close> prints it.\<close>

fun show_nat_rev :: "nat \<Rightarrow> string" where
  "show_nat_rev n = (if n < 10 then [char_of (48 + n)] else char_of (48 + n mod 10) # show_nat_rev (n div 10))"

definition show_int :: "int \<Rightarrow> string" where
  "show_int i = (if i < 0 then CHR ''-'' # rev (show_nat_rev (nat (- i))) else rev (show_nat_rev (nat i)))"

declare show_nat_rev.simps [simp del]

section \<open>State and errors\<close>

type_synonym ('s, 'e, 'a) exec = "'s \<Rightarrow> ('e + 'a) \<times> 's"

definition okE :: "'a \<Rightarrow> ('s, 'e, 'a) exec" where
  "okE a s = (Inr a, s)"

definition errE :: "'e \<Rightarrow> ('s, 'e, 'a) exec" where
  "errE e s = (Inl e, s)"

text \<open>\<open>m?\<close> followed by the rest: an error returns at once, with the state as it is.\<close>

definition andThen :: "('s, 'e, 'a) exec \<Rightarrow> ('a \<Rightarrow> ('s, 'e, 'b) exec) \<Rightarrow> ('s, 'e, 'b) exec" where
  "andThen m f s = (case m s of (Inl e, s') \<Rightarrow> (Inl e, s') | (Inr a, s') \<Rightarrow> f a s')"

text \<open>A query: it reads the state and may fail, and writes nothing.\<close>

definition readE :: "('s \<Rightarrow> 'e + 'a) \<Rightarrow> ('s, 'e, 'a) exec" where
  "readE q s = (q s, s)"

lemma andThen_readE_const: "andThen (readE (\<lambda>_. Inr a)) f = f a"
  by (simp add: fun_eq_iff andThen_def readE_def)

text \<open>\<open>m.map_err(f)\<close>, and \<open>m.ok()\<close> with the result thrown away.\<close>

definition mapErr :: "('e \<Rightarrow> 'f) \<Rightarrow> ('s, 'e, 'a) exec \<Rightarrow> ('s, 'f, 'a) exec" where
  "mapErr g m s = (case m s of (Inl e, s') \<Rightarrow> (Inl (g e), s') | (Inr a, s') \<Rightarrow> (Inr a, s'))"

definition ignoreErr :: "('s, 'e, 'a) exec \<Rightarrow> ('s, 'f, unit) exec" where
  "ignoreErr m s = (Inr (), snd (m s))"

text \<open>A \<open>for\<close> loop whose body ends with \<open>?\<close>.\<close>

fun forE :: "('a \<Rightarrow> ('s, 'e, unit) exec) \<Rightarrow> 'a list \<Rightarrow> ('s, 'e, unit) exec" where
  "forE f [] s = (Inr (), s)"
| "forE f (x # xs) s = (case f x s of (Inl e, s') \<Rightarrow> (Inl e, s') | (Inr _, s') \<Rightarrow> forE f xs s')"

text \<open>\<open>rows.map(f).collect::<Result<Vec<_>, _>>()\<close> and the equivalent push loops.\<close>

fun mapM_sum :: "('a \<Rightarrow> 'e + 'b) \<Rightarrow> 'a list \<Rightarrow> 'e + 'b list" where
  "mapM_sum f [] = Inr []"
| "mapM_sum f (x # xs) =
     (case f x of Inl e \<Rightarrow> Inl e
      | Inr y \<Rightarrow> (case mapM_sum f xs of Inl e \<Rightarrow> Inl e | Inr ys \<Rightarrow> Inr (y # ys)))"

definition option_to_sum :: "'e \<Rightarrow> 'a option \<Rightarrow> 'e + 'a" where
  "option_to_sum e v = (case v of None \<Rightarrow> Inl e | Some a \<Rightarrow> Inr a)"

text \<open>\<open>opt.map(f).transpose()?\<close>.\<close>

definition transpose_opt :: "('a \<Rightarrow> 'e + 'b) \<Rightarrow> 'a option \<Rightarrow> 'e + 'b option" where
  "transpose_opt f v =
     (case v of None \<Rightarrow> Inr None
      | Some a \<Rightarrow> (case f a of Inl e \<Rightarrow> Inl e | Inr b \<Rightarrow> Inr (Some b)))"

definition bindS :: "'e + 'a \<Rightarrow> ('a \<Rightarrow> 'e + 'b) \<Rightarrow> 'e + 'b" where
  "bindS m f = (case m of Inl e \<Rightarrow> Inl e | Inr a \<Rightarrow> f a)"

lemma bindS_simps [simp]:
  "bindS (Inl e) f = Inl e" "bindS (Inr a) f = f a"
  by (simp_all add: bindS_def)

lemma option_to_sum_simps [simp]:
  "option_to_sum e None = Inl e" "option_to_sum e (Some a) = Inr a"
  by (simp_all add: option_to_sum_def)

lemma transpose_opt_simps [simp]:
  "transpose_opt f None = Inr None"
  "f a = Inr b \<Longrightarrow> transpose_opt f (Some a) = Inr (Some b)"
  by (simp_all add: transpose_opt_def)

lemma mapM_sum_Inr: "(\<And>x. x \<in> set xs \<Longrightarrow> f x = Inr (g x)) \<Longrightarrow> mapM_sum f xs = Inr (map g xs)"
  by (induction xs) simp_all

lemma mapM_sum_Inl: "x \<in> set xs \<Longrightarrow> f x = Inl e \<Longrightarrow> \<exists>e'. mapM_sum f xs = Inl e'"
  by (induction xs) (auto split: sum.splits)

lemma mapM_sum_set:
  "mapM_sum f xs = Inr ys \<Longrightarrow> y \<in> set ys \<Longrightarrow> \<exists>x \<in> set xs. f x = Inr y"
  by (induction xs arbitrary: ys) (auto split: sum.splits)

lemmas exec_defs = okE_def errE_def andThen_def readE_def mapErr_def ignoreErr_def

declare okE_def [exec_simps] errE_def [exec_simps] andThen_def [exec_simps]
  readE_def [exec_simps] mapErr_def [exec_simps] ignoreErr_def [exec_simps]

subsection \<open>What a computation keeps\<close>

text \<open>
  \<open>keeps I m\<close>: \<open>m\<close> preserves \<open>I\<close> whether it succeeds or fails. The rules below reduce a
  handler to the statements it is made of.
\<close>

definition keeps :: "('s \<Rightarrow> bool) \<Rightarrow> ('s, 'e, 'a) exec \<Rightarrow> bool" where
  "keeps I m \<longleftrightarrow> (\<forall>s. I s \<longrightarrow> I (snd (m s)))"

lemma keepsI: "(\<And>s. I s \<Longrightarrow> I (snd (m s))) \<Longrightarrow> keeps I m"
  by (simp add: keeps_def)

lemma keepsD: "keeps I m \<Longrightarrow> I s \<Longrightarrow> I (snd (m s))"
  by (simp add: keeps_def)

text \<open>What keeps every property changes nothing: a query.\<close>

lemma keeps_reads: "(\<And>J. keeps J m) \<Longrightarrow> snd (m s) = s"
  by (rule keepsD [of "\<lambda>x. x = s" m s]) simp_all

lemma keeps_okE [inv_rules]: "keeps I (okE a)"
  by (simp add: keeps_def okE_def)

lemma keeps_errE [inv_rules]: "keeps I (errE e)"
  by (simp add: keeps_def errE_def)

lemma keeps_readE [inv_rules]: "keeps I (readE q)"
  by (simp add: keeps_def readE_def)

lemma keeps_andThen [inv_rules]:
  "keeps I m \<Longrightarrow> (\<And>a. keeps I (f a)) \<Longrightarrow> keeps I (andThen m f)"
  unfolding keeps_def andThen_def by (fastforce split: prod.splits sum.splits)

lemma keeps_mapErr [inv_rules]: "keeps I m \<Longrightarrow> keeps I (mapErr g m)"
  unfolding keeps_def mapErr_def by (fastforce split: prod.splits sum.splits)

lemma keeps_ignoreErr [inv_rules]: "keeps I m \<Longrightarrow> keeps I (ignoreErr m)"
  by (simp add: keeps_def ignoreErr_def)

lemma keeps_forE [inv_rules]:
  assumes body: "\<And>x. keeps I (f x)"
  shows "keeps I (forE f xs)"
proof (rule keepsI)
  fix s assume "I s"
  then show "I (snd (forE f xs s))"
  proof (induction xs arbitrary: s)
    case (Cons x xs)
    have "I (snd (f x s))" by (rule keepsD [OF body Cons.prems])
    with Cons.IH show ?case by (cases "f x s") (auto split: sum.splits)
  qed simp
qed

lemma keeps_if [inv_rules]: "keeps I m \<Longrightarrow> keeps I n \<Longrightarrow> keeps I (if b then m else n)"
  by simp

lemma keeps_case_option [inv_rules]:
  "keeps I m \<Longrightarrow> (\<And>a. keeps I (f a)) \<Longrightarrow> keeps I (case v of None \<Rightarrow> m | Some a \<Rightarrow> f a)"
  by (cases v) simp_all

lemma keeps_case_sum [inv_rules]:
  "(\<And>a. keeps I (f a)) \<Longrightarrow> (\<And>b. keeps I (g b)) \<Longrightarrow> keeps I (case v of Inl a \<Rightarrow> f a | Inr b \<Rightarrow> g b)"
  by (cases v) simp_all

lemma keeps_case_prod [inv_rules]:
  "(\<And>a b. keeps I (f a b)) \<Longrightarrow> keeps I (case v of (a, b) \<Rightarrow> f a b)"
  by (cases v) simp

lemma keeps_case_list [inv_rules]:
  "keeps I m \<Longrightarrow> (\<And>a b. keeps I (f a b)) \<Longrightarrow> keeps I (case v of [] \<Rightarrow> m | a # b \<Rightarrow> f a b)"
  by (cases v) simp_all

lemma keeps_let [inv_rules]: "(\<And>x. keeps I (f x)) \<Longrightarrow> keeps I (Let v f)"
  by (simp add: Let_def)

section \<open>SQL on lists of rows\<close>

definition update_where :: "('r \<Rightarrow> bool) \<Rightarrow> ('r \<Rightarrow> 'r) \<Rightarrow> 'r list \<Rightarrow> 'r list" where
  "update_where P f rows = map (\<lambda>r. if P r then f r else r) rows"

definition count_where :: "('r \<Rightarrow> bool) \<Rightarrow> 'r list \<Rightarrow> nat" where
  "count_where P rows = length (filter P rows)"

text \<open>\<open>ORDER BY key ASC\<close> and \<open>ORDER BY key DESC\<close>, keeping the table's order among equal keys.\<close>

definition order_by_asc :: "('r \<Rightarrow> 'k::linorder) \<Rightarrow> 'r list \<Rightarrow> 'r list" where
  "order_by_asc k rows = sort_key k rows"

definition order_by_desc :: "('r \<Rightarrow> 'k::linorder) \<Rightarrow> 'r list \<Rightarrow> 'r list" where
  "order_by_desc k rows = rev (sort_key k (rev rows))"

text \<open>A nullable column as a sort key: SQLite puts \<open>NULL\<close> before every text.\<close>

definition null_first :: "sqltext option \<Rightarrow> sqltext list" where
  "null_first v = (case v of None \<Rightarrow> [] | Some t \<Rightarrow> [t])"

lemma update_where_simps [simp]:
  "update_where P f [] = []"
  "update_where P f (r # rows) = (if P r then f r else r) # update_where P f rows"
  by (simp_all add: update_where_def)

lemma length_update_where [simp]: "length (update_where P f rows) = length rows"
  by (simp add: update_where_def)

lemma update_where_noop: "\<forall>r \<in> set rows. \<not> P r \<Longrightarrow> update_where P f rows = rows"
  by (induction rows) auto

lemma map_update_where:
  "(\<And>r. P r \<Longrightarrow> g (f r) = g r) \<Longrightarrow> map g (update_where P f rows) = map g rows"
  by (simp add: update_where_def)

lemma set_update_where:
  "x \<in> set (update_where P f rows) \<longleftrightarrow> (\<exists>r \<in> set rows. x = (if P r then f r else r))"
  by (auto simp: update_where_def)

lemma none_after_update:
  "(\<And>r. P r \<Longrightarrow> \<not> P (f r)) \<Longrightarrow> x \<in> set (update_where P f rows) \<Longrightarrow> \<not> P x"
  by (induction rows) (auto split: if_splits)

lemma updated_row:
  "(\<And>r. P (f r) = P r) \<Longrightarrow> x \<in> set (update_where P f rows) \<Longrightarrow> P x \<Longrightarrow> \<exists>r \<in> set rows. P r \<and> x = f r"
  by (induction rows) (auto split: if_splits)

lemma ball_update_where:
  "(\<forall>x \<in> set (update_where P f rows). Q x) \<longleftrightarrow> (\<forall>r \<in> set rows. Q (if P r then f r else r))"
  by (auto simp: update_where_def)

lemma find_update_where:
  "(\<And>r. Q (if P r then f r else r) \<longleftrightarrow> Q r) \<Longrightarrow>
   find Q (update_where P f rows) = map_option (\<lambda>r. if P r then f r else r) (find Q rows)"
  by (induction rows) auto

lemma set_order_by_asc [simp]: "set (order_by_asc k rows) = set rows"
  by (simp add: order_by_asc_def)

lemma set_order_by_desc [simp]: "set (order_by_desc k rows) = set rows"
  by (simp add: order_by_desc_def)

lemma find_append: "find P (xs @ ys) = (case find P xs of None \<Rightarrow> find P ys | Some x \<Rightarrow> Some x)"
  by (induction xs) auto

lemma map_fst_of_enumerate: "map (\<lambda>p. f (fst p)) (enumerate 0 xs) = map f [0..<length xs]"
proof -
  have "map (\<lambda>p. f (fst p)) (enumerate 0 xs) = map f (map fst (enumerate 0 xs))" by (simp only: map_map o_def)
  then show ?thesis by (simp only: map_fst_enumerate add_0)
qed

lemma map_snd_of_enumerate: "map (\<lambda>p. f (snd p)) (enumerate n xs) = map f xs"
proof -
  have "map (\<lambda>p. f (snd p)) (enumerate n xs) = map f (map snd (enumerate n xs))" by (simp only: map_map o_def)
  then show ?thesis by (simp only: map_snd_enumerate)
qed

lemma find_key_distinct:
  "distinct (map key rows) \<Longrightarrow> r \<in> set rows \<Longrightarrow> find (\<lambda>x. key x = key r) rows = Some r"
  by (induction rows) (auto simp: rev_image_eqI)

lemma find_SomeD: "find P xs = Some x \<Longrightarrow> x \<in> set xs \<and> P x"
  by (induction xs) (auto split: if_splits)

lemma find_NoneD: "find P xs = None \<Longrightarrow> x \<in> set xs \<Longrightarrow> \<not> P x"
  by (induction xs) (auto split: if_splits)

lemma filter_cong_ball: "(\<And>x. x \<in> set xs \<Longrightarrow> P x = Q x) \<Longrightarrow> filter P xs = filter Q xs"
  by (rule filter_cong) simp_all

lemma count_where_le: "count_where P rows \<le> length rows"
  by (simp add: count_where_def)

lemma count_where_all: "count_where P rows = length rows \<longleftrightarrow> (\<forall>r \<in> set rows. P r)"
proof
  assume "count_where P rows = length rows"
  then show "\<forall>r \<in> set rows. P r"
    using length_filter_less [of _ rows P] by (force simp: count_where_def)
qed (simp add: count_where_def)

lemma count_where_pos: "0 < count_where P rows \<longleftrightarrow> (\<exists>r \<in> set rows. P r)"
  by (auto simp: count_where_def filter_empty_conv length_greater_0_conv)

subsection \<open>The \<open>LIKE\<close> operator\<close>

text \<open>
  SQLite's \<open>x LIKE p\<close>: \<open>%\<close> stands for any text, \<open>_\<close> for any one character, and letters of
  the ASCII range match without regard to case.
\<close>

definition ascii_lower :: "char \<Rightarrow> char" where
  "ascii_lower c = (let n = of_char c :: nat in if 65 \<le> n \<and> n \<le> 90 then char_of (n + 32) else c)"

fun sql_like :: "string \<Rightarrow> string \<Rightarrow> bool" where
  "sql_like [] [] = True"
| "sql_like [] (c # s) = False"
| "sql_like (p # ps) [] = (p = CHR ''%'' \<and> sql_like ps [])"
| "sql_like (p # ps) (c # s) =
     (if p = CHR ''%'' then sql_like ps (c # s) \<or> sql_like (p # ps) s
      else (p = CHR ''_'' \<or> ascii_lower p = ascii_lower c) \<and> sql_like ps s)"

lemma sql_like_percent: "sql_like ''%'' s"
  by (induction s) simp_all

lemma sql_like_self: "sql_like (p @ ''%'') (p @ s)"
proof (induction p)
  case Nil
  show ?case by (simp add: sql_like_percent)
next
  case (Cons c p)
  show ?case
  proof (cases "c = CHR ''%''")
    case True
    have "sql_like (CHR ''%'' # p @ ''%'') (p @ s)"
      using Cons.IH by (cases "p @ s") simp_all
    with True show ?thesis by simp
  next
    case False
    with Cons.IH show ?thesis by simp
  qed
qed

section \<open>Systems of steps\<close>

text \<open>If every step lowers a measure, a state without a step is reached.\<close>

lemma ex_terminal:
  fixes f :: "'s \<Rightarrow> nat"
  assumes "\<And>s t. step s t \<Longrightarrow> f t < f s"
  shows "\<exists>t. step\<^sup>*\<^sup>* s t \<and> (\<nexists>u. step t u)"
proof (induction s rule: measure_induct_rule [of f])
  case (less s)
  show ?case
  proof (cases "\<exists>u. step s u")
    case True
    then obtain u where "step s u" by blast
    moreover from this obtain t where "step\<^sup>*\<^sup>* u t" "\<nexists>v. step t v" using less assms by blast
    ultimately show ?thesis by (blast intro: converse_rtranclp_into_rtranclp)
  qed blast
qed

text \<open>The contract of an invariant of a system with steps, and what it gives.\<close>

locale step_invariant =
  fixes init :: "'s" and step :: "'s \<Rightarrow> 's \<Rightarrow> bool" and inv :: "'s \<Rightarrow> bool"
  assumes at_init: "inv init"
    and at_step: "inv s \<Longrightarrow> step s s' \<Longrightarrow> inv s'"
begin

lemma at_reachable: "step\<^sup>*\<^sup>* init s \<Longrightarrow> inv s"
  by (induction rule: rtranclp_induct) (auto intro: at_init at_step)

end

end
