(* ===== verification/Core_Types.thy ===== *)
theory Core_Types
  imports Prelude
begin

text \<open>
  The types of the crate \<open>khronos-core\<close> (\<open>src/crates/core/src\<close>): schedules, workflows,
  activities and their states. Structs are records, enums are datatypes with the source's
  constructors; the constructors of \<open>ActivityState\<close> carry a prefix, because
  \<open>WorkflowState\<close> has four of the same names. A \<open>BTreeMap\<close> of strings is the list of
  its entries in ascending key order.
\<close>

section \<open>JSON values\<close>

datatype json =
    JNull
  | JBool bool
  | JNumber f64
  | JString string
  | JArray "json list"
  | JObject "(string \<times> json) list"

definition json_as_str :: "json \<Rightarrow> string option" where
  "json_as_str v = (case v of JString s \<Rightarrow> Some s | _ \<Rightarrow> None)"

text \<open>Inserting into, and collecting into, a \<open>BTreeMap\<close>.\<close>

fun btree_insert :: "string \<Rightarrow> 'v \<Rightarrow> (string \<times> 'v) list \<Rightarrow> (string \<times> 'v) list" where
  "btree_insert k v [] = [(k, v)]"
| "btree_insert k v ((k', v') # m) =
     (if k < k' then (k, v) # (k', v') # m
      else if k = k' then (k, v) # m
      else (k', v') # btree_insert k v m)"

definition btree_extend :: "(string \<times> 'v) list \<Rightarrow> (string \<times> 'v) list \<Rightarrow> (string \<times> 'v) list" where
  "btree_extend m kvs = foldl (\<lambda>acc (k, v). btree_insert k v acc) m kvs"

definition btree_collect :: "(string \<times> 'v) list \<Rightarrow> (string \<times> 'v) list" where
  "btree_collect kvs = btree_extend [] kvs"

lemma map_of_btree_insert [simp]: "map_of (btree_insert k v m) = (map_of m)(k \<mapsto> v)"
  by (induction k v m rule: btree_insert.induct) (auto simp: fun_eq_iff)

lemma set_btree_insert: "fst ` set (btree_insert k v m) = insert k (fst ` set m)"
  by (induction k v m rule: btree_insert.induct) auto

lemma sorted_btree_insert:
  "sorted (map fst m) \<Longrightarrow> distinct (map fst m) \<Longrightarrow>
   sorted (map fst (btree_insert k v m)) \<and> distinct (map fst (btree_insert k v m))"
proof (induction k v m rule: btree_insert.induct)
  case (2 k v k' v' m)
  have keys: "fst ` set (btree_insert k v m) = insert k (fst ` set m)"
    by (rule set_btree_insert)
  have le: "\<forall>x \<in> fst ` set m. k' \<le> x" and nin: "k' \<notin> fst ` set m"
    using 2 by (auto simp: image_iff)
  show ?case
  proof (cases "k < k' \<or> k = k'")
    case True
    with 2 show ?thesis by (auto simp: less_imp_le order.trans)
  next
    case False
    then have "k' < k" by auto
    with 2 le nin keys show ?thesis by (auto simp: keys)
  qed
qed simp

section \<open>Activities (\<open>core/src/activity.rs\<close>)\<close>

datatype ActivityState = Activity_Pending | Activity_Running | Activity_Completed
  | Activity_Failed | Activity_Retried

record RetryPolicy =
  maximum_attempts :: u32
  initial_interval_secs :: f64

definition retry_policy_default :: RetryPolicy where
  "retry_policy_default = \<lparr>maximum_attempts = 0, initial_interval_secs = 0\<rparr>"

definition retry_policy_new :: RetryPolicy where
  "retry_policy_new = retry_policy_default"

datatype ActivityResult = Success json | Failure string

record ActivityTask =
  at_activity_id :: uuid
  at_step_id :: uuid
  at_workflow_run_id :: uuid
  at_name :: string
  at_args :: smap
  at_retry_policy :: RetryPolicy
  at_heartbeat_timeout_secs :: u64
  at_start_to_close_timeout_secs :: u64

section \<open>Schedules (\<open>core/src/schedule.rs\<close>)\<close>

datatype ScheduleSpec = Cron "string list" | Interval duration

datatype OverlapPolicy = Skip | Buffer u64 | TerminateExisting

record Timeouts =
  execution_timeout_secs :: "u64 option"
  run_timeout_secs :: "u64 option"
  task_timeout_secs :: "u64 option"

definition timeouts_default :: Timeouts where
  "timeouts_default =
     \<lparr>execution_timeout_secs = None, run_timeout_secs = None, task_timeout_secs = None\<rparr>"

record WorkflowAction =
  wa_workflow_name :: string
  wa_args :: smap
  wa_task_queue :: string
  wa_id :: string
  wa_timeouts :: Timeouts

record Schedule =
  sc_schedule_id :: string
  sc_namespace :: string
  sc_spec :: ScheduleSpec
  sc_action :: WorkflowAction
  sc_policy :: OverlapPolicy
  sc_created_at :: time
  sc_updated_at :: time

text \<open>\<open>Duration::from_secs\<close> and \<open>Duration::as_secs\<close>.\<close>

definition duration_from_secs :: "u64 \<Rightarrow> duration" where
  "duration_from_secs s = unat s * 1000000000"

definition duration_as_secs :: "duration \<Rightarrow> u64" where
  "duration_as_secs d = of_nat (d div 1000000000)"

lemma duration_as_secs_from_secs [simp]: "duration_as_secs (duration_from_secs s) = s"
  by (simp add: duration_as_secs_def duration_from_secs_def)

section \<open>Workflows (\<open>core/src/workflow.rs\<close>)\<close>

datatype WorkflowState = Pending | Running | Completed | Failed | Cancelled

record ActivityStep =
  as_activity_name :: string
  as_args_template :: smap
  as_retry_policy :: RetryPolicy
  as_timeout_secs :: u64
  as_heartbeat_timeout_secs :: "u64 option"

record WorkflowDefinition =
  wd_name :: string
  wd_steps :: "ActivityStep list"

record WorkflowInstance =
  wi_run_id :: uuid
  wi_workflow_id :: string
  wi_name :: string
  wi_task_queue :: string
  wi_state :: WorkflowState
  wi_args_json :: json
  wi_result_json :: "json option"
  wi_timeouts :: Timeouts
  wi_started_at :: "time option"
  wi_completed_at :: "time option"
  wi_namespace :: string

record WorkflowStepInstance =
  si_id :: uuid
  si_workflow_run_id :: uuid
  si_step_index :: u64
  si_activity_name :: string
  si_args_json :: json
  si_retry_policy :: RetryPolicy
  si_timeout_secs :: u64
  si_heartbeat_timeout_secs :: "u64 option"
  si_state :: WorkflowState
  si_attempt :: u32
  si_result_json :: "json option"
  si_next_retry_at :: "time option"

section \<open>Errors\<close>

text \<open>
  What the code's \<open>Box<dyn Error>\<close> can hold: an SQLite error, a serde error, a chrono parse
  error, or a message the code formats itself. A Rust panic is an outcome of its own.
\<close>

datatype sql_error = CheckConstraint | UniqueConstraint | ForeignKeyConstraint
  | QueryReturnedNoRows | NoSuchColumn string | SqlSyntax | DatabaseBusy

datatype err = SqlErr sql_error | SerdeErr | ChronoErr | Message string | Panicked

text \<open>A tonic \<open>Status\<close>: its code, and the prefix the handler puts before the inner error.\<close>

datatype status = InvalidArgument string | NotFoundStatus string | Internal string err
  | HandlerPanic

end
