(* ===== verification/Core_Display.thy ===== *)
theory Core_Display
  imports Core_Types
begin

text \<open>
  The \<open>Display\<close> implementations of \<open>core/src/schedule.rs\<close>, with the \<open>Debug\<close> format of a \<open>Duration\<close> from the
  standard library that one of them uses, the derived defaults of the two state enums, and the unit tests of
  the crate that do not go through serde.
\<close>

section \<open>Durations\<close>

text \<open>
  The decimals of a fraction, from the digit that counts \<open>divisor\<close> units on; no digit is written after the
  last one that is not zero.
\<close>

fun fraction_digits :: "nat \<Rightarrow> nat \<Rightarrow> string" where
  "fraction_digits fractional divisor =
     (if fractional = 0 \<or> divisor = 0 then []
      else char_of (48 + fractional div divisor) # fraction_digits (fractional mod divisor) (divisor div 10))"

declare fraction_digits.simps [simp del]

definition fmt_decimal :: "nat \<Rightarrow> nat \<Rightarrow> nat \<Rightarrow> string \<Rightarrow> string" where
  "fmt_decimal whole fractional divisor unit_text =
     show_int (int whole) @ (if fractional = 0 then [] else CHR ''.'' # fraction_digits fractional divisor) @ unit_text"

text \<open>\<open>{:?}\<close> of a \<open>Duration\<close>; the micro sign is the character B5.\<close>

definition debug_duration :: "duration \<Rightarrow> string" where
  "debug_duration d =
     (let secs = d div 1000000000; nanos = d mod 1000000000 in
      if 0 < secs then fmt_decimal secs nanos 100000000 ''s''
      else if 1000000 \<le> nanos then fmt_decimal (nanos div 1000000) (nanos mod 1000000) 100000 ''ms''
      else if 1000 \<le> nanos then fmt_decimal (nanos div 1000) (nanos mod 1000) 100 [CHR 0xB5, CHR ''s'']
      else fmt_decimal nanos 0 1 ''ns'')"

lemma debug_duration_secs: "0 < s \<Longrightarrow> debug_duration (duration_from_secs s) = show_int (uint s) @ ''s''"
  by (simp add: debug_duration_def duration_from_secs_def fmt_decimal_def word_less_nat_alt)

section \<open>Display\<close>

fun join_with :: "string \<Rightarrow> string list \<Rightarrow> string" where
  "join_with sep [] = []"
| "join_with sep [x] = x"
| "join_with sep (x # y # xs) = x @ sep @ join_with sep (y # xs)"

primrec display_schedule_spec :: "ScheduleSpec \<Rightarrow> string" where
  "display_schedule_spec (Cron expressions) = ''Cron('' @ join_with '', '' expressions @ '')''"
| "display_schedule_spec (Interval duration) = ''Interval('' @ debug_duration duration @ '')''"

primrec display_overlap_policy :: "OverlapPolicy \<Rightarrow> string" where
  "display_overlap_policy Skip = ''Skip''"
| "display_overlap_policy (Buffer n) = ''Buffer('' @ show_int (uint n) @ '')''"
| "display_overlap_policy TerminateExisting = ''TerminateExisting''"

section \<open>Defaults\<close>

definition activity_state_default :: ActivityState where
  "activity_state_default = Activity_Pending"

definition workflow_state_default :: WorkflowState where
  "workflow_state_default = Pending"

section \<open>The tests that do not use serde\<close>

definition test_cron_spec_display :: bool where
  "test_cron_spec_display \<longleftrightarrow> (let spec = Cron [''0 * * * *''] in display_schedule_spec spec = ''Cron(0 * * * *)'')"

definition test_interval_spec_display :: bool where
  "test_interval_spec_display \<longleftrightarrow>
     (let spec = Interval (duration_from_secs 60); display = display_schedule_spec spec in
      take (length ''Interval('') display = ''Interval('' \<and> display \<noteq> [] \<and> last display = CHR '')'')"

definition test_overlap_policy_display :: bool where
  "test_overlap_policy_display \<longleftrightarrow>
     display_overlap_policy Skip = ''Skip'' \<and> display_overlap_policy (Buffer 3) = ''Buffer(3)'' \<and>
     display_overlap_policy TerminateExisting = ''TerminateExisting''"

definition test_timeouts_default :: bool where
  "test_timeouts_default \<longleftrightarrow>
     (let timeouts = timeouts_default in
      execution_timeout_secs timeouts = None \<and> run_timeout_secs timeouts = None \<and> task_timeout_secs timeouts = None)"

definition test_activity_state_default :: bool where
  "test_activity_state_default \<longleftrightarrow> (let state = activity_state_default in state = Activity_Pending)"

definition test_activity_state_equality :: bool where
  "test_activity_state_equality \<longleftrightarrow>
     Activity_Pending = Activity_Pending \<and> Activity_Running \<noteq> Activity_Completed \<and> Activity_Failed \<noteq> Activity_Retried"

definition test_retry_policy_default :: bool where
  "test_retry_policy_default \<longleftrightarrow>
     (let policy = retry_policy_default in maximum_attempts policy = 0 \<and> initial_interval_secs policy = 0)"

definition test_retry_policy_new :: bool where
  "test_retry_policy_new \<longleftrightarrow>
     (let policy = retry_policy_new in maximum_attempts policy = 0 \<and> initial_interval_secs policy = 0)"

definition test_workflow_state_default :: bool where
  "test_workflow_state_default \<longleftrightarrow> (let state = workflow_state_default in state = Pending)"

definition test_workflow_state_equality :: bool where
  "test_workflow_state_equality \<longleftrightarrow> Pending = Pending \<and> Pending \<noteq> Running \<and> Completed \<noteq> Failed"

text \<open>
  The derived \<open>Clone\<close> copies a value; the structs of the crate hold no shared pointers, so that the copy is the
  value itself. A test that draws identifiers or reads the clock takes them as arguments.
\<close>

definition clone :: "'a \<Rightarrow> 'a" where
  "clone x = x"

definition make_schedule :: "time \<Rightarrow> Schedule" where
  "make_schedule now = \<lparr>
     sc_schedule_id = ''test-schedule'', sc_namespace = ''default'', sc_spec = Cron [''0 * * * *''],
     sc_action = \<lparr>wa_workflow_name = ''my_workflow'', wa_args = [(''key'', ''value'')], wa_task_queue = ''default'',
       wa_id = ''action-1'', wa_timeouts = timeouts_default\<rparr>,
     sc_policy = Skip, sc_created_at = now, sc_updated_at = now\<rparr>"

definition make_workflow_instance :: "uuid \<Rightarrow> WorkflowInstance" where
  "make_workflow_instance run_id = \<lparr>
     wi_run_id = run_id, wi_workflow_id = ''wf-001'', wi_name = ''test_workflow'', wi_task_queue = ''default'',
     wi_state = Pending, wi_args_json = JObject [(''key'', JString ''value'')], wi_result_json = None,
     wi_timeouts = \<lparr>execution_timeout_secs = Some 3600, run_timeout_secs = Some 1800, task_timeout_secs = Some 300\<rparr>,
     wi_started_at = None, wi_completed_at = None, wi_namespace = ''default''\<rparr>"

definition test_retry_policy_clone :: bool where
  "test_retry_policy_clone \<longleftrightarrow>
     (let policy = \<lparr>maximum_attempts = 3, initial_interval_secs = 3 / 2\<rparr> :: RetryPolicy; cloned = clone policy in
      maximum_attempts policy = maximum_attempts cloned \<and> initial_interval_secs policy = initial_interval_secs cloned)"

definition test_activity_task_clone :: "uuid \<Rightarrow> uuid \<Rightarrow> uuid \<Rightarrow> bool" where
  "test_activity_task_clone a b c \<longleftrightarrow>
     (let task = \<lparr>at_activity_id = a, at_step_id = b, at_workflow_run_id = c, at_name = ''test'', at_args = [],
            at_retry_policy = retry_policy_default, at_heartbeat_timeout_secs = 30, at_start_to_close_timeout_secs = 120\<rparr>;
          cloned = clone task in
      at_activity_id task = at_activity_id cloned \<and> at_name task = at_name cloned)"

definition test_schedule_clone :: "time \<Rightarrow> bool" where
  "test_schedule_clone now \<longleftrightarrow>
     (let schedule = make_schedule now; cloned = clone schedule in
      sc_schedule_id schedule = sc_schedule_id cloned \<and> sc_namespace schedule = sc_namespace cloned)"

definition test_workflow_instance_clone :: "uuid \<Rightarrow> bool" where
  "test_workflow_instance_clone run_id \<longleftrightarrow>
     (let wf = make_workflow_instance run_id; cloned = clone wf in
      wi_run_id wf = wi_run_id cloned \<and> wi_workflow_id wf = wi_workflow_id cloned)"

definition core_tests :: "time \<Rightarrow> uuid \<Rightarrow> uuid \<Rightarrow> uuid \<Rightarrow> bool list" where
  "core_tests now a b c =
     [test_cron_spec_display, test_interval_spec_display, test_overlap_policy_display, test_timeouts_default,
      test_activity_state_default, test_activity_state_equality, test_retry_policy_default, test_retry_policy_new,
      test_workflow_state_default, test_workflow_state_equality, test_retry_policy_clone, test_activity_task_clone a b c,
      test_schedule_clone now, test_workflow_instance_clone a]"

lemma tests_display: "test_cron_spec_display" "test_interval_spec_display" "test_overlap_policy_display"
  by (simp_all add: test_cron_spec_display_def test_interval_spec_display_def test_overlap_policy_display_def
      show_int_def show_nat_rev.simps [of 3]) code_simp

lemma tests_defaults: "test_timeouts_default" "test_retry_policy_default" "test_retry_policy_new"
  "test_activity_state_default" "test_workflow_state_default"
  by (simp_all add: test_timeouts_default_def timeouts_default_def test_retry_policy_default_def test_retry_policy_new_def
      retry_policy_new_def retry_policy_default_def test_activity_state_default_def activity_state_default_def
      test_workflow_state_default_def workflow_state_default_def)

lemma tests_clone: "test_retry_policy_clone" "test_activity_task_clone a b c" "test_schedule_clone now" "test_workflow_instance_clone a"
  by (simp_all add: clone_def test_retry_policy_clone_def test_activity_task_clone_def test_schedule_clone_def
      test_workflow_instance_clone_def)

lemma core_tests_pass: "list_all id (core_tests now a b c)"
  by (simp add: core_tests_def tests_display tests_defaults tests_clone test_activity_state_equality_def test_workflow_state_equality_def)

end
