(* ===== verification/Min_Queue.thy ===== *)
theory Min_Queue
  imports Prelude "HOL-Library.Multiset"
begin

text \<open>
  The scheduler's \<open>BinaryHeap<Reverse<ScheduleEntry>>\<close>: \<open>ScheduleEntry\<close> with the order of its
  \<open>Ord\<close> implementation (\<open>server/src/scheduler.rs\<close>), the contract of a queue that hands out a
  least element, and the queue as the ascending list of its entries. The order is total and
  agrees with equality, so \<open>pop\<close> of the standard library's heap has no choice, and the list is
  that heap up to its internal layout.
\<close>

section \<open>Schedule entries\<close>

datatype ScheduleEntry = ScheduleEntry (next_fire_time: time) (entry_schedule_id: string)

text \<open>\<open>cmp\<close>: the fire time, then the schedule's name.\<close>

instantiation ScheduleEntry :: linorder
begin

definition less_eq_ScheduleEntry :: "ScheduleEntry \<Rightarrow> ScheduleEntry \<Rightarrow> bool" where
  "less_eq_ScheduleEntry a b \<longleftrightarrow>
     next_fire_time a < next_fire_time b \<or>
     (next_fire_time a = next_fire_time b \<and> entry_schedule_id a \<le> entry_schedule_id b)"

definition less_ScheduleEntry :: "ScheduleEntry \<Rightarrow> ScheduleEntry \<Rightarrow> bool" where
  "less_ScheduleEntry a b \<longleftrightarrow>
     next_fire_time a < next_fire_time b \<or>
     (next_fire_time a = next_fire_time b \<and> entry_schedule_id a < entry_schedule_id b)"

instance
proof
  fix a b c :: ScheduleEntry
  show "a < b \<longleftrightarrow> a \<le> b \<and> \<not> b \<le> a"
    by (auto simp: less_eq_ScheduleEntry_def less_ScheduleEntry_def)
  show "a \<le> a"
    by (simp add: less_eq_ScheduleEntry_def)
  show "a \<le> b \<Longrightarrow> b \<le> c \<Longrightarrow> a \<le> c"
    by (auto simp: less_eq_ScheduleEntry_def)
  show "a \<le> b \<Longrightarrow> b \<le> a \<Longrightarrow> a = b"
    by (cases a; cases b) (auto simp: less_eq_ScheduleEntry_def)
  show "a \<le> b \<or> b \<le> a"
    by (auto simp: less_eq_ScheduleEntry_def)
qed

end

lemma next_fire_time_mono: "a \<le> b \<Longrightarrow> next_fire_time a \<le> next_fire_time b"
  by (auto simp: less_eq_ScheduleEntry_def)

section \<open>The contract of a queue with a least element\<close>

locale min_queue =
  fixes inv :: "'q \<Rightarrow> bool"
    and elems :: "'q \<Rightarrow> 'e::linorder multiset"
    and push :: "'e \<Rightarrow> 'q \<Rightarrow> 'q"
    and pop :: "'q \<Rightarrow> ('e \<times> 'q) option"
  assumes push_inv: "inv q \<Longrightarrow> inv (push e q)"
    and push_elems: "inv q \<Longrightarrow> elems (push e q) = add_mset e (elems q)"
    and pop_None: "inv q \<Longrightarrow> pop q = None \<longleftrightarrow> elems q = {#}"
    and pop_inv: "inv q \<Longrightarrow> pop q = Some (e, q') \<Longrightarrow> inv q'"
    and pop_elems: "inv q \<Longrightarrow> pop q = Some (e, q') \<Longrightarrow> elems q = add_mset e (elems q')"
    and pop_least: "inv q \<Longrightarrow> pop q = Some (e, q') \<Longrightarrow> x \<in># elems q \<Longrightarrow> e \<le> x"
begin

text \<open>Pushing back the entry that was popped restores the contents.\<close>

lemma push_back: "inv q \<Longrightarrow> pop q = Some (e, q') \<Longrightarrow> inv (push e q') \<and> elems (push e q') = elems q"
  using pop_inv pop_elems push_inv push_elems by metis

lemma pop_size: "inv q \<Longrightarrow> pop q = Some (e, q') \<Longrightarrow> size (elems q') < size (elems q)"
  using pop_elems by fastforce

text \<open>If the least entry fails an upward closed test, every entry does.\<close>

lemma none_below:
  assumes "inv q" "pop q = Some (e, q')" "\<not> P e" "\<And>x y. x \<le> y \<Longrightarrow> P y \<Longrightarrow> P x"
    and "x \<in># elems q"
  shows "\<not> P x"
  using assms(3,4) pop_least [OF assms(1,2,5)] by blast

end

section \<open>The queue as an ascending list\<close>

type_synonym heap = "ScheduleEntry list"

definition heap_push :: "ScheduleEntry \<Rightarrow> heap \<Rightarrow> heap" where
  "heap_push e h = insort e h"

definition heap_pop :: "heap \<Rightarrow> (ScheduleEntry \<times> heap) option" where
  "heap_pop h = (case h of [] \<Rightarrow> None | e # h' \<Rightarrow> Some (e, h'))"

definition heap_peek :: "heap \<Rightarrow> ScheduleEntry option" where
  "heap_peek h = map_option fst (heap_pop h)"

interpretation sched_heap: min_queue sorted mset heap_push heap_pop
proof unfold_locales
  fix q q' e x
  show "sorted q \<Longrightarrow> sorted (heap_push e q)"
    by (simp add: heap_push_def sorted_insort)
  show "mset (heap_push e q) = add_mset e (mset q)"
    by (simp add: heap_push_def mset_insort)
  show "heap_pop q = None \<longleftrightarrow> mset q = {#}"
    by (simp add: heap_pop_def split: list.split)
  show "sorted q \<Longrightarrow> heap_pop q = Some (e, q') \<Longrightarrow> sorted q'"
    by (auto simp: heap_pop_def split: list.splits)
  show "heap_pop q = Some (e, q') \<Longrightarrow> mset q = add_mset e (mset q')"
    by (auto simp: heap_pop_def split: list.splits)
  show "sorted q \<Longrightarrow> heap_pop q = Some (e, q') \<Longrightarrow> x \<in># mset q \<Longrightarrow> e \<le> x"
    by (auto simp: heap_pop_def split: list.splits)
qed

text \<open>The order in which entries are pushed does not matter (a \<open>HashMap\<close> is walked to fill the heap).\<close>

lemma heap_push_commute: "heap_push a (heap_push b h) = heap_push b (heap_push a h)"
  by (simp add: heap_push_def insort_left_comm)

end
