(* ===== verification/External.thy ===== *)
theory External
  imports Core_Types
begin

text \<open>
  The code the program calls and does not contain: serde_json's text form of values,
  uuid's parser, chrono's formatting and parsing, the cron crate, SQLite's parser. Each is a
  field of the record \<open>ext\<close>, an argument of every definition that uses it. What a property
  needs of one of them is a hypothesis of that property, stated at the values it is used on.

  The clock is an argument too: \<open>utc_now\<close> is what \<open>Utc::now()\<close> returns during a call and
  \<open>sql_now\<close> the text of SQLite's \<open>datetime('now')\<close> in its statements. A fresh
  \<open>Uuid::new_v4()\<close> is an argument of the function that draws it.
\<close>

record ext =
  json_to_string :: "json \<Rightarrow> string"
  json_from_str :: "string \<Rightarrow> json option"
  retry_to_string :: "RetryPolicy \<Rightarrow> string"
  retry_from_str :: "string \<Rightarrow> RetryPolicy option"
  strs_to_string :: "string list \<Rightarrow> string"
  strs_from_str :: "string \<Rightarrow> string list option"
  smap_to_string :: "smap \<Rightarrow> string"
  smap_from_str :: "string \<Rightarrow> smap option"
  timeouts_to_string :: "Timeouts \<Rightarrow> string"
  timeouts_from_str :: "string \<Rightarrow> Timeouts option"
  uuid_parse :: "string \<Rightarrow> uuid option"
  fmt_time :: "time \<Rightarrow> string"
  parse_naive :: "string \<Rightarrow> string \<Rightarrow> time option"
  parse_tz :: "string \<Rightarrow> string \<Rightarrow> time option"
  add_secs :: "time \<Rightarrow> i64 \<Rightarrow> time option"
  cron_upcoming :: "string \<Rightarrow> time \<Rightarrow> time option option"
  sql_accepts :: "string \<Rightarrow> bool"
  utf8_lossy :: "8 word list \<Rightarrow> string"
  json_from_slice :: "8 word list \<Rightarrow> json option"

record clock =
  utc_now :: time
  sql_now :: sqltext

text \<open>
  \<open>fmt_time\<close> is \<open>d.format("%Y-%m-%d %H:%M:%S")\<close>. \<open>parse_naive s fmt\<close> is
  \<open>NaiveDateTime::parse_from_str(s, fmt)\<close> read as UTC, \<open>parse_tz s fmt\<close> is
  \<open>DateTime::parse_from_str(s, fmt)\<close> converted to UTC. \<open>add_secs t n\<close> is
  \<open>t + chrono::Duration::seconds(n)\<close>, with \<open>None\<close> for its panic out of range.
  \<open>cron_upcoming e now\<close> is \<open>None\<close> when \<open>cron::Schedule::from_str(e)\<close> fails, and otherwise
  what \<open>upcoming(Utc).next()\<close> returns at the time \<open>now\<close>. \<open>sql_accepts q\<close> says whether SQLite
  can prepare the statement text \<open>q\<close>.
\<close>

definition date_fmt :: string where
  "date_fmt = ''%Y-%m-%d %H:%M:%S''"

text \<open>chrono's \<open>DateTime::parse_from_str\<close> refuses a format without an offset, whatever the text.\<close>

definition no_offset_refused :: "ext \<Rightarrow> bool" where
  "no_offset_refused X \<longleftrightarrow> (\<forall>t. parse_tz X t date_fmt = None)"

text \<open>The whole seconds of a time: what survives \<open>fmt_time\<close>.\<close>

definition trunc_secs :: "time \<Rightarrow> time" where
  "trunc_secs t = t - t mod nanos_per_sec"

lemma trunc_secs_le: "trunc_secs t \<le> t"
  by (simp add: trunc_secs_def)

lemma trunc_secs_idem [simp]: "trunc_secs (trunc_secs t) = trunc_secs t"
  by (simp add: trunc_secs_def minus_mod_eq_mult_div)

text \<open>\<open>a.signed_duration_since(b).num_seconds()\<close>: whole seconds, truncated towards zero.\<close>

definition num_seconds_between :: "time \<Rightarrow> time \<Rightarrow> i64" where
  "num_seconds_between a b = (let d = a - b in sgn d * (\<bar>d\<bar> div nanos_per_sec))"

lemma num_seconds_between_ge:
  assumes "0 \<le> n"
  shows "n \<le> num_seconds_between a b \<longleftrightarrow> (n = 0 \<and> - nanos_per_sec < a - b) \<or> n * nanos_per_sec \<le> a - b"
proof (cases "a - b < 0")
  case True
  define d where "d = b - a"
  have "0 < d" using True by (simp add: d_def)
  then have "num_seconds_between a b = - (d div nanos_per_sec)"
    by (simp add: num_seconds_between_def Let_def d_def)
  with assms \<open>0 < d\<close> show ?thesis by (auto simp: d_def)
next
  case False
  then have "num_seconds_between a b = (a - b) div nanos_per_sec"
    by (cases "a - b = 0") (simp_all add: num_seconds_between_def Let_def)
  with False assms show ?thesis by auto
qed

text \<open>
  A reference instance for concrete inputs: JSON texts stand for the few values a concrete
  run stores, times are formatted as decimal digits of fixed width, every identifier parses
  as a UUID. The properties do not depend on it.
\<close>

fun digits_of :: "nat \<Rightarrow> nat \<Rightarrow> string" where
  "digits_of 0 n = []"
| "digits_of (Suc w) n = digits_of w (n div 10) @ [char_of (48 + n mod 10)]"

lemma digits_of_numeral:
  "digits_of (numeral w) n = digits_of (pred_numeral w) (n div 10) @ [char_of (48 + n mod 10)]"
  by (simp only: numeral_eq_Suc [of w] digits_of.simps)

definition digits_val :: "string \<Rightarrow> nat" where
  "digits_val s = foldl (\<lambda>a c. 10 * a + (of_char c - 48)) 0 s"

lemma digits_val_digits_of: "digits_val (digits_of w n) = n mod 10 ^ w"
proof (induction w arbitrary: n)
  case 0
  show ?case by (simp add: digits_val_def)
next
  case (Suc w)
  have d: "of_char (char_of (48 + n mod 10) :: char) = 48 + n mod 10"
    by (simp add: of_char_of)
  have "digits_val (digits_of (Suc w) n) = 10 * digits_val (digits_of w (n div 10)) + n mod 10"
    by (simp add: digits_val_def d)
  then show ?case using Suc.IH [of "n div 10"]
    by (simp add: mod_mult2_eq mult.commute)
qed

text \<open>Decimal texts of the same width compare as the numbers do.\<close>

lemma digits_of_length: "length (digits_of w n) = w"
  by (induction w arbitrary: n) simp_all

lemma snoc_mono:
  fixes xs ys :: "'a::linorder list"
  shows "length xs = length ys \<Longrightarrow> xs < ys \<or> xs = ys \<and> a \<le> b \<Longrightarrow> xs @ [a] \<le> ys @ [b]"
  by (induction xs ys rule: list_induct2) auto

lemma digits_of_mono: "m \<le> n \<Longrightarrow> n < 10 ^ w \<Longrightarrow> digits_of w m \<le> digits_of w n"
proof (induction w arbitrary: m n)
  case (Suc w)
  have lt: "n div 10 < 10 ^ w" using Suc.prems(2) by (simp add: less_mult_imp_div_less mult.commute)
  have le: "digits_of w (m div 10) \<le> digits_of w (n div 10)"
    using Suc.prems(1) by (intro Suc.IH lt div_le_mono)
  have "digits_of w (m div 10) \<noteq> digits_of w (n div 10)" if "m div 10 < n div 10"
    using that lt digits_val_digits_of [of w "m div 10"] digits_val_digits_of [of w "n div 10"] by auto
  moreover have "(char_of (48 + m mod 10) :: char) \<le> char_of (48 + n mod 10)" if "\<not> m div 10 < n div 10"
  proof -
    have "m div 10 = n div 10" using that div_le_mono [OF Suc.prems(1), of 10] by simp
    then have "m mod 10 \<le> n mod 10" using Suc.prems(1) by (metis add_le_cancel_left mult_div_mod_eq)
    then show ?thesis by (simp add: less_eq_char_def of_char_of)
  qed
  ultimately show ?case
    using le by (cases "m div 10 < n div 10") (auto simp: digits_of_length intro!: snoc_mono)
qed simp
definition ref_ext :: ext where
  "ref_ext = \<lparr>
     json_to_string = (\<lambda>v. case v of JString s \<Rightarrow> s | JNull \<Rightarrow> ''null'' | _ \<Rightarrow> ''{}''),
     json_from_str = (\<lambda>s. if s = ''{}'' then Some (JObject []) else if s = ''null'' then Some JNull
        else Some (JString s)),
     retry_to_string = (\<lambda>p. digits_of 10 (unat (maximum_attempts p))),
     retry_from_str = (\<lambda>s. Some \<lparr>maximum_attempts = of_nat (digits_val s), initial_interval_secs = 2\<rparr>),
     strs_to_string = (\<lambda>l. case l of [] \<Rightarrow> ''[]'' | x # _ \<Rightarrow> CHR ''['' # x),
     strs_from_str = (\<lambda>s. case s of [] \<Rightarrow> None | c # x \<Rightarrow>
        if c = CHR ''['' then (if x = '']'' then Some [] else Some [x]) else None),
     smap_to_string = (\<lambda>_. ''{}''),
     smap_from_str = (\<lambda>s. if s = ''{}'' then Some [] else None),
     timeouts_to_string = (\<lambda>_. ''{}''),
     timeouts_from_str = (\<lambda>s. if s = ''{}'' then Some timeouts_default else None),
     uuid_parse = (\<lambda>s. Some s),
     fmt_time = (\<lambda>t. digits_of 12 (nat (t div nanos_per_sec))),
     parse_naive = (\<lambda>s fmt. Some (int (digits_val s) * nanos_per_sec)),
     parse_tz = (\<lambda>s fmt. None),
     add_secs = (\<lambda>t n. if \<bar>n\<bar> \<le> i64_max div 1000 then Some (t + n * nanos_per_sec) else None),
     cron_upcoming = (\<lambda>e now. Some (Some ((now div (60 * nanos_per_sec) + 1) * (60 * nanos_per_sec)))),
     sql_accepts = (\<lambda>q. CHR 0x5C \<notin> set q),
     utf8_lossy = map (\<lambda>b. char_of (unat b)),
     json_from_slice = (\<lambda>bs. Some (JString (map (\<lambda>b. char_of (unat b)) bs)))\<rparr>"

lemma ref_ext_simps [simp]:
  "uuid_parse ref_ext s = Some s"
  "parse_tz ref_ext s f = None"
  "fmt_time ref_ext t = digits_of 12 (nat (t div nanos_per_sec))"
  "parse_naive ref_ext s f = Some (int (digits_val s) * nanos_per_sec)"
  "add_secs ref_ext t n = (if \<bar>n\<bar> \<le> i64_max div 1000 then Some (t + n * nanos_per_sec) else None)"
  "sql_accepts ref_ext q \<longleftrightarrow> CHR 0x5C \<notin> set q"
  by (simp_all add: ref_ext_def)

lemma ref_ext_time_roundtrip:
  assumes "0 \<le> t" "t < 10 ^ 12 * nanos_per_sec"
  shows "parse_naive ref_ext (fmt_time ref_ext t) f = Some (trunc_secs t)"
proof -
  have "nat (t div nanos_per_sec) < 10 ^ 12"
    using assms by (simp add: nat_less_iff)
  moreover have "0 \<le> t div nanos_per_sec"
    using assms(1) by (simp add: pos_imp_zdiv_nonneg_iff)
  ultimately show ?thesis
    by (simp add: digits_val_digits_of trunc_secs_def minus_mod_eq_div_mult)
qed

end
