(* ===== verification/Schema.thy ===== *)
theory Schema
  imports External
begin

text \<open>
  The tables of \<open>db/src/schema.rs\<close> as lists of rows, with the constraints that
  \<open>migrate\<close> declares: \<open>CHECK\<close> on the state and policy columns, \<open>PRIMARY KEY\<close> and
  \<open>UNIQUE\<close>, and the two foreign keys, which every connection enforces
  (\<open>PRAGMA foreign_keys = ON\<close>, \<open>db/src/lib.rs\<close>). A statement that violates a constraint
  changes nothing and fails. The column \<open>schedules.id\<close>, an AUTOINCREMENT key no statement
  reads, is left out.
\<close>

record ns_row =
  ns_name :: sqltext
  ns_created_at :: sqltext

record sched_row =
  sr_schedule_id :: sqltext
  sr_namespace :: sqltext
  sr_spec_type :: sqltext
  sr_cron_expressions :: "sqltext option"
  sr_interval_seconds :: "i64 option"
  sr_overlap_policy :: sqltext
  sr_action_workflow_name :: sqltext
  sr_action_task_queue :: sqltext
  sr_action_args_json :: sqltext
  sr_action_id :: "sqltext option"
  sr_timeouts_json :: sqltext
  sr_created_at :: sqltext
  sr_updated_at :: sqltext

record wf_row =
  wf_run_id :: sqltext
  wf_workflow_id :: sqltext
  wf_name :: sqltext
  wf_task_queue :: sqltext
  wf_state :: sqltext
  wf_args_json :: sqltext
  wf_result_json :: "sqltext option"
  wf_execution_timeout_secs :: "i64 option"
  wf_run_timeout_secs :: "i64 option"
  wf_task_timeout_secs :: "i64 option"
  wf_started_at :: "sqltext option"
  wf_completed_at :: "sqltext option"
  wf_namespace :: sqltext

record step_row =
  st_id :: sqltext
  st_workflow_run_id :: sqltext
  st_step_index :: i64
  st_activity_name :: sqltext
  st_args_json :: sqltext
  st_retry_policy_json :: sqltext
  st_timeout_secs :: i64
  st_heartbeat_timeout_secs :: "i64 option"
  st_state :: sqltext
  st_attempt :: i64
  st_result_json :: "sqltext option"
  st_next_retry_at :: "sqltext option"
  st_created_at :: sqltext

record act_row =
  ac_id :: sqltext
  ac_step_id :: sqltext
  ac_attempt :: i64
  ac_state :: sqltext
  ac_started_at :: "sqltext option"
  ac_completed_at :: "sqltext option"
  ac_last_heartbeat_at :: "sqltext option"
  ac_result_json :: "sqltext option"
  ac_error_message :: "sqltext option"

record db =
  namespaces :: "ns_row list"
  schedules :: "sched_row list"
  workflows :: "wf_row list"
  workflow_steps :: "step_row list"
  activities :: "act_row list"

section \<open>Migration\<close>

text \<open>
  The database file: a table may be missing, in a new file all are. \<open>migrate\<close> executes a batch of
  \<open>CREATE TABLE IF NOT EXISTS\<close> statements, each of which is committed by itself; the indexes that follow do not change what the
  tables hold.
\<close>

record db_file =
  f_namespaces :: "ns_row list option"
  f_schedules :: "sched_row list option"
  f_workflows :: "wf_row list option"
  f_workflow_steps :: "step_row list option"
  f_activities :: "act_row list option"

definition no_tables :: db_file where
  "no_tables = \<lparr>f_namespaces = None, f_schedules = None, f_workflows = None, f_workflow_steps = None, f_activities = None\<rparr>"

definition create_if_not_exists :: "'r list option \<Rightarrow> 'r list option" where
  "create_if_not_exists t = (case t of None \<Rightarrow> Some [] | Some rows \<Rightarrow> Some rows)"

definition schema_batch :: "(db_file \<Rightarrow> db_file) list" where
  "schema_batch =
     [f_namespaces_update create_if_not_exists, f_schedules_update create_if_not_exists, f_workflows_update create_if_not_exists,
      f_workflow_steps_update create_if_not_exists, f_activities_update create_if_not_exists]"

definition migrate_file :: "db_file \<Rightarrow> db_file" where
  "migrate_file f = fold (\<lambda>statement. statement) schema_batch f"

text \<open>What the statements of the program see of a file that has all tables, and the file they leave.\<close>

definition tables :: "db_file \<Rightarrow> db" where
  "tables f = \<lparr>namespaces = case_option [] id (f_namespaces f), schedules = case_option [] id (f_schedules f),
     workflows = case_option [] id (f_workflows f), workflow_steps = case_option [] id (f_workflow_steps f),
     activities = case_option [] id (f_activities f)\<rparr>"

definition file_of :: "db \<Rightarrow> db_file" where
  "file_of d = \<lparr>f_namespaces = Some (namespaces d), f_schedules = Some (schedules d), f_workflows = Some (workflows d),
     f_workflow_steps = Some (workflow_steps d), f_activities = Some (activities d)\<rparr>"

text \<open>\<open>Database::new\<close> opens the file, or creates it, and migrates it.\<close>

definition database_new :: "db_file option \<Rightarrow> db" where
  "database_new file = tables (migrate_file (case file of None \<Rightarrow> no_tables | Some f \<Rightarrow> f))"

text \<open>The database that \<open>migrate\<close> makes of a new file.\<close>

definition migrate :: db where
  migrate_new: "migrate = database_new None"

lemmas migration_simps = database_new_def migrate_file_def schema_batch_def create_if_not_exists_def tables_def file_of_def no_tables_def

lemma migrate_def: "migrate = \<lparr>namespaces = [], schedules = [], workflows = [], workflow_steps = [], activities = []\<rparr>"
  by (simp add: migrate_new migration_simps)

lemma database_new_stored [simp]: "database_new (Some (file_of d)) = d"
  by (simp add: migration_simps)

text \<open>A batch that was cut off is completed by the next start, and loses nothing.\<close>

lemma migrate_resumes: "migrate_file (fold (\<lambda>statement. statement) (take k schema_batch) f) = migrate_file f"
proof -
  have "k = 0 \<or> k = 1 \<or> k = 2 \<or> k = 3 \<or> k = 4 \<or> 5 \<le> k" by linarith
  then show ?thesis
    by (elim disjE) (simp_all add: migrate_file_def schema_batch_def create_if_not_exists_def numeral_eq_Suc split: option.split)
qed

section \<open>CHECK constraints\<close>

definition sched_check :: "sched_row \<Rightarrow> bool" where
  "sched_check r \<longleftrightarrow> sr_spec_type r \<in> {''cron'', ''interval''} \<and>
     sr_overlap_policy r \<in> {''skip'', ''buffer'', ''terminate''}"

definition wf_check :: "wf_row \<Rightarrow> bool" where
  "wf_check r \<longleftrightarrow> wf_state r \<in> {''pending'', ''running'', ''completed'', ''failed'', ''cancelled''}"

definition step_check :: "step_row \<Rightarrow> bool" where
  "step_check r \<longleftrightarrow> st_state r \<in> {''pending'', ''running'', ''completed'', ''failed'', ''retried''}"

definition act_check :: "act_row \<Rightarrow> bool" where
  "act_check r \<longleftrightarrow> ac_state r \<in> {''pending'', ''running'', ''completed'', ''failed''}"

section \<open>Statements\<close>

definition sql_update ::
  "('r \<Rightarrow> bool) \<Rightarrow> ('r \<Rightarrow> bool) \<Rightarrow> ('r \<Rightarrow> 'r) \<Rightarrow> 'r list \<Rightarrow> sql_error + (nat \<times> 'r list)" where
  "sql_update chk P f rows =
     (if list_all (\<lambda>r. chk (f r)) (filter P rows)
      then Inr (count_where P rows, update_where P f rows)
      else Inl CheckConstraint)"

definition exec_update_workflows :: "(wf_row \<Rightarrow> bool) \<Rightarrow> (wf_row \<Rightarrow> wf_row) \<Rightarrow> (db, err, nat) exec" where
  "exec_update_workflows P f d =
     (case sql_update wf_check P f (workflows d) of
        Inl e \<Rightarrow> (Inl (SqlErr e), d)
      | Inr (n, rows) \<Rightarrow> (Inr n, d\<lparr>workflows := rows\<rparr>))"

definition exec_update_steps :: "(step_row \<Rightarrow> bool) \<Rightarrow> (step_row \<Rightarrow> step_row) \<Rightarrow> (db, err, nat) exec" where
  "exec_update_steps P f d =
     (case sql_update step_check P f (workflow_steps d) of
        Inl e \<Rightarrow> (Inl (SqlErr e), d)
      | Inr (n, rows) \<Rightarrow> (Inr n, d\<lparr>workflow_steps := rows\<rparr>))"

definition exec_update_activities :: "(act_row \<Rightarrow> bool) \<Rightarrow> (act_row \<Rightarrow> act_row) \<Rightarrow> (db, err, nat) exec" where
  "exec_update_activities P f d =
     (case sql_update act_check P f (activities d) of
        Inl e \<Rightarrow> (Inl (SqlErr e), d)
      | Inr (n, rows) \<Rightarrow> (Inr n, d\<lparr>activities := rows\<rparr>))"

definition exec_update_schedules :: "(sched_row \<Rightarrow> bool) \<Rightarrow> (sched_row \<Rightarrow> sched_row) \<Rightarrow> (db, err, nat) exec" where
  "exec_update_schedules P f d =
     (case sql_update sched_check P f (schedules d) of
        Inl e \<Rightarrow> (Inl (SqlErr e), d)
      | Inr (n, rows) \<Rightarrow> (Inr n, d\<lparr>schedules := rows\<rparr>))"

definition exec_delete_schedules :: "(sched_row \<Rightarrow> bool) \<Rightarrow> (db, err, nat) exec" where
  "exec_delete_schedules P d =
     (Inr (count_where P (schedules d)), d\<lparr>schedules := filter (\<lambda>r. \<not> P r) (schedules d)\<rparr>)"

definition exec_insert_schedule :: "sched_row \<Rightarrow> (db, err, unit) exec" where
  "exec_insert_schedule r d =
     (if \<not> sched_check r then (Inl (SqlErr CheckConstraint), d)
      else if sr_schedule_id r \<in> sr_schedule_id ` set (schedules d) then (Inl (SqlErr UniqueConstraint), d)
      else (Inr (), d\<lparr>schedules := schedules d @ [r]\<rparr>))"

definition exec_insert_workflow :: "wf_row \<Rightarrow> (db, err, unit) exec" where
  "exec_insert_workflow r d =
     (if \<not> wf_check r then (Inl (SqlErr CheckConstraint), d)
      else if wf_run_id r \<in> wf_run_id ` set (workflows d) then (Inl (SqlErr UniqueConstraint), d)
      else (Inr (), d\<lparr>workflows := workflows d @ [r]\<rparr>))"

definition exec_insert_step :: "step_row \<Rightarrow> (db, err, unit) exec" where
  "exec_insert_step r d =
     (if \<not> step_check r then (Inl (SqlErr CheckConstraint), d)
      else if st_id r \<in> st_id ` set (workflow_steps d) then (Inl (SqlErr UniqueConstraint), d)
      else if st_workflow_run_id r \<notin> wf_run_id ` set (workflows d) then (Inl (SqlErr ForeignKeyConstraint), d)
      else (Inr (), d\<lparr>workflow_steps := workflow_steps d @ [r]\<rparr>))"

definition exec_insert_activity :: "act_row \<Rightarrow> (db, err, unit) exec" where
  "exec_insert_activity r d =
     (if \<not> act_check r then (Inl (SqlErr CheckConstraint), d)
      else if ac_id r \<in> ac_id ` set (activities d) then (Inl (SqlErr UniqueConstraint), d)
      else if ac_step_id r \<notin> st_id ` set (workflow_steps d) then (Inl (SqlErr ForeignKeyConstraint), d)
      else (Inr (), d\<lparr>activities := activities d @ [r]\<rparr>))"

text \<open>\<open>conn.query_row\<close>: the first row of the result, or \<open>QueryReturnedNoRows\<close>.\<close>

definition query_row :: "('d \<Rightarrow> 'r list) \<Rightarrow> ('r \<Rightarrow> bool) \<Rightarrow> ('r \<Rightarrow> 'a) \<Rightarrow> ('d, err, 'a) exec" where
  "query_row tab P get d =
     (case find P (tab d) of None \<Rightarrow> (Inl (SqlErr QueryReturnedNoRows), d) | Some r \<Rightarrow> (Inr (get r), d))"

section \<open>The schema invariant\<close>

definition schema_ok :: "db \<Rightarrow> bool" where
  "schema_ok d \<longleftrightarrow>
     distinct (map sr_schedule_id (schedules d)) \<and> list_all sched_check (schedules d) \<and>
     distinct (map wf_run_id (workflows d)) \<and> list_all wf_check (workflows d) \<and>
     distinct (map st_id (workflow_steps d)) \<and> list_all step_check (workflow_steps d) \<and>
     list_all (\<lambda>r. st_workflow_run_id r \<in> wf_run_id ` set (workflows d)) (workflow_steps d) \<and>
     distinct (map ac_id (activities d)) \<and> list_all act_check (activities d) \<and>
     list_all (\<lambda>r. ac_step_id r \<in> st_id ` set (workflow_steps d)) (activities d)"

lemma schema_ok_migrate: "schema_ok migrate"
  by (simp add: schema_ok_def migrate_def)

lemma list_all_update_where:
  "list_all Q rows \<Longrightarrow> list_all (\<lambda>r. Q (f r)) (filter P rows) \<Longrightarrow> list_all Q (update_where P f rows)"
  by (induction rows) auto

lemma list_all_update_where_same:
  "(\<And>r. Q (f r) = Q r) \<Longrightarrow> list_all Q (update_where P f rows) = list_all Q rows"
  by (induction rows) auto

lemma image_update_where: "(\<And>r. key (f r) = key r) \<Longrightarrow> key ` set (update_where P f rows) = key ` set rows"
  by (induction rows) auto

lemma sql_update_Inr:
  "sql_update chk P f rows = Inr (n, rows') \<Longrightarrow>
     list_all (\<lambda>r. chk (f r)) (filter P rows) \<and> n = count_where P rows \<and> rows' = update_where P f rows"
  by (auto simp: sql_update_def split: if_splits)

lemma sql_update_ok:
  "(\<And>r. chk (f r)) \<Longrightarrow> sql_update chk P f rows = Inr (count_where P rows, update_where P f rows)"
  by (simp add: sql_update_def list_all_iff)

text \<open>Every statement keeps the schema invariant, if it keeps the keys of the rows it updates.\<close>

lemma keeps_schema_update_workflows [inv_rules]:
  assumes "\<And>r. wf_run_id (f r) = wf_run_id r"
  shows "keeps schema_ok (exec_update_workflows P f)"
proof (rule keepsI)
  fix d assume "schema_ok d"
  then show "schema_ok (snd (exec_update_workflows P f d))"
    by (auto simp: exec_update_workflows_def schema_ok_def map_update_where assms image_update_where
        list_all_update_where split: sum.splits dest!: sql_update_Inr)
qed

lemma keeps_schema_update_steps [inv_rules]:
  assumes "\<And>r. st_id (f r) = st_id r" "\<And>r. st_workflow_run_id (f r) = st_workflow_run_id r"
  shows "keeps schema_ok (exec_update_steps P f)"
proof (rule keepsI)
  fix d assume "schema_ok d"
  then show "schema_ok (snd (exec_update_steps P f d))"
    by (auto simp: exec_update_steps_def schema_ok_def map_update_where assms image_update_where
        list_all_update_where list_all_update_where_same split: sum.splits dest!: sql_update_Inr)
qed

lemma keeps_schema_update_activities [inv_rules]:
  assumes "\<And>r. ac_id (f r) = ac_id r" "\<And>r. ac_step_id (f r) = ac_step_id r"
  shows "keeps schema_ok (exec_update_activities P f)"
proof (rule keepsI)
  fix d assume "schema_ok d"
  then show "schema_ok (snd (exec_update_activities P f d))"
    by (auto simp: exec_update_activities_def schema_ok_def map_update_where assms
        list_all_update_where list_all_update_where_same split: sum.splits dest!: sql_update_Inr)
qed

lemma keeps_schema_update_schedules [inv_rules]:
  assumes "\<And>r. sr_schedule_id (f r) = sr_schedule_id r"
  shows "keeps schema_ok (exec_update_schedules P f)"
proof (rule keepsI)
  fix d assume "schema_ok d"
  then show "schema_ok (snd (exec_update_schedules P f d))"
    by (auto simp: exec_update_schedules_def schema_ok_def map_update_where assms
        list_all_update_where split: sum.splits dest!: sql_update_Inr)
qed

lemma keeps_schema_delete_schedules [inv_rules]: "keeps schema_ok (exec_delete_schedules P)"
  by (rule keepsI) (auto simp: exec_delete_schedules_def schema_ok_def distinct_map_filter list_all_iff)

lemma keeps_schema_insert_schedule [inv_rules]: "keeps schema_ok (exec_insert_schedule r)"
  by (rule keepsI) (auto simp: exec_insert_schedule_def schema_ok_def)

lemma keeps_schema_insert_workflow [inv_rules]: "keeps schema_ok (exec_insert_workflow r)"
  by (rule keepsI) (auto simp: exec_insert_workflow_def schema_ok_def list_all_iff)

lemma keeps_schema_insert_step [inv_rules]: "keeps schema_ok (exec_insert_step r)"
  by (rule keepsI) (auto simp: exec_insert_step_def schema_ok_def list_all_iff)

lemma keeps_schema_insert_activity [inv_rules]: "keeps schema_ok (exec_insert_activity r)"
  by (rule keepsI) (auto simp: exec_insert_activity_def schema_ok_def list_all_iff)

lemma keeps_query_row [inv_rules]: "keeps I (query_row tab P get)"
  by (rule keepsI) (simp add: query_row_def split: option.split)

section \<open>Sample rows\<close>

text \<open>Rows and a clock for concrete inputs; the properties are stated for all rows.\<close>

definition sample_clock :: clock where
  "sample_clock = \<lparr>utc_now = 1000 * nanos_per_sec, sql_now = ''000000001000''\<rparr>"

definition sample_workflow :: "sqltext \<Rightarrow> sqltext \<Rightarrow> sqltext \<Rightarrow> wf_row" where
  "sample_workflow run_id workflow_id state = \<lparr>
     wf_run_id = run_id, wf_workflow_id = workflow_id, wf_name = ''job'', wf_task_queue = ''default'',
     wf_state = state, wf_args_json = ''{}'', wf_result_json = None, wf_execution_timeout_secs = None,
     wf_run_timeout_secs = None, wf_task_timeout_secs = None, wf_started_at = None, wf_completed_at = None,
     wf_namespace = ''default''\<rparr>"

definition sample_step :: "sqltext \<Rightarrow> sqltext \<Rightarrow> i64 \<Rightarrow> sqltext \<Rightarrow> i64 \<Rightarrow> step_row" where
  "sample_step step_id run_id index state attempt = \<lparr>
     st_id = step_id, st_workflow_run_id = run_id, st_step_index = index, st_activity_name = ''job'',
     st_args_json = ''{}'', st_retry_policy_json = ''0000000003'', st_timeout_secs = 300,
     st_heartbeat_timeout_secs = Some 60, st_state = state, st_attempt = attempt, st_result_json = None,
     st_next_retry_at = None, st_created_at = ''000000000900''\<rparr>"

definition sample_activity :: "sqltext \<Rightarrow> sqltext \<Rightarrow> i64 \<Rightarrow> sqltext \<Rightarrow> act_row" where
  "sample_activity aid step_id attempt state = \<lparr>
     ac_id = aid, ac_step_id = step_id, ac_attempt = attempt, ac_state = state,
     ac_started_at = Some ''000000000950'', ac_completed_at = None, ac_last_heartbeat_at = None,
     ac_result_json = None, ac_error_message = None\<rparr>"

definition sample_schedule :: "sqltext \<Rightarrow> sqltext \<Rightarrow> sqltext option \<Rightarrow> i64 option \<Rightarrow> sqltext \<Rightarrow> sched_row" where
  "sample_schedule sid spec_type crons interval policy = \<lparr>
     sr_schedule_id = sid, sr_namespace = ''default'', sr_spec_type = spec_type, sr_cron_expressions = crons,
     sr_interval_seconds = interval, sr_overlap_policy = policy, sr_action_workflow_name = ''job'',
     sr_action_task_queue = ''default'', sr_action_args_json = ''{}'', sr_action_id = Some [],
     sr_timeouts_json = ''{}'', sr_created_at = ''000000000900'', sr_updated_at = ''000000000900''\<rparr>"

definition sample_db :: "sched_row list \<Rightarrow> wf_row list \<Rightarrow> step_row list \<Rightarrow> act_row list \<Rightarrow> db" where
  "sample_db scheds wfs steps acts =
     \<lparr>namespaces = [], schedules = scheds, workflows = wfs, workflow_steps = steps, activities = acts\<rparr>"

lemmas sample_defs = sample_clock_def sample_workflow_def sample_step_def sample_activity_def
  sample_schedule_def sample_db_def

end
