(* ===== verification/Codec.thy ===== *)
theory Codec
  imports Schema
begin

text \<open>
  The contract between a struct and its row: what a component stores it can read back. The
  encoder is the \<open>params!\<close> list of an INSERT, the decoder the \<open>row_to_*\<close> function of the same
  file, \<open>norm\<close> what is lost on the way (fractions of a second, the bound of a buffer), \<open>good\<close>
  what the external libraries have to do on the value.
\<close>

locale row_codec =
  fixes enc :: "'a \<Rightarrow> 'r" and dec :: "'r \<Rightarrow> 'e + 'a" and norm :: "'a \<Rightarrow> 'a" and good :: "'a \<Rightarrow> bool"
  assumes decode_encode: "good x \<Longrightarrow> dec (enc x) = Inr (norm x)"
begin

lemma decode_all: "list_all good xs \<Longrightarrow> mapM_sum dec (map enc xs) = Inr (map norm xs)"
  by (induction xs) (simp_all add: decode_encode)

lemma encode_injective: "good x \<Longrightarrow> good y \<Longrightarrow> enc x = enc y \<Longrightarrow> norm x = norm y"
  using decode_encode [of x] decode_encode [of y] by simp

end

text \<open>A text form that loses nothing: the state columns.\<close>

locale text_codec = row_codec enc dec id "\<lambda>_. True"
  for enc :: "'a \<Rightarrow> string" and dec :: "string \<Rightarrow> 'e + 'a" +
  assumes decode_only: "dec s = Inr x \<Longrightarrow> s = enc x"
begin

lemma decode_iff: "dec s = Inr x \<longleftrightarrow> s = enc x"
  using decode_only decode_encode by auto

lemma encode_eq_iff: "enc x = enc y \<longleftrightarrow> x = y"
  using encode_injective by auto

end

text \<open>The parsing loops of the four \<open>parse_datetime\<close> functions: the first format that fits.\<close>

fun first_format :: "(string \<Rightarrow> time option) \<Rightarrow> string list \<Rightarrow> time option" where
  "first_format p [] = None"
| "first_format p (f # fs) = (case p f of Some t \<Rightarrow> Some t | None \<Rightarrow> first_format p fs)"

lemma first_format_None: "first_format p fs = None \<longleftrightarrow> (\<forall>f \<in> set fs. p f = None)"
  by (induction fs) (auto split: option.splits)

text \<open>\<open>format_datetime\<close> of \<open>workflows.rs\<close> and \<open>activities.rs\<close>.\<close>

definition format_datetime :: "ext \<Rightarrow> time option \<Rightarrow> sqltext option" where
  "format_datetime X dt = map_option (fmt_time X) dt"

text \<open>
  What chrono and SQLite agree on: a time formatted by \<open>format_datetime\<close> is read back, up to
  the fraction of a second, by the first naive format of the \<open>parse_datetime\<close> functions.
\<close>

definition time_text_ok :: "ext \<Rightarrow> time \<Rightarrow> bool" where
  "time_text_ok X t \<longleftrightarrow>
     parse_naive X (fmt_time X t) (date_fmt @ ''%.f'') = Some (trunc_secs t)"

text \<open>A JSON value that serde_json prints and reads back unchanged.\<close>

definition json_text_ok :: "ext \<Rightarrow> json \<Rightarrow> bool" where
  "json_text_ok X v \<longleftrightarrow> json_from_str X (json_to_string X v) = Some v"

definition json_read :: "ext \<Rightarrow> string \<Rightarrow> err + json" where
  "json_read X s = option_to_sum SerdeErr (json_from_str X s)"

lemma json_read_to_string [simp]: "json_text_ok X v \<Longrightarrow> json_read X (json_to_string X v) = Inr v"
  by (simp add: json_read_def json_text_ok_def)

lemma transpose_json [simp]:
  "pred_option (json_text_ok X) v \<Longrightarrow>
   transpose_opt (json_read X) (map_option (json_to_string X) v) = Inr v"
  by (cases v) simp_all

end
