(* ===== verification/Db_Workflows.thy ===== *)
theory Db_Workflows
  imports Codec
begin

text \<open>
  \<open>db/src/workflows.rs\<close>: inserting, updating, reading, listing and cancelling workflow runs.
\<close>

definition workflow_state_to_str :: "WorkflowState \<Rightarrow> sqltext" where
  "workflow_state_to_str st =
     (case st of Pending \<Rightarrow> ''pending'' | Running \<Rightarrow> ''running'' | Completed \<Rightarrow> ''completed''
      | Failed \<Rightarrow> ''failed'' | Cancelled \<Rightarrow> ''cancelled'')"

definition str_to_workflow_state :: "sqltext \<Rightarrow> err + WorkflowState" where
  "str_to_workflow_state s =
     (if s = ''pending'' then Inr Pending
      else if s = ''running'' then Inr Running
      else if s = ''completed'' then Inr Completed
      else if s = ''failed'' then Inr Failed
      else if s = ''cancelled'' then Inr Cancelled
      else Inl (Message (''Unknown workflow state: '' @ s)))"

definition parse_datetime :: "ext \<Rightarrow> sqltext \<Rightarrow> err + time" where
  "parse_datetime X s =
     (case first_format (parse_naive X s)
         [''%Y-%m-%d %H:%M:%S%.f'', ''%Y-%m-%d %H:%M:%S'', ''%Y-%m-%dT%H:%M:%S%.f'', ''%Y-%m-%dT%H:%M:%S''] of
        Some t \<Rightarrow> Inr t
      | None \<Rightarrow>
          (case first_format (parse_tz X s) [''%Y-%m-%dT%H:%M:%S%.fZ'', ''%Y-%m-%dT%H:%M:%SZ''] of
             Some t \<Rightarrow> Inr t
           | None \<Rightarrow> Inl (Message (''Failed to parse datetime: '' @ s))))"

definition workflow_to_row :: "ext \<Rightarrow> WorkflowInstance \<Rightarrow> wf_row" where
  "workflow_to_row X inst = \<lparr>
     wf_run_id = wi_run_id inst,
     wf_workflow_id = wi_workflow_id inst,
     wf_name = wi_name inst,
     wf_task_queue = wi_task_queue inst,
     wf_state = workflow_state_to_str (wi_state inst),
     wf_args_json = json_to_string X (wi_args_json inst),
     wf_result_json = map_option (json_to_string X) (wi_result_json inst),
     wf_execution_timeout_secs = map_option u64_as_i64 (execution_timeout_secs (wi_timeouts inst)),
     wf_run_timeout_secs = map_option u64_as_i64 (run_timeout_secs (wi_timeouts inst)),
     wf_task_timeout_secs = map_option u64_as_i64 (task_timeout_secs (wi_timeouts inst)),
     wf_started_at = format_datetime X (wi_started_at inst),
     wf_completed_at = format_datetime X (wi_completed_at inst),
     wf_namespace = wi_namespace inst\<rparr>"

definition insert_workflow :: "ext \<Rightarrow> WorkflowInstance \<Rightarrow> (db, err, unit) exec" where
  "insert_workflow X inst = exec_insert_workflow (workflow_to_row X inst)"

definition update_workflow_state ::
  "ext \<Rightarrow> sqltext \<Rightarrow> WorkflowState \<Rightarrow> json option \<Rightarrow> time option \<Rightarrow> (db, err, unit) exec" where
  "update_workflow_state X run_id new_state result_json completed_at =
     andThen (exec_update_workflows (\<lambda>r. wf_run_id r = run_id)
                (\<lambda>r. r\<lparr>wf_state := workflow_state_to_str new_state,
                       wf_result_json := map_option (json_to_string X) result_json,
                       wf_completed_at := format_datetime X completed_at\<rparr>))
       (\<lambda>_. okE ())"

definition row_to_workflow :: "ext \<Rightarrow> wf_row \<Rightarrow> err + WorkflowInstance" where
  "row_to_workflow X row =
     bindS (option_to_sum (Message ''Invalid run_id UUID'') (uuid_parse X (wf_run_id row))) (\<lambda>run_id.
     bindS (str_to_workflow_state (wf_state row)) (\<lambda>state.
     bindS (json_read X (wf_args_json row)) (\<lambda>args.
     bindS (transpose_opt (json_read X) (wf_result_json row)) (\<lambda>result.
     bindS (transpose_opt (parse_datetime X) (wf_started_at row)) (\<lambda>started.
     bindS (transpose_opt (parse_datetime X) (wf_completed_at row)) (\<lambda>completed.
     Inr \<lparr>wi_run_id = run_id,
          wi_workflow_id = wf_workflow_id row,
          wi_name = wf_name row,
          wi_task_queue = wf_task_queue row,
          wi_state = state,
          wi_args_json = args,
          wi_result_json = result,
          wi_timeouts = \<lparr>
            execution_timeout_secs = map_option i64_as_u64 (wf_execution_timeout_secs row),
            run_timeout_secs = map_option i64_as_u64 (wf_run_timeout_secs row),
            task_timeout_secs = map_option i64_as_u64 (wf_task_timeout_secs row)\<rparr>,
          wi_started_at = started,
          wi_completed_at = completed,
          wi_namespace = wf_namespace row\<rparr>))))))"

definition get_workflow :: "ext \<Rightarrow> sqltext \<Rightarrow> (db, err, WorkflowInstance option) exec" where
  "get_workflow X run_id d =
     (case find (\<lambda>r. wf_run_id r = run_id) (workflows d) of
        Some row \<Rightarrow> (case row_to_workflow X row of Inl e \<Rightarrow> (Inl e, d) | Inr inst \<Rightarrow> (Inr (Some inst), d))
      | None \<Rightarrow> (Inr None, d))"

definition list_workflows ::
  "ext \<Rightarrow> sqltext \<Rightarrow> WorkflowState option \<Rightarrow> (db, err, WorkflowInstance list) exec" where
  "list_workflows X namespace state_filter =
     readE (\<lambda>d. mapM_sum (row_to_workflow X)
       (order_by_desc (\<lambda>r. null_first (wf_started_at r))
         (filter (\<lambda>r. wf_namespace r = namespace \<and>
              (case state_filter of None \<Rightarrow> True | Some st \<Rightarrow> wf_state r = workflow_state_to_str st))
           (workflows d))))"

definition cancel_workflow :: "clock \<Rightarrow> sqltext \<Rightarrow> (db, err, unit) exec" where
  "cancel_workflow clk run_id =
     andThen (exec_update_workflows
                (\<lambda>r. wf_run_id r = run_id \<and> wf_state r \<in> {''pending'', ''running''})
                (\<lambda>r. r\<lparr>wf_state := ''cancelled'', wf_completed_at := Some (sql_now clk)\<rparr>))
       (\<lambda>rows. if rows = 0 then errE (Message ''Workflow not found or already in terminal state'')
               else okE ())"

section \<open>States as text\<close>

interpretation wf_state: text_codec workflow_state_to_str str_to_workflow_state
proof unfold_locales
  fix x :: WorkflowState
  show "str_to_workflow_state (workflow_state_to_str x) = Inr (id x)"
    by (cases x) (simp_all add: workflow_state_to_str_def str_to_workflow_state_def)
next
  fix s x
  assume "str_to_workflow_state s = Inr x"
  then show "s = workflow_state_to_str x"
    by (auto simp: str_to_workflow_state_def workflow_state_to_str_def split: if_splits)
qed

lemma wf_check_state_to_str [simp]: "wf_check (r\<lparr>wf_state := workflow_state_to_str st\<rparr>)"
  by (cases st) (simp_all add: wf_check_def workflow_state_to_str_def)

section \<open>Rows and instances\<close>

text \<open>What the round trip needs of the libraries, at one workflow.\<close>

definition workflow_text_ok :: "ext \<Rightarrow> WorkflowInstance \<Rightarrow> bool" where
  "workflow_text_ok X inst \<longleftrightarrow>
     uuid_parse X (wi_run_id inst) = Some (wi_run_id inst) \<and>
     json_text_ok X (wi_args_json inst) \<and> pred_option (json_text_ok X) (wi_result_json inst) \<and>
     pred_option (time_text_ok X) (wi_started_at inst) \<and> pred_option (time_text_ok X) (wi_completed_at inst)"

definition workflow_to_secs :: "WorkflowInstance \<Rightarrow> WorkflowInstance" where
  "workflow_to_secs inst = inst\<lparr>wi_started_at := map_option trunc_secs (wi_started_at inst),
                            wi_completed_at := map_option trunc_secs (wi_completed_at inst)\<rparr>"

lemma parse_datetime_fmt: "time_text_ok X t \<Longrightarrow> parse_datetime X (fmt_time X t) = Inr (trunc_secs t)"
  by (simp add: parse_datetime_def time_text_ok_def date_fmt_def)

lemma transpose_parse_datetime [simp]:
  "pred_option (time_text_ok X) v \<Longrightarrow>
   transpose_opt (parse_datetime X) (format_datetime X v) = Inr (map_option trunc_secs v)"
  by (cases v) (simp_all add: format_datetime_def parse_datetime_fmt)

interpretation wf_codec: row_codec "workflow_to_row X" "row_to_workflow X" workflow_to_secs "workflow_text_ok X"
  for X
  by unfold_locales
    (simp add: row_to_workflow_def workflow_to_row_def workflow_text_ok_def workflow_to_secs_def
      wf_state.decode_encode [simplified])

section \<open>Effects of the statements\<close>

lemma update_workflow_state_eq:
  "update_workflow_state X run_id st res compl d =
     (Inr (), d\<lparr>workflows := update_where (\<lambda>r. wf_run_id r = run_id)
        (\<lambda>r. r\<lparr>wf_state := workflow_state_to_str st, wf_result_json := map_option (json_to_string X) res,
               wf_completed_at := format_datetime X compl\<rparr>) (workflows d)\<rparr>)"
proof -
  have "wf_check (r\<lparr>wf_state := workflow_state_to_str st, wf_result_json := map_option (json_to_string X) res,
               wf_completed_at := format_datetime X compl\<rparr>)" for r
    using wf_check_state_to_str [of st r] by (simp add: wf_check_def)
  then show ?thesis
    by (simp add: update_workflow_state_def exec_update_workflows_def sql_update_ok exec_simps)
qed

lemma cancel_workflow_eq:
  "cancel_workflow clk run_id d =
     (if \<exists>r \<in> set (workflows d). wf_run_id r = run_id \<and> wf_state r \<in> {''pending'', ''running''}
      then (Inr (), d\<lparr>workflows := update_where (\<lambda>r. wf_run_id r = run_id \<and> wf_state r \<in> {''pending'', ''running''})
              (\<lambda>r. r\<lparr>wf_state := ''cancelled'', wf_completed_at := Some (sql_now clk)\<rparr>) (workflows d)\<rparr>)
      else (Inl (Message ''Workflow not found or already in terminal state''), d))"
  (is "_ = (if ?ex then _ else _)")
proof -
  let ?P = "\<lambda>r. wf_run_id r = run_id \<and> wf_state r \<in> {''pending'', ''running''}"
  let ?f = "\<lambda>r. r\<lparr>wf_state := ''cancelled'', wf_completed_at := Some (sql_now clk)\<rparr>"
  have upd: "sql_update wf_check ?P ?f (workflows d) = Inr (count_where ?P (workflows d), update_where ?P ?f (workflows d))"
    by (rule sql_update_ok) (simp add: wf_check_def)
  show ?thesis
  proof (cases ?ex)
    case True
    then have "count_where ?P (workflows d) \<noteq> 0"
      using count_where_pos [of ?P "workflows d"] by simp
    with True upd show ?thesis
      by (simp add: cancel_workflow_def exec_update_workflows_def exec_simps)
  next
    case False
    then have "count_where ?P (workflows d) = 0" and "update_where ?P ?f (workflows d) = workflows d"
      by (auto simp: count_where_def filter_empty_conv intro!: update_where_noop)
    with False upd show ?thesis
      by (simp add: cancel_workflow_def exec_update_workflows_def exec_simps)
  qed
qed

lemma keeps_insert_workflow [inv_rules]: "keeps schema_ok (insert_workflow X inst)"
  unfolding insert_workflow_def by (intro inv_rules)

lemma keeps_update_workflow_state [inv_rules]: "keeps schema_ok (update_workflow_state X run_id st res compl)"
  unfolding update_workflow_state_def by (intro inv_rules) simp

lemma keeps_cancel_workflow [inv_rules]: "keeps schema_ok (cancel_workflow clk run_id)"
  unfolding cancel_workflow_def by (intro inv_rules) simp

lemma keeps_get_workflow [inv_rules]: "keeps I (get_workflow X run_id)"
  by (rule keepsI) (simp add: get_workflow_def split: option.split sum.split)

lemma keeps_list_workflows [inv_rules]: "keeps I (list_workflows X ns st)"
  unfolding list_workflows_def by (intro inv_rules)

end
