(* ===== verification/Db_Activities.thy ===== *)
theory Db_Activities
  imports Codec
begin

text \<open>
  \<open>db/src/activities.rs\<close>: workflow steps and activity attempts. The file has its own copies of
  \<open>workflow_state_to_str\<close>, \<open>str_to_workflow_state\<close> and \<open>parse_datetime\<close>; the last tries the
  formats in another order than the one of \<open>workflows.rs\<close>.
\<close>

definition step_state_to_str :: "WorkflowState \<Rightarrow> sqltext" where
  "step_state_to_str st =
     (case st of Pending \<Rightarrow> ''pending'' | Running \<Rightarrow> ''running'' | Completed \<Rightarrow> ''completed''
      | Failed \<Rightarrow> ''failed'' | Cancelled \<Rightarrow> ''cancelled'')"

definition str_to_step_state :: "sqltext \<Rightarrow> err + WorkflowState" where
  "str_to_step_state s =
     (if s = ''pending'' then Inr Pending
      else if s = ''running'' then Inr Running
      else if s = ''completed'' then Inr Completed
      else if s = ''failed'' then Inr Failed
      else if s = ''cancelled'' then Inr Cancelled
      else Inl (Message (''Unknown workflow state: '' @ s)))"

definition activity_state_to_str :: "ActivityState \<Rightarrow> sqltext" where
  "activity_state_to_str st =
     (case st of Activity_Pending \<Rightarrow> ''pending'' | Activity_Running \<Rightarrow> ''running''
      | Activity_Completed \<Rightarrow> ''completed'' | Activity_Failed \<Rightarrow> ''failed''
      | Activity_Retried \<Rightarrow> ''retried'')"

definition offset_formats :: "string list" where
  [simp]: "offset_formats = [''%Y-%m-%d %H:%M:%S'', ''%Y-%m-%dT%H:%M:%S%.fZ'', ''%Y-%m-%dT%H:%M:%SZ'', ''%Y-%m-%dT%H:%M:%S'']"

definition parse_step_datetime :: "ext \<Rightarrow> sqltext \<Rightarrow> err + time" where
  "parse_step_datetime X s =
     (case first_format (parse_tz X s) offset_formats of
        Some t \<Rightarrow> Inr t
      | None \<Rightarrow>
          (case first_format (parse_naive X s) [''%Y-%m-%d %H:%M:%S%.f'', ''%Y-%m-%dT%H:%M:%S%.f''] of
             Some t \<Rightarrow> Inr t
           | None \<Rightarrow> Inl (Message (''Failed to parse datetime: '' @ s))))"

definition step_to_row :: "ext \<Rightarrow> clock \<Rightarrow> WorkflowStepInstance \<Rightarrow> step_row" where
  "step_to_row X clk s = \<lparr>
     st_id = si_id s,
     st_workflow_run_id = si_workflow_run_id s,
     st_step_index = u64_as_i64 (si_step_index s),
     st_activity_name = si_activity_name s,
     st_args_json = json_to_string X (si_args_json s),
     st_retry_policy_json = retry_to_string X (si_retry_policy s),
     st_timeout_secs = u64_as_i64 (si_timeout_secs s),
     st_heartbeat_timeout_secs = map_option u64_as_i64 (si_heartbeat_timeout_secs s),
     st_state = step_state_to_str (si_state s),
     st_attempt = u32_as_i64 (si_attempt s),
     st_result_json = map_option (json_to_string X) (si_result_json s),
     st_next_retry_at = format_datetime X (si_next_retry_at s),
     st_created_at = sql_now clk\<rparr>"

definition insert_workflow_step :: "ext \<Rightarrow> clock \<Rightarrow> WorkflowStepInstance \<Rightarrow> (db, err, unit) exec" where
  "insert_workflow_step X clk s = exec_insert_step (step_to_row X clk s)"

definition update_step_state ::
  "ext \<Rightarrow> sqltext \<Rightarrow> WorkflowState \<Rightarrow> u32 option \<Rightarrow> json option \<Rightarrow> time option \<Rightarrow> (db, err, unit) exec" where
  "update_step_state X step_id new_state attempt result_json next_retry_at =
     andThen (exec_update_steps (\<lambda>r. st_id r = step_id)
                (\<lambda>r. r\<lparr>st_state := step_state_to_str new_state,
                       st_attempt := (case attempt of None \<Rightarrow> st_attempt r | Some a \<Rightarrow> u32_as_i64 a),
                       st_result_json := map_option (json_to_string X) result_json,
                       st_next_retry_at := format_datetime X next_retry_at\<rparr>))
       (\<lambda>_. okE ())"

definition row_to_step :: "ext \<Rightarrow> step_row \<Rightarrow> err + WorkflowStepInstance" where
  "row_to_step X row =
     bindS (option_to_sum (Message ''Invalid step ID UUID'') (uuid_parse X (st_id row))) (\<lambda>sid.
     bindS (option_to_sum (Message ''Invalid workflow_run_id UUID'') (uuid_parse X (st_workflow_run_id row))) (\<lambda>run_id.
     bindS (str_to_step_state (st_state row)) (\<lambda>state.
     bindS (json_read X (st_args_json row)) (\<lambda>args.
     bindS (option_to_sum SerdeErr (retry_from_str X (st_retry_policy_json row))) (\<lambda>retry.
     bindS (transpose_opt (json_read X) (st_result_json row)) (\<lambda>result.
     bindS (transpose_opt (parse_step_datetime X) (st_next_retry_at row)) (\<lambda>next_retry.
     Inr \<lparr>si_id = sid,
          si_workflow_run_id = run_id,
          si_step_index = i64_as_u64 (st_step_index row),
          si_activity_name = st_activity_name row,
          si_args_json = args,
          si_retry_policy = retry,
          si_timeout_secs = i64_as_u64 (st_timeout_secs row),
          si_heartbeat_timeout_secs = map_option i64_as_u64 (st_heartbeat_timeout_secs row),
          si_state = state,
          si_attempt = i64_as_u32 (st_attempt row),
          si_result_json = result,
          si_next_retry_at = next_retry\<rparr>)))))))"

text \<open>The \<open>WHERE\<close> clause of \<open>get_pending_steps\<close>; a comparison with \<open>NULL\<close> selects nothing.\<close>

definition step_ready :: "clock \<Rightarrow> step_row \<Rightarrow> bool" where
  "step_ready clk r \<longleftrightarrow>
     (st_state r = ''pending'' \<and> st_next_retry_at r = None) \<or>
     (st_state r \<in> {''pending'', ''retried''} \<and>
      (case st_next_retry_at r of None \<Rightarrow> False | Some t \<Rightarrow> t \<le> sql_now clk))"

definition get_pending_steps :: "ext \<Rightarrow> clock \<Rightarrow> (db, err, WorkflowStepInstance list) exec" where
  "get_pending_steps X clk =
     readE (\<lambda>d. mapM_sum (row_to_step X)
       (order_by_asc st_created_at (filter (step_ready clk) (workflow_steps d))))"

definition get_next_step_for_workflow :: "ext \<Rightarrow> sqltext \<Rightarrow> (db, err, WorkflowStepInstance option) exec" where
  "get_next_step_for_workflow X run_id =
     readE (\<lambda>d.
       case order_by_asc st_step_index
              (filter (\<lambda>r. st_workflow_run_id r = run_id \<and> st_state r \<in> {''pending'', ''retried''})
                (workflow_steps d)) of
         [] \<Rightarrow> Inr None
       | row # _ \<Rightarrow> bindS (row_to_step X row) (\<lambda>s. Inr (Some s)))"

definition insert_activity_attempt :: "clock \<Rightarrow> sqltext \<Rightarrow> sqltext \<Rightarrow> u32 \<Rightarrow> (db, err, unit) exec" where
  "insert_activity_attempt clk aid step_id attempt =
     exec_insert_activity \<lparr>
       ac_id = aid, ac_step_id = step_id, ac_attempt = u32_as_i64 attempt, ac_state = ''running'',
       ac_started_at = Some (sql_now clk), ac_completed_at = None, ac_last_heartbeat_at = None,
       ac_result_json = None, ac_error_message = None\<rparr>"

definition update_activity_state ::
  "ext \<Rightarrow> clock \<Rightarrow> sqltext \<Rightarrow> ActivityState \<Rightarrow> json option \<Rightarrow> string option \<Rightarrow> (db, err, unit) exec" where
  "update_activity_state X clk aid new_state result_json error_message =
     andThen (exec_update_activities (\<lambda>r. ac_id r = aid)
                (\<lambda>r. r\<lparr>ac_state := activity_state_to_str new_state,
                       ac_completed_at := Some (sql_now clk),
                       ac_result_json := map_option (json_to_string X) result_json,
                       ac_error_message := error_message\<rparr>))
       (\<lambda>_. okE ())"

definition heartbeat_update :: "clock \<Rightarrow> sqltext \<Rightarrow> (db, err, unit) exec" where
  "heartbeat_update clk aid =
     andThen (exec_update_activities (\<lambda>r. ac_id r = aid \<and> ac_state r = ''running'')
                (\<lambda>r. r\<lparr>ac_last_heartbeat_at := Some (sql_now clk)\<rparr>))
       (\<lambda>rows. if rows = 0 then errE (Message ''Activity not found or not in running state'')
               else okE ())"

record RunningActivity =
  ra_id :: sqltext
  ra_step_id :: sqltext
  ra_attempt :: u32
  ra_started_at_str :: "sqltext option"
  ra_last_heartbeat_at_str :: "sqltext option"
  ra_workflow_run_id :: sqltext
  ra_activity_name :: sqltext
  ra_heartbeat_timeout_secs :: "u64 option"

definition running_activity :: "act_row \<Rightarrow> step_row \<Rightarrow> RunningActivity" where
  "running_activity a ws = \<lparr>
     ra_id = ac_id a, ra_step_id = ac_step_id a, ra_attempt = i64_as_u32 (ac_attempt a),
     ra_started_at_str = ac_started_at a, ra_last_heartbeat_at_str = ac_last_heartbeat_at a,
     ra_workflow_run_id = st_workflow_run_id ws, ra_activity_name = st_activity_name ws,
     ra_heartbeat_timeout_secs = map_option i64_as_u64 (st_heartbeat_timeout_secs ws)\<rparr>"

definition join_activities :: "db \<Rightarrow> (act_row \<times> step_row) list" where
  "join_activities d =
     concat (map (\<lambda>a. map (Pair a) (filter (\<lambda>ws. ac_step_id a = st_id ws) (workflow_steps d))) (activities d))"

definition get_running_activities :: "(db, err, RunningActivity list) exec" where
  "get_running_activities =
     readE (\<lambda>d. Inr (map (\<lambda>(a, ws). running_activity a ws)
                       (filter (\<lambda>(a, ws). ac_state a = ''running'') (join_activities d))))"

section \<open>Rows and instances\<close>

interpretation step_state: text_codec step_state_to_str str_to_step_state
proof unfold_locales
  fix x :: WorkflowState
  show "str_to_step_state (step_state_to_str x) = Inr (id x)"
    by (cases x) (simp_all add: step_state_to_str_def str_to_step_state_def)
next
  fix s x
  assume "str_to_step_state s = Inr x"
  then show "s = step_state_to_str x"
    by (auto simp: str_to_step_state_def step_state_to_str_def split: if_splits)
qed

text \<open>
  What the round trip of a step needs of the libraries. The formats of the first loop carry no
  offset, and chrono's \<open>DateTime::parse_from_str\<close> refuses a format without one.
\<close>

definition step_text_ok :: "ext \<Rightarrow> WorkflowStepInstance \<Rightarrow> bool" where
  "step_text_ok X s \<longleftrightarrow>
     uuid_parse X (si_id s) = Some (si_id s) \<and>
     uuid_parse X (si_workflow_run_id s) = Some (si_workflow_run_id s) \<and>
     json_text_ok X (si_args_json s) \<and> pred_option (json_text_ok X) (si_result_json s) \<and>
     retry_from_str X (retry_to_string X (si_retry_policy s)) = Some (si_retry_policy s) \<and>
     pred_option (\<lambda>t. time_text_ok X t \<and> first_format (parse_tz X (fmt_time X t)) offset_formats = None) (si_next_retry_at s)"

definition step_to_secs :: "WorkflowStepInstance \<Rightarrow> WorkflowStepInstance" where
  "step_to_secs s = s\<lparr>si_next_retry_at := map_option trunc_secs (si_next_retry_at s)\<rparr>"

lemma transpose_parse_step_datetime [simp]:
  "pred_option (\<lambda>t. time_text_ok X t \<and> first_format (parse_tz X (fmt_time X t)) offset_formats = None) v \<Longrightarrow>
   transpose_opt (parse_step_datetime X) (format_datetime X v) = Inr (map_option trunc_secs v)"
  by (cases v) (simp_all add: format_datetime_def parse_step_datetime_def time_text_ok_def date_fmt_def)

interpretation step_codec: row_codec "step_to_row X clk" "row_to_step X" step_to_secs "step_text_ok X"
  for X clk
  by unfold_locales
    (simp add: row_to_step_def step_to_row_def step_text_ok_def step_to_secs_def
      step_state.decode_encode [simplified])

lemma row_to_step_fields:
  assumes "row_to_step X row = Inr s"
  shows "uuid_parse X (st_id row) = Some (si_id s)"
    and "uuid_parse X (st_workflow_run_id row) = Some (si_workflow_run_id s)"
    and "st_state row = step_state_to_str (si_state s)"
    and "si_activity_name s = st_activity_name row"
    and "si_attempt s = i64_as_u32 (st_attempt row)"
    and "retry_from_str X (st_retry_policy_json row) = Some (si_retry_policy s)"
    and "si_step_index s = i64_as_u64 (st_step_index row)"
  using assms
  by (auto simp: row_to_step_def bindS_def option_to_sum_def step_state.decode_iff
      split: sum.splits option.splits)

text \<open>A step in the state \<open>retried\<close> cannot be read at all.\<close>

lemma row_to_step_retried: "st_state row = ''retried'' \<Longrightarrow> \<exists>e. row_to_step X row = Inl e"
  by (auto simp: row_to_step_def bindS_def option_to_sum_def str_to_step_state_def
      split: sum.splits option.splits)

section \<open>Effects of the statements\<close>

lemma step_check_state_to_str:
  "step_check r \<longleftrightarrow> st_state r = step_state_to_str Pending \<or> st_state r = step_state_to_str Running \<or>
     st_state r = step_state_to_str Completed \<or> st_state r = step_state_to_str Failed \<or> st_state r = ''retried''"
  by (auto simp: step_check_def step_state_to_str_def)

definition step_update :: "ext \<Rightarrow> WorkflowState \<Rightarrow> u32 option \<Rightarrow> json option \<Rightarrow> time option \<Rightarrow> step_row \<Rightarrow> step_row" where
  "step_update X st att res nxt r =
     r\<lparr>st_state := step_state_to_str st,
       st_attempt := (case att of None \<Rightarrow> st_attempt r | Some a \<Rightarrow> u32_as_i64 a),
       st_result_json := map_option (json_to_string X) res,
       st_next_retry_at := format_datetime X nxt\<rparr>"

lemma step_update_simps [simp]:
  "st_id (step_update X st att res nxt r) = st_id r"
  "st_workflow_run_id (step_update X st att res nxt r) = st_workflow_run_id r"
  "st_step_index (step_update X st att res nxt r) = st_step_index r"
  "st_activity_name (step_update X st att res nxt r) = st_activity_name r"
  "st_retry_policy_json (step_update X st att res nxt r) = st_retry_policy_json r"
  "st_heartbeat_timeout_secs (step_update X st att res nxt r) = st_heartbeat_timeout_secs r"
  "st_created_at (step_update X st att res nxt r) = st_created_at r"
  "st_args_json (step_update X st att res nxt r) = st_args_json r"
  "st_state (step_update X st att res nxt r) = step_state_to_str st"
  "st_attempt (step_update X st (Some a) res nxt r) = u32_as_i64 a"
  "st_attempt (step_update X st None res nxt r) = st_attempt r"
  "st_next_retry_at (step_update X st att res nxt r) = format_datetime X nxt"
  "st_result_json (step_update X st att res nxt r) = map_option (json_to_string X) res"
  by (simp_all add: step_update_def)

lemma update_step_state_eq:
  assumes "st \<noteq> Cancelled"
  shows "update_step_state X sid st att res nxt d =
     (Inr (), d\<lparr>workflow_steps := update_where (\<lambda>r. st_id r = sid) (step_update X st att res nxt) (workflow_steps d)\<rparr>)"
proof -
  have "step_check (step_update X st att res nxt r)" for r
    using assms by (cases st) (simp_all add: step_check_state_to_str)
  then have "sql_update step_check (\<lambda>r. st_id r = sid) (step_update X st att res nxt) (workflow_steps d) =
      Inr (count_where (\<lambda>r. st_id r = sid) (workflow_steps d),
           update_where (\<lambda>r. st_id r = sid) (step_update X st att res nxt) (workflow_steps d))"
    by (rule sql_update_ok)
  then show ?thesis
    by (simp add: update_step_state_def exec_update_steps_def exec_simps step_update_def [abs_def])
qed

text \<open>The \<open>CHECK\<close> of \<open>workflow_steps\<close> does not know \<open>cancelled\<close>: no step can be cancelled.\<close>

lemma update_step_state_cancelled:
  assumes "r \<in> set (workflow_steps d)" "st_id r = sid"
  shows "update_step_state X sid Cancelled att res nxt d = (Inl (SqlErr CheckConstraint), d)"
proof -
  have "\<not> list_all (\<lambda>r. step_check (step_update X Cancelled att res nxt r)) (filter (\<lambda>r. st_id r = sid) (workflow_steps d))"
    using assms by (auto simp: list_all_iff step_check_def step_state_to_str_def)
  then show ?thesis
    by (simp add: update_step_state_def exec_update_steps_def sql_update_def exec_simps step_update_def)
qed

definition activity_update :: "ext \<Rightarrow> clock \<Rightarrow> ActivityState \<Rightarrow> json option \<Rightarrow> string option \<Rightarrow> act_row \<Rightarrow> act_row" where
  "activity_update X clk st res msg r =
     r\<lparr>ac_state := activity_state_to_str st, ac_completed_at := Some (sql_now clk),
       ac_result_json := map_option (json_to_string X) res, ac_error_message := msg\<rparr>"

lemma activity_update_simps [simp]:
  "ac_id (activity_update X clk st res msg r) = ac_id r"
  "ac_step_id (activity_update X clk st res msg r) = ac_step_id r"
  "ac_attempt (activity_update X clk st res msg r) = ac_attempt r"
  "ac_state (activity_update X clk st res msg r) = activity_state_to_str st"
  "ac_error_message (activity_update X clk st res msg r) = msg"
  by (simp_all add: activity_update_def)

lemma update_activity_state_eq:
  assumes "st \<noteq> Activity_Retried"
  shows "update_activity_state X clk aid st res msg d =
     (Inr (), d\<lparr>activities := update_where (\<lambda>r. ac_id r = aid) (activity_update X clk st res msg) (activities d)\<rparr>)"
proof -
  have "act_check (activity_update X clk st res msg r)" for r
    using assms by (cases st) (simp_all add: act_check_def activity_state_to_str_def)
  then have "sql_update act_check (\<lambda>r. ac_id r = aid) (activity_update X clk st res msg) (activities d) =
      Inr (count_where (\<lambda>r. ac_id r = aid) (activities d),
           update_where (\<lambda>r. ac_id r = aid) (activity_update X clk st res msg) (activities d))"
    by (rule sql_update_ok)
  then show ?thesis
    by (simp add: update_activity_state_def exec_update_activities_def exec_simps activity_update_def [abs_def])
qed

lemma keeps_insert_workflow_step [inv_rules]: "keeps schema_ok (insert_workflow_step X clk s)"
  unfolding insert_workflow_step_def by (intro inv_rules)

lemma keeps_update_step_state [inv_rules]: "keeps schema_ok (update_step_state X sid st att res nxt)"
  unfolding update_step_state_def by (intro inv_rules) simp_all

lemma keeps_insert_activity_attempt [inv_rules]: "keeps schema_ok (insert_activity_attempt clk aid sid att)"
  unfolding insert_activity_attempt_def by (intro inv_rules)

lemma keeps_update_activity_state [inv_rules]: "keeps schema_ok (update_activity_state X clk aid st res msg)"
  unfolding update_activity_state_def by (intro inv_rules) simp_all

lemma keeps_heartbeat_update [inv_rules]: "keeps schema_ok (heartbeat_update clk aid)"
  unfolding heartbeat_update_def by (intro inv_rules) simp_all

lemma keeps_get_pending_steps [inv_rules]: "keeps I (get_pending_steps X clk)"
  unfolding get_pending_steps_def by (intro inv_rules)

lemma keeps_get_next_step [inv_rules]: "keeps I (get_next_step_for_workflow X run_id)"
  unfolding get_next_step_for_workflow_def by (intro inv_rules)

lemma keeps_get_running_activities [inv_rules]: "keeps I get_running_activities"
  unfolding get_running_activities_def by (intro inv_rules)

end
