(* ===== verification/Db_Schedules.thy ===== *)
theory Db_Schedules
  imports Codec
begin

text \<open>
  \<open>db/src/schedules.rs\<close>: inserting, updating, deleting, reading and listing schedules.
\<close>

text \<open>The columns of a spec: \<open>(spec_type, cron_expressions, interval_seconds)\<close>.\<close>

definition spec_columns :: "ext \<Rightarrow> ScheduleSpec \<Rightarrow> sqltext \<times> sqltext option \<times> i64 option" where
  "spec_columns X spec =
     (case spec of
        Cron exprs \<Rightarrow> (''cron'', Some (strs_to_string X exprs), None)
      | Interval dur \<Rightarrow> (''interval'', None, Some (u64_as_i64 (duration_as_secs dur))))"

definition policy_column :: "OverlapPolicy \<Rightarrow> sqltext" where
  "policy_column p = (case p of Skip \<Rightarrow> ''skip'' | Buffer _ \<Rightarrow> ''buffer'' | TerminateExisting \<Rightarrow> ''terminate'')"

definition schedule_to_row :: "ext \<Rightarrow> clock \<Rightarrow> Schedule \<Rightarrow> sched_row" where
  "schedule_to_row X clk s =
     (let (spec_type, cron_expressions, interval_seconds) = spec_columns X (sc_spec s) in
      \<lparr>sr_schedule_id = sc_schedule_id s,
       sr_namespace = sc_namespace s,
       sr_spec_type = spec_type,
       sr_cron_expressions = cron_expressions,
       sr_interval_seconds = interval_seconds,
       sr_overlap_policy = policy_column (sc_policy s),
       sr_action_workflow_name = wa_workflow_name (sc_action s),
       sr_action_task_queue = wa_task_queue (sc_action s),
       sr_action_args_json = smap_to_string X (wa_args (sc_action s)),
       sr_action_id = Some (wa_id (sc_action s)),
       sr_timeouts_json = timeouts_to_string X (wa_timeouts (sc_action s)),
       sr_created_at = sql_now clk,
       sr_updated_at = sql_now clk\<rparr>)"

definition insert_schedule :: "ext \<Rightarrow> clock \<Rightarrow> Schedule \<Rightarrow> (db, err, unit) exec" where
  "insert_schedule X clk s = exec_insert_schedule (schedule_to_row X clk s)"

definition update_schedule_spec :: "ext \<Rightarrow> clock \<Rightarrow> sqltext \<Rightarrow> sqltext \<Rightarrow> Schedule \<Rightarrow> (db, err, unit) exec" where
  "update_schedule_spec X clk schedule_id namespace s =
     (let (spec_type, cron_expressions, interval_seconds) = spec_columns X (sc_spec s) in
      andThen (exec_update_schedules (\<lambda>r. sr_schedule_id r = schedule_id \<and> sr_namespace r = namespace)
                 (\<lambda>r. r\<lparr>sr_spec_type := spec_type,
                        sr_cron_expressions := cron_expressions,
                        sr_interval_seconds := interval_seconds,
                        sr_overlap_policy := policy_column (sc_policy s),
                        sr_action_workflow_name := wa_workflow_name (sc_action s),
                        sr_action_task_queue := wa_task_queue (sc_action s),
                        sr_action_args_json := smap_to_string X (wa_args (sc_action s)),
                        sr_action_id := Some (wa_id (sc_action s)),
                        sr_timeouts_json := timeouts_to_string X (wa_timeouts (sc_action s)),
                        sr_updated_at := sql_now clk\<rparr>))
        (\<lambda>_. okE ()))"

definition delete_schedule :: "sqltext \<Rightarrow> sqltext \<Rightarrow> (db, err, nat) exec" where
  "delete_schedule schedule_id namespace =
     exec_delete_schedules (\<lambda>r. sr_schedule_id r = schedule_id \<and> sr_namespace r = namespace)"

definition parse_schedule_datetime :: "ext \<Rightarrow> sqltext \<Rightarrow> err + time" where
  "parse_schedule_datetime X s =
     (case first_format (parse_naive X s)
         [''%Y-%m-%d %H:%M:%S%.f'', ''%Y-%m-%d %H:%M:%S'', ''%Y-%m-%dT%H:%M:%S%.f'', ''%Y-%m-%dT%H:%M:%S''] of
        Some t \<Rightarrow> Inr t
      | None \<Rightarrow>
          (case first_format (parse_tz X s) [''%Y-%m-%dT%H:%M:%S%.fZ'', ''%Y-%m-%dT%H:%M:%SZ''] of
             Some t \<Rightarrow> Inr t
           | None \<Rightarrow> Inl (Message (''Failed to parse datetime: '' @ s))))"

definition row_spec :: "ext \<Rightarrow> sched_row \<Rightarrow> err + ScheduleSpec" where
  "row_spec X row =
     (if sr_spec_type row = ''cron'' then
        (case sr_cron_expressions row of
           Some j \<Rightarrow> bindS (option_to_sum SerdeErr (strs_from_str X j)) (\<lambda>l. Inr (Cron l))
         | None \<Rightarrow> Inr (Cron []))
      else
        (case sr_interval_seconds row of
           Some secs \<Rightarrow> Inr (Interval (duration_from_secs (i64_as_u64 secs)))
         | None \<Rightarrow> Inr (Interval 0)))"

definition row_policy :: "sched_row \<Rightarrow> err + OverlapPolicy" where
  "row_policy row =
     (if sr_overlap_policy row = ''skip'' then Inr Skip
      else if sr_overlap_policy row = ''buffer'' then Inr (Buffer 1)
      else if sr_overlap_policy row = ''terminate'' then Inr TerminateExisting
      else Inl (Message (''Unknown overlap_policy: '' @ sr_overlap_policy row)))"

definition row_to_schedule :: "ext \<Rightarrow> sched_row \<Rightarrow> err + Schedule" where
  "row_to_schedule X row =
     bindS (row_spec X row) (\<lambda>spec.
     bindS (row_policy row) (\<lambda>policy.
     bindS (option_to_sum SerdeErr (smap_from_str X (sr_action_args_json row))) (\<lambda>args.
     bindS (option_to_sum SerdeErr (timeouts_from_str X (sr_timeouts_json row))) (\<lambda>timeouts.
     bindS (parse_schedule_datetime X (sr_created_at row)) (\<lambda>created.
     bindS (parse_schedule_datetime X (sr_updated_at row)) (\<lambda>updated.
     Inr \<lparr>sc_schedule_id = sr_schedule_id row,
          sc_namespace = sr_namespace row,
          sc_spec = spec,
          sc_action = \<lparr>wa_workflow_name = sr_action_workflow_name row,
                       wa_args = args,
                       wa_task_queue = sr_action_task_queue row,
                       wa_id = (case sr_action_id row of None \<Rightarrow> [] | Some i \<Rightarrow> i),
                       wa_timeouts = timeouts\<rparr>,
          sc_policy = policy,
          sc_created_at = created,
          sc_updated_at = updated\<rparr>))))))"

definition get_schedule :: "ext \<Rightarrow> sqltext \<Rightarrow> (db, err, Schedule option) exec" where
  "get_schedule X schedule_id =
     readE (\<lambda>d. case find (\<lambda>r. sr_schedule_id r = schedule_id) (schedules d) of
                  Some row \<Rightarrow> bindS (row_to_schedule X row) (\<lambda>s. Inr (Some s))
                | None \<Rightarrow> Inr None)"

definition list_schedules :: "ext \<Rightarrow> sqltext \<Rightarrow> (db, err, Schedule list) exec" where
  "list_schedules X namespace =
     readE (\<lambda>d. mapM_sum (row_to_schedule X)
       (order_by_asc sr_created_at (filter (\<lambda>r. sr_namespace r = namespace) (schedules d))))"

section \<open>Rows and schedules\<close>

text \<open>What the round trip needs of the libraries at one schedule stored at one time.\<close>

definition schedule_text_ok :: "ext \<Rightarrow> clock \<Rightarrow> time \<Rightarrow> Schedule \<Rightarrow> bool" where
  "schedule_text_ok X clk t s \<longleftrightarrow>
     (case sc_spec s of Cron l \<Rightarrow> strs_from_str X (strs_to_string X l) = Some l | Interval _ \<Rightarrow> True) \<and>
     smap_from_str X (smap_to_string X (wa_args (sc_action s))) = Some (wa_args (sc_action s)) \<and>
     timeouts_from_str X (timeouts_to_string X (wa_timeouts (sc_action s))) = Some (wa_timeouts (sc_action s)) \<and>
     parse_naive X (sql_now clk) (date_fmt @ ''%.f'') = Some t"

text \<open>
  What a stored schedule keeps: the bound of a buffer becomes 1, the fraction of a second of an
  interval is dropped, and the two timestamps are those of the database.
\<close>

definition stored_spec :: "ScheduleSpec \<Rightarrow> ScheduleSpec" where
  "stored_spec spec = (case spec of Cron l \<Rightarrow> Cron l | Interval d \<Rightarrow> Interval (duration_from_secs (duration_as_secs d)))"

definition stored_policy :: "OverlapPolicy \<Rightarrow> OverlapPolicy" where
  "stored_policy p = (case p of Skip \<Rightarrow> Skip | Buffer _ \<Rightarrow> Buffer 1 | TerminateExisting \<Rightarrow> TerminateExisting)"

definition stored_schedule :: "time \<Rightarrow> Schedule \<Rightarrow> Schedule" where
  "stored_schedule t s =
     s\<lparr>sc_spec := stored_spec (sc_spec s), sc_policy := stored_policy (sc_policy s),
       sc_created_at := t, sc_updated_at := t\<rparr>"

interpretation sched_codec:
  row_codec "schedule_to_row X clk" "row_to_schedule X" "stored_schedule t" "schedule_text_ok X clk t"
  for X clk t
proof unfold_locales
  fix s
  assume ok: "schedule_text_ok X clk t s"
  then have dt: "parse_schedule_datetime X (sql_now clk) = Inr t"
    by (simp add: schedule_text_ok_def parse_schedule_datetime_def date_fmt_def)
  have spec: "row_spec X (schedule_to_row X clk s) = Inr (stored_spec (sc_spec s))"
    using ok by (cases "sc_spec s")
      (simp_all add: schedule_text_ok_def row_spec_def schedule_to_row_def spec_columns_def stored_spec_def)
  have pol: "row_policy (schedule_to_row X clk s) = Inr (stored_policy (sc_policy s))"
    by (cases "sc_policy s")
      (simp_all add: row_policy_def schedule_to_row_def policy_column_def stored_policy_def split: prod.split)
  show "row_to_schedule X (schedule_to_row X clk s) = Inr (stored_schedule t s)"
    using ok dt spec pol
    by (simp add: row_to_schedule_def schedule_text_ok_def stored_schedule_def)
      (simp add: schedule_to_row_def split: prod.split)
qed

text \<open>A row whose arguments are not a JSON object of texts cannot be read.\<close>

lemma row_to_schedule_bad_args:
  "smap_from_str X (sr_action_args_json row) = None \<Longrightarrow> \<exists>e. row_to_schedule X row = Inl e"
  by (cases "row_spec X row"; cases "row_policy row") (simp_all add: row_to_schedule_def)

section \<open>Effects of the statements\<close>

lemma sched_check_to_row: "sched_check (schedule_to_row X clk s)"
  by (cases "sc_spec s"; cases "sc_policy s")
    (simp_all add: sched_check_def schedule_to_row_def spec_columns_def policy_column_def)

lemma schedule_to_row_key [simp]:
  "sr_schedule_id (schedule_to_row X clk s) = sc_schedule_id s"
  "sr_namespace (schedule_to_row X clk s) = sc_namespace s"
  by (simp_all add: schedule_to_row_def split: prod.split)

lemma insert_schedule_eq:
  "insert_schedule X clk s d =
     (if sc_schedule_id s \<in> sr_schedule_id ` set (schedules d) then (Inl (SqlErr UniqueConstraint), d)
      else (Inr (), d\<lparr>schedules := schedules d @ [schedule_to_row X clk s]\<rparr>))"
  by (simp add: insert_schedule_def exec_insert_schedule_def sched_check_to_row)

lemma keeps_insert_schedule [inv_rules]: "keeps schema_ok (insert_schedule X clk s)"
  unfolding insert_schedule_def by (intro inv_rules)

lemma keeps_update_schedule_spec [inv_rules]: "keeps schema_ok (update_schedule_spec X clk sid ns s)"
  unfolding update_schedule_spec_def by (intro inv_rules) simp

lemma keeps_delete_schedule [inv_rules]: "keeps schema_ok (delete_schedule sid ns)"
  unfolding delete_schedule_def by (intro inv_rules)

lemma keeps_get_schedule [inv_rules]: "keeps I (get_schedule X sid)"
  unfolding get_schedule_def by (intro inv_rules)

lemma keeps_list_schedules [inv_rules]: "keeps I (list_schedules X ns)"
  unfolding list_schedules_def by (intro inv_rules)

end
