(* ===== verification/Server_State.thy ===== *)
theory Server_State
  imports Db_Workflows Db_Activities Db_Schedules
begin

text \<open>
  The state the server's tasks share: the database, the engine's event channel and the timers
  that tokio holds. \<open>srv_events\<close> are the events sent to the engine and not yet received (oldest
  first), \<open>srv_timers\<close> the spawned sleeps with the event each sends when it ends,
  \<open>srv_engine_tx\<close> says whether \<open>KhronosState\<close> was given the engine's sender.
\<close>

datatype EngineEvent =
    WorkflowCreated sqltext
  | StepCompleted sqltext
  | ScheduleChange
  | RetryDue sqltext
  | HeartbeatTimeout sqltext

record server =
  srv_db :: db
  srv_events :: "EngineEvent list"
  srv_timers :: "(time \<times> EngineEvent) list"
  srv_engine_tx :: bool

definition with_db :: "(db, 'e, 'a) exec \<Rightarrow> (server, 'e, 'a) exec" where
  "with_db m s = (case m (srv_db s) of (res, d) \<Rightarrow> (res, s\<lparr>srv_db := d\<rparr>))"

text \<open>\<open>if let Some(tx) = &self.engine_tx { let _ = tx.send(ev); }\<close>\<close>

definition notify_engine :: "EngineEvent \<Rightarrow> (server, 'e, unit) exec" where
  "notify_engine ev s =
     (Inr (), if srv_engine_tx s then s\<lparr>srv_events := srv_events s @ [ev]\<rparr> else s)"

text \<open>A send on the engine's own sender, or on the global one that \<open>Engine::new\<close> sets.\<close>

definition send_event :: "EngineEvent \<Rightarrow> (server, 'e, unit) exec" where
  "send_event ev s = (Inr (), s\<lparr>srv_events := srv_events s @ [ev]\<rparr>)"

definition spawn_timer :: "time \<Rightarrow> EngineEvent \<Rightarrow> (server, 'e, unit) exec" where
  "spawn_timer t ev s = (Inr (), s\<lparr>srv_timers := srv_timers s @ [(t, ev)]\<rparr>)"

definition init_server :: server where
  "init_server = \<lparr>srv_db = migrate, srv_events = [], srv_timers = [], srv_engine_tx = True\<rparr>"

text \<open>
  \<open>if let Err(e) = m { warn!(...) }\<close> in a task's loop: an error is logged and dropped, a panic
  ends the task.
\<close>

definition logErr :: "('s, err, 'a) exec \<Rightarrow> ('s, err, unit) exec" where
  "logErr m s =
     (case m s of
        (Inl e, s') \<Rightarrow> (if e = Panicked then Inl Panicked else Inr (), s')
      | (Inr _, s') \<Rightarrow> (Inr (), s'))"

lemma keeps_logErr [inv_rules]: "keeps I m \<Longrightarrow> keeps I (logErr m)"
  unfolding keeps_def logErr_def by (fastforce split: prod.splits sum.splits)

declare with_db_def [exec_simps] notify_engine_def [exec_simps] send_event_def [exec_simps]
  spawn_timer_def [exec_simps]

definition on_db :: "(db \<Rightarrow> bool) \<Rightarrow> server \<Rightarrow> bool" where
  "on_db I s \<longleftrightarrow> I (srv_db s)"

lemma keeps_with_db [inv_rules]: "keeps I m \<Longrightarrow> keeps (on_db I) (with_db m)"
  unfolding keeps_def on_db_def with_db_def by (fastforce split: prod.splits)

lemma keeps_notify_engine [inv_rules]: "keeps (on_db I) (notify_engine ev)"
  by (simp add: keeps_def on_db_def notify_engine_def)

lemma keeps_send_event [inv_rules]: "keeps (on_db I) (send_event ev)"
  by (simp add: keeps_def on_db_def send_event_def)

lemma keeps_spawn_timer [inv_rules]: "keeps (on_db I) (spawn_timer t ev)"
  by (simp add: keeps_def on_db_def spawn_timer_def)

section \<open>The interface of the database layer to its clients\<close>

text \<open>
  The engine, the scheduler and the gRPC services reach the database through the functions of
  \<open>khronos-db\<close> and a few statements of their own. \<open>db_client\<close> states what a property of the
  database needs for all of them to keep it: that each of these operations does, with the states the
  clients ask for: no workflow is set back to \<open>Pending\<close>, an activity only ever ends. The clients'
  lemmas are proved once, in the context of this locale.
\<close>

definition stmt_start_workflow :: "clock \<Rightarrow> sqltext \<Rightarrow> (db, err, nat) exec" where
  "stmt_start_workflow clk run_id =
     exec_update_workflows (\<lambda>r. wf_run_id r = run_id \<and> wf_state r = ''pending'')
       (\<lambda>r. r\<lparr>wf_state := ''running'',
              wf_started_at := (case wf_started_at r of None \<Rightarrow> Some (sql_now clk) | Some t \<Rightarrow> Some t)\<rparr>)"

definition stmt_reset_step :: "sqltext \<Rightarrow> (db, err, nat) exec" where
  "stmt_reset_step step_id =
     exec_update_steps (\<lambda>r. st_id r = step_id) (\<lambda>r. r\<lparr>st_state := ''pending'', st_next_retry_at := None\<rparr>)"

locale db_client =
  fixes I :: "db \<Rightarrow> bool"
  assumes insert_workflow: "keeps I (insert_workflow X w)"
    and update_workflow_state: "st \<noteq> Pending \<Longrightarrow> keeps I (update_workflow_state X run_id st res compl)"
    and cancel_workflow: "keeps I (cancel_workflow clk run_id)"
    and insert_workflow_step: "keeps I (insert_workflow_step X clk s)"
    and update_step_state: "keeps I (update_step_state X sid st att res nxt)"
    and insert_activity_attempt: "keeps I (insert_activity_attempt clk aid sid n)"
    and update_activity_state: "ast \<in> {Activity_Completed, Activity_Failed} \<Longrightarrow> keeps I (update_activity_state X clk aid ast res msg)"
    and heartbeat_update: "keeps I (heartbeat_update clk aid)"
    and start_workflow_stmt: "keeps I (stmt_start_workflow clk run_id)"
    and reset_step_stmt: "keeps I (stmt_reset_step sid)"
    and insert_schedule_row: "keeps I (exec_insert_schedule r)"
    and update_schedule_rows: "(\<And>r. sr_schedule_id (f r) = sr_schedule_id r) \<Longrightarrow> keeps I (exec_update_schedules P f)"
    and delete_schedule_rows: "keeps I (exec_delete_schedules P)"
begin

lemmas client_rules = insert_workflow cancel_workflow insert_workflow_step
  update_workflow_state [of Running, simplified] update_workflow_state [of Completed, simplified]
  update_workflow_state [of Failed, simplified]
  update_step_state insert_activity_attempt heartbeat_update
  update_activity_state [of Activity_Completed, simplified] update_activity_state [of Activity_Failed, simplified]
  start_workflow_stmt reset_step_stmt insert_schedule_row delete_schedule_rows

lemma insert_schedule: "keeps I (Db_Schedules.insert_schedule X clk s)"
  unfolding insert_schedule_def by (rule insert_schedule_row)

lemma delete_schedule: "keeps I (Db_Schedules.delete_schedule sid ns)"
  unfolding delete_schedule_def by (rule delete_schedule_rows)

lemma update_schedule_spec: "keeps I (Db_Schedules.update_schedule_spec X clk sid ns s)"
  unfolding update_schedule_spec_def by (intro inv_rules update_schedule_rows) simp

lemmas schedule_rules = insert_schedule delete_schedule update_schedule_spec

end

interpretation schema: db_client schema_ok
  by unfold_locales
    (auto simp: stmt_start_workflow_def stmt_reset_step_def intro: inv_rules)

subsection \<open>No step is ever in the state \<open>retried\<close>\<close>

text \<open>
  The schema allows \<open>retried\<close> and several queries look for it, but \<open>WorkflowState\<close> has no such
  constructor, so no statement of the program writes it.
\<close>

definition no_retried :: "db \<Rightarrow> bool" where
  "no_retried d \<longleftrightarrow> list_all (\<lambda>r. st_state r \<noteq> ''retried'') (workflow_steps d)"

lemma step_state_to_str_not_retried [simp]: "step_state_to_str st \<noteq> ''retried''"
  by (cases st) (simp_all add: step_state_to_str_def)

lemma no_retried_frame: "(\<And>d. workflow_steps (snd (m d)) = workflow_steps d) \<Longrightarrow> keeps no_retried m"
  by (simp add: keeps_def no_retried_def)

lemma no_retried_update_steps:
  "(\<And>r. st_state (f r) \<noteq> ''retried'') \<Longrightarrow> keeps no_retried (exec_update_steps P f)"
  by (rule keepsI)
    (auto simp: no_retried_def exec_update_steps_def list_all_iff set_update_where split: sum.splits if_splits
      dest!: sql_update_Inr)

lemma steps_frame:
  "workflow_steps (snd (exec_insert_workflow r d)) = workflow_steps d"
  "workflow_steps (snd (exec_update_workflows P f d)) = workflow_steps d"
  "workflow_steps (snd (exec_insert_activity a d)) = workflow_steps d"
  "workflow_steps (snd (exec_update_activities P' f' d)) = workflow_steps d"
  "workflow_steps (snd (exec_insert_schedule sr d)) = workflow_steps d"
  "workflow_steps (snd (exec_update_schedules P'' f'' d)) = workflow_steps d"
  "workflow_steps (snd (exec_delete_schedules P'' d)) = workflow_steps d"
  by (simp_all add: exec_insert_workflow_def exec_update_workflows_def exec_insert_activity_def
      exec_update_activities_def exec_insert_schedule_def exec_update_schedules_def
      exec_delete_schedules_def split: sum.split prod.split)

lemmas no_retried_statements = steps_frame [THEN no_retried_frame]

interpretation retried: db_client no_retried
proof unfold_locales
  fix X clk s
  show "keeps no_retried (insert_workflow_step X clk s)"
    by (rule keepsI)
      (auto simp: insert_workflow_step_def exec_insert_step_def no_retried_def step_to_row_def)
next
  fix X sid st att res nxt
  show "keeps no_retried (update_step_state X sid st att res nxt)"
    unfolding update_step_state_def by (intro inv_rules no_retried_update_steps) simp
next
  fix sid
  show "keeps no_retried (stmt_reset_step sid)"
    unfolding stmt_reset_step_def by (rule no_retried_update_steps) simp
qed (auto simp: insert_workflow_def update_workflow_state_def cancel_workflow_def stmt_start_workflow_def
    insert_activity_attempt_def update_activity_state_def heartbeat_update_def
    intro!: keeps_andThen keeps_if keeps_okE keeps_errE no_retried_statements)

end
