(* ===== verification/Engine.thy ===== *)
theory Engine
  imports Server_State
begin

text \<open>
  The workflow engine, \<open>server/src/engine.rs\<close>: the handlers of the five engine events, the
  timers they set, and the older polling operations. The engine is one task, so its handlers
  run one after the other; each is a computation on the server's state. Logging is left out.
\<close>

section \<open>Backoff\<close>

text \<open>\<open>2.0_f64.powi(e as i32)\<close>: the exponent is a \<open>u32\<close> read as a signed number.\<close>

definition powi2 :: "u32 \<Rightarrow> f64" where
  "powi2 e = (let i = sint e in if 0 \<le> i then 2 ^ nat i else 1 / 2 ^ nat (- i))"

definition backoff_secs :: "RetryPolicy \<Rightarrow> u32 \<Rightarrow> i64" where
  "backoff_secs p e = f64_as_i64 (initial_interval_secs p * powi2 e)"

definition saturating_sub1 :: "u32 \<Rightarrow> u32" where
  "saturating_sub1 n = (if n = 0 then 0 else n - 1)"

text \<open>\<open>row.get::<_, u32>\<close> refuses a number outside the range; \<open>unwrap_or_default\<close> makes it 0.\<close>

definition get_u32_or_default :: "i64 \<Rightarrow> u32" where
  "get_u32_or_default i = (if 0 \<le> i \<and> i < 2 ^ 32 then word_of_int i else 0)"

definition retry_policy_or_default :: "ext \<Rightarrow> sqltext \<Rightarrow> RetryPolicy" where
  "retry_policy_or_default X j = (case retry_from_str X j of Some p \<Rightarrow> p | None \<Rightarrow> retry_policy_default)"

section \<open>Timers\<close>

text \<open>
  \<open>Instant::now() + (t - Utc::now()).to_std().unwrap_or(1 ms)\<close> as a point in time.
\<close>

definition timer_deadline :: "clock \<Rightarrow> time \<Rightarrow> time" where
  "timer_deadline clk t = (if utc_now clk \<le> t then t else utc_now clk + 1000000)"

definition schedule_retry_timer :: "clock \<Rightarrow> sqltext \<Rightarrow> time \<Rightarrow> (server, err, unit) exec" where
  "schedule_retry_timer clk step_id retry_at = spawn_timer (timer_deadline clk retry_at) (RetryDue step_id)"

definition schedule_heartbeat_timer :: "clock \<Rightarrow> sqltext \<Rightarrow> time \<Rightarrow> (server, err, unit) exec" where
  "schedule_heartbeat_timer clk activity_id deadline =
     spawn_timer (timer_deadline clk deadline) (HeartbeatTimeout activity_id)"

definition schedule_retry_timers_for_workflow :: "ext \<Rightarrow> clock \<Rightarrow> sqltext \<Rightarrow> (server, err, unit) exec" where
  "schedule_retry_timers_for_workflow X clk run_id =
     andThen (with_db (readE (\<lambda>d. Inr (map (\<lambda>r. (st_id r, the (st_next_retry_at r)))
                (filter (\<lambda>r. st_workflow_run_id r = run_id \<and> st_state r = ''retried'' \<and> st_next_retry_at r \<noteq> None)
                  (workflow_steps d))))))
       (\<lambda>steps. forE (\<lambda>(step_id, next_retry_at).
          case parse_tz X next_retry_at date_fmt of
            Some retry_at \<Rightarrow> schedule_retry_timer clk step_id retry_at
          | None \<Rightarrow> okE ()) steps)"

text \<open>The reference time of a heartbeat deadline: the last heartbeat, or the start.\<close>

definition heartbeat_reference :: "act_row \<Rightarrow> sqltext option" where
  "heartbeat_reference a = (case ac_last_heartbeat_at a of Some hb \<Rightarrow> Some hb | None \<Rightarrow> ac_started_at a)"

definition schedule_heartbeat_timers_for_workflow :: "ext \<Rightarrow> clock \<Rightarrow> sqltext \<Rightarrow> (server, err, unit) exec" where
  "schedule_heartbeat_timers_for_workflow X clk run_id =
     andThen (with_db (readE (\<lambda>d. Inr (map (\<lambda>(a, ws). (ac_id a, heartbeat_reference a, st_heartbeat_timeout_secs ws))
                (filter (\<lambda>(a, ws). ac_state a = ''running'' \<and> st_workflow_run_id ws = run_id) (join_activities d))))))
       (\<lambda>acts. forE (\<lambda>(activity_id, reference, timeout_secs).
          case timeout_secs of
            None \<Rightarrow> okE ()
          | Some timeout \<Rightarrow>
              (case reference of
                 None \<Rightarrow> okE ()
               | Some txt \<Rightarrow>
                   (case parse_tz X txt date_fmt of
                      None \<Rightarrow> okE ()
                    | Some ref_time \<Rightarrow>
                        (case add_secs X ref_time timeout of
                           None \<Rightarrow> errE Panicked
                         | Some deadline \<Rightarrow> schedule_heartbeat_timer clk activity_id deadline)))) acts)"

definition schedule_timers_for_workflow :: "ext \<Rightarrow> clock \<Rightarrow> sqltext \<Rightarrow> (server, err, unit) exec" where
  "schedule_timers_for_workflow X clk run_id =
     andThen (schedule_retry_timers_for_workflow X clk run_id)
       (\<lambda>_. schedule_heartbeat_timers_for_workflow X clk run_id)"

section \<open>Processing a workflow\<close>

definition next_step_row :: "sqltext \<Rightarrow> db \<Rightarrow> step_row option" where
  "next_step_row run_id d =
     (case order_by_asc st_step_index
             (filter (\<lambda>r. st_workflow_run_id r = run_id \<and> st_state r \<in> {''pending'', ''retried''}) (workflow_steps d)) of
        [] \<Rightarrow> None | r # _ \<Rightarrow> Some r)"

definition steps_of :: "sqltext \<Rightarrow> db \<Rightarrow> step_row list" where
  "steps_of run_id d = filter (\<lambda>r. st_workflow_run_id r = run_id) (workflow_steps d)"

text \<open>\<open>(COUNT, completed, failed)\<close> of the steps of a workflow.\<close>

definition step_counts :: "sqltext \<Rightarrow> db \<Rightarrow> nat \<times> nat \<times> nat" where
  "step_counts run_id d =
     (length (steps_of run_id d),
      count_where (\<lambda>r. st_state r = ''completed'') (steps_of run_id d),
      count_where (\<lambda>r. st_state r = ''failed'') (steps_of run_id d))"

text \<open>
  When a step is pending, the code compares two counts and only logs the outcome: both branches
  leave the step for \<open>PollActivity\<close>.
\<close>

definition process_single_workflow :: "ext \<Rightarrow> clock \<Rightarrow> sqltext \<Rightarrow> (db, err, unit) exec" where
  "process_single_workflow X clk run_id =
     andThen (stmt_start_workflow clk run_id) (\<lambda>updated.
     andThen (readE (\<lambda>d. Inr (next_step_row run_id d, step_counts run_id d))) (\<lambda>(next_step, total_steps, completed_count, failed_count).
       case next_step of
         Some r \<Rightarrow>
           andThen (readE (\<lambda>d. Inr (
               count_where (\<lambda>p. st_step_index p < st_step_index r \<and> st_state p = ''completed'') (steps_of run_id d),
               count_where (\<lambda>p. st_step_index p < st_step_index r) (steps_of run_id d))))
             (\<lambda>(prev_completed, total_prev). if prev_completed = total_prev then okE () else okE ())
       | None \<Rightarrow>
           (if 0 < total_steps then
              (if 0 < failed_count then
                 update_workflow_state X run_id Failed None (Some (utc_now clk))
               else if completed_count = total_steps then
                 update_workflow_state X run_id Completed None (Some (utc_now clk))
               else okE ())
            else okE ())))"

definition process_workflows :: "ext \<Rightarrow> clock \<Rightarrow> (server, err, unit) exec" where
  "process_workflows X clk =
     andThen (with_db (readE (\<lambda>d. Inr (map wf_run_id
                (order_by_asc (\<lambda>r. null_first (wf_started_at r))
                  (filter (\<lambda>r. wf_state r \<in> {''pending'', ''running''}) (workflows d)))))))
       (\<lambda>ids. forE (\<lambda>run_id.
          andThen (with_db (process_single_workflow X clk run_id))
            (\<lambda>_. schedule_timers_for_workflow X clk run_id)) ids)"

section \<open>Event handlers\<close>

definition handle_workflow_created :: "ext \<Rightarrow> clock \<Rightarrow> sqltext \<Rightarrow> (server, err, unit) exec" where
  "handle_workflow_created X clk run_id =
     andThen (with_db (process_single_workflow X clk run_id)) (\<lambda>_. schedule_timers_for_workflow X clk run_id)"

definition handle_step_completed :: "ext \<Rightarrow> clock \<Rightarrow> sqltext \<Rightarrow> (server, err, unit) exec" where
  "handle_step_completed X clk run_id =
     andThen (with_db (process_single_workflow X clk run_id)) (\<lambda>_. schedule_timers_for_workflow X clk run_id)"

definition handle_retry_due :: "ext \<Rightarrow> clock \<Rightarrow> sqltext \<Rightarrow> (server, err, unit) exec" where
  "handle_retry_due X clk step_id =
     andThen (with_db (query_row workflow_steps (\<lambda>r. st_id r = step_id) (\<lambda>r. (st_state r, st_workflow_run_id r))))
       (\<lambda>(state, workflow_run_id).
          if state = ''retried'' then
            andThen (with_db (stmt_reset_step step_id)) (\<lambda>_.
            andThen (with_db (process_single_workflow X clk workflow_run_id)) (\<lambda>_.
              schedule_timers_for_workflow X clk workflow_run_id))
          else okE ())"

definition handle_heartbeat_timeout :: "ext \<Rightarrow> clock \<Rightarrow> sqltext \<Rightarrow> (server, err, unit) exec" where
  "handle_heartbeat_timeout X clk activity_id =
     andThen (with_db (query_row activities (\<lambda>r. ac_id r = activity_id) (\<lambda>r. (ac_state r, ac_step_id r, ac_attempt r))))
       (\<lambda>(state, step_id, attempt).
          if state \<noteq> ''running'' then okE ()
          else
            andThen (with_db (readE (\<lambda>d. Inr (case find (\<lambda>r. st_id r = step_id) (workflow_steps d) of
                None \<Rightarrow> [] | Some r \<Rightarrow> st_retry_policy_json r)))) (\<lambda>retry_policy_json.
            let retry_policy = retry_policy_or_default X retry_policy_json;
                current_attempt = get_u32_or_default attempt in
            andThen (with_db (update_activity_state X clk activity_id Activity_Failed None (Some ''Heartbeat timeout''))) (\<lambda>_.
            if current_attempt < maximum_attempts retry_policy then
              (case add_secs X (utc_now clk) (backoff_secs retry_policy (saturating_sub1 current_attempt)) of
                 None \<Rightarrow> errE Panicked
               | Some next_retry_at \<Rightarrow>
                   andThen (with_db (update_step_state X step_id Pending (Some current_attempt) None (Some next_retry_at)))
                     (\<lambda>_. schedule_retry_timer clk step_id next_retry_at))
            else
              andThen (with_db (update_step_state X step_id Failed (Some current_attempt) None None)) (\<lambda>_.
              andThen (with_db (query_row workflow_steps (\<lambda>r. st_id r = step_id) st_workflow_run_id)) (\<lambda>run_id.
                with_db (process_single_workflow X clk run_id))))))"

text \<open>
  One turn of \<open>Engine::run\<close>: an error is logged and the loop goes on; a panic (chrono's, on a
  delay out of range) ends the task.
\<close>

definition handle_event :: "ext \<Rightarrow> clock \<Rightarrow> EngineEvent \<Rightarrow> (server, err, unit) exec" where
  "handle_event X clk ev =
     logErr (case ev of
        WorkflowCreated run_id \<Rightarrow> handle_workflow_created X clk run_id
      | StepCompleted run_id \<Rightarrow> handle_step_completed X clk run_id
      | ScheduleChange \<Rightarrow> process_workflows X clk
      | RetryDue step_id \<Rightarrow> handle_retry_due X clk step_id
      | HeartbeatTimeout activity_id \<Rightarrow> handle_heartbeat_timeout X clk activity_id)"

section \<open>The older polling operations\<close>

definition check_retries :: "ext \<Rightarrow> clock \<Rightarrow> (db, err, unit) exec" where
  "check_retries X clk =
     andThen (readE (\<lambda>d. Inr (map st_id (filter
                (\<lambda>r. st_state r = ''retried'' \<and>
                     (case st_next_retry_at r of None \<Rightarrow> False | Some t \<Rightarrow> t \<le> fmt_time X (utc_now clk)))
                (workflow_steps d)))))
       (\<lambda>ids. forE (\<lambda>step_id. andThen (stmt_reset_step step_id) (\<lambda>_. okE ())) ids)"

definition check_heartbeat :: "ext \<Rightarrow> clock \<Rightarrow> RunningActivity \<Rightarrow> (db, err, unit) exec" where
  "check_heartbeat X clk a =
     (case ra_heartbeat_timeout_secs a of
        None \<Rightarrow> okE ()
      | Some timeout_secs \<Rightarrow>
          (case (case ra_last_heartbeat_at_str a of Some hb \<Rightarrow> Some hb | None \<Rightarrow> ra_started_at_str a) of
             None \<Rightarrow> okE ()
           | Some txt \<Rightarrow>
               (case parse_tz X txt date_fmt of
                  None \<Rightarrow> errE ChronoErr
                | Some reference_time \<Rightarrow>
                    (if u64_as_i64 timeout_secs < num_seconds_between (utc_now clk) reference_time then
                       andThen (update_activity_state X clk (ra_id a) Activity_Failed None (Some ''Heartbeat timeout'')) (\<lambda>_.
                       andThen (readE (\<lambda>d. Inr (case find (\<lambda>r. st_id r = ra_step_id a) (workflow_steps d) of
                           None \<Rightarrow> [] | Some r \<Rightarrow> st_retry_policy_json r))) (\<lambda>retry_policy_json.
                       let retry_policy = retry_policy_or_default X retry_policy_json;
                           current_attempt = ra_attempt a in
                       if current_attempt < maximum_attempts retry_policy then
                         (case add_secs X (utc_now clk) (backoff_secs retry_policy (current_attempt - 1)) of
                            None \<Rightarrow> errE Panicked
                          | Some next_retry_at \<Rightarrow>
                              update_step_state X (ra_step_id a) Pending (Some current_attempt) None (Some next_retry_at))
                       else update_step_state X (ra_step_id a) Failed (Some current_attempt) None None))
                     else okE ()))))"

definition check_heartbeats :: "ext \<Rightarrow> clock \<Rightarrow> (db, err, unit) exec" where
  "check_heartbeats X clk = andThen get_running_activities (\<lambda>acts. forE (check_heartbeat X clk) acts)"

section \<open>What the engine keeps of the database\<close>

context db_client
begin

lemma keeps_process_single_workflow: "keeps I (process_single_workflow X clk run_id)"
  unfolding process_single_workflow_def by (intro inv_rules client_rules)

lemma keeps_schedule_timers: "keeps (on_db I) (schedule_timers_for_workflow X clk run_id)"
  unfolding schedule_timers_for_workflow_def schedule_retry_timers_for_workflow_def
    schedule_heartbeat_timers_for_workflow_def schedule_retry_timer_def schedule_heartbeat_timer_def
  by (intro inv_rules)

lemma keeps_process_workflows: "keeps (on_db I) (process_workflows X clk)"
  unfolding process_workflows_def
  by (intro inv_rules keeps_process_single_workflow keeps_schedule_timers)

lemma keeps_handle_retry_due: "keeps (on_db I) (handle_retry_due X clk sid)"
  unfolding handle_retry_due_def
  by (intro inv_rules client_rules keeps_process_single_workflow keeps_schedule_timers)

lemma keeps_handle_heartbeat_timeout: "keeps (on_db I) (handle_heartbeat_timeout X clk aid)"
  unfolding handle_heartbeat_timeout_def schedule_retry_timer_def
  by (intro inv_rules client_rules keeps_process_single_workflow keeps_schedule_timers)

lemma keeps_handle_event: "keeps (on_db I) (handle_event X clk ev)"
proof -
  have "keeps (on_db I) (handle_workflow_created X clk r)" "keeps (on_db I) (handle_step_completed X clk r)" for r
    unfolding handle_workflow_created_def handle_step_completed_def
    by (intro inv_rules keeps_process_single_workflow keeps_schedule_timers)+
  then show ?thesis
    unfolding handle_event_def
    by (intro keeps_logErr)
      (cases ev; simp add: keeps_process_workflows keeps_handle_retry_due keeps_handle_heartbeat_timeout)
qed

lemma keeps_check_retries: "keeps I (check_retries X clk)"
  unfolding check_retries_def by (intro inv_rules client_rules)

lemma keeps_check_heartbeats: "keeps I (check_heartbeats X clk)"
  unfolding check_heartbeats_def check_heartbeat_def by (intro inv_rules client_rules)

end

section \<open>The verdict on a workflow\<close>

text \<open>
  The specification of \<open>process_single_workflow\<close>: a workflow with no step left to run ends as
  failed when a step failed, and as completed when every step completed.
\<close>

definition wf_verdict :: "sqltext list \<Rightarrow> WorkflowState option" where
  "wf_verdict states =
     (if states = [] \<or> (\<exists>st \<in> set states. st = ''pending'' \<or> st = ''retried'') then None
      else if ''failed'' \<in> set states then Some Failed
      else if \<forall>st \<in> set states. st = ''completed'' then Some Completed
      else None)"

definition mark_started :: "clock \<Rightarrow> sqltext \<Rightarrow> db \<Rightarrow> db" where
  "mark_started clk run_id d =
     d\<lparr>workflows := update_where (\<lambda>r. wf_run_id r = run_id \<and> wf_state r = ''pending'')
        (\<lambda>r. r\<lparr>wf_state := ''running'',
               wf_started_at := (case wf_started_at r of None \<Rightarrow> Some (sql_now clk) | Some t \<Rightarrow> Some t)\<rparr>) (workflows d)\<rparr>"

definition finish_row :: "ext \<Rightarrow> clock \<Rightarrow> WorkflowState \<Rightarrow> wf_row \<Rightarrow> wf_row" where
  "finish_row X clk st r =
     r\<lparr>wf_state := workflow_state_to_str st, wf_result_json := None, wf_completed_at := Some (fmt_time X (utc_now clk))\<rparr>"

definition finish_workflow :: "ext \<Rightarrow> clock \<Rightarrow> sqltext \<Rightarrow> WorkflowState \<Rightarrow> db \<Rightarrow> db" where
  "finish_workflow X clk run_id st d =
     d\<lparr>workflows := update_where (\<lambda>r. wf_run_id r = run_id) (finish_row X clk st) (workflows d)\<rparr>"

lemma stmt_start_workflow_eq:
  "stmt_start_workflow clk run_id d =
     (Inr (count_where (\<lambda>r. wf_run_id r = run_id \<and> wf_state r = ''pending'') (workflows d)), mark_started clk run_id d)"
proof -
  have "wf_check (r\<lparr>wf_state := ''running'', wf_started_at := t\<rparr>)" for r t
    by (simp add: wf_check_def)
  then show ?thesis
    by (simp add: stmt_start_workflow_def exec_update_workflows_def sql_update_ok mark_started_def)
qed

lemma next_step_row_None:
  "next_step_row run_id d = None \<longleftrightarrow> \<not> (\<exists>st \<in> set (map st_state (steps_of run_id d)). st = ''pending'' \<or> st = ''retried'')"
proof -
  let ?sel = "filter (\<lambda>r. st_workflow_run_id r = run_id \<and> st_state r \<in> {''pending'', ''retried''}) (workflow_steps d)"
  have "next_step_row run_id d = None \<longleftrightarrow> set (order_by_asc st_step_index ?sel) = {}"
    unfolding next_step_row_def by (cases "order_by_asc st_step_index ?sel") simp_all
  also have "\<dots> \<longleftrightarrow> set ?sel = {}" by (simp only: set_order_by_asc)
  also have "\<dots> \<longleftrightarrow> \<not> (\<exists>st \<in> set (map st_state (steps_of run_id d)). st = ''pending'' \<or> st = ''retried'')"
    by (auto simp: steps_of_def)
  finally show ?thesis .
qed

lemma steps_of_mark_started [simp]: "steps_of run_id (mark_started clk rid d) = steps_of run_id d"
  by (simp add: steps_of_def mark_started_def)

lemma update_workflow_state_finish:
  "update_workflow_state X run_id st None (Some (utc_now clk)) d = (Inr (), finish_workflow X clk run_id st d)"
  by (simp add: update_workflow_state_eq finish_workflow_def finish_row_def [abs_def] format_datetime_def)

lemma process_single_workflow_eq:
  "process_single_workflow X clk run_id d =
     (Inr (), case wf_verdict (map st_state (steps_of run_id d)) of
                None \<Rightarrow> mark_started clk run_id d
              | Some st \<Rightarrow> finish_workflow X clk run_id st (mark_started clk run_id d))"
proof (cases "next_step_row run_id (mark_started clk run_id d)")
  case None
  let ?steps = "steps_of run_id d"
  have no: "\<not> (\<exists>st \<in> set (map st_state ?steps). st = ''pending'' \<or> st = ''retried'')"
    using None by (simp only: next_step_row_None steps_of_mark_started simp_thms)
  have failed: "0 < count_where (\<lambda>r. st_state r = ''failed'') ?steps \<longleftrightarrow> ''failed'' \<in> set (map st_state ?steps)"
    by (simp add: count_where_pos image_iff) metis
  have completed: "count_where (\<lambda>r. st_state r = ''completed'') ?steps = length ?steps \<longleftrightarrow>
      (\<forall>st \<in> set (map st_state ?steps). st = ''completed'')"
    by (simp add: count_where_all)
  show ?thesis
    using None no failed completed
    by (simp add: process_single_workflow_def exec_simps stmt_start_workflow_eq step_counts_def
        update_workflow_state_finish wf_verdict_def length_greater_0_conv)
next
  case (Some r)
  then have "\<exists>st \<in> set (map st_state (steps_of run_id d)). st = ''pending'' \<or> st = ''retried''"
    using next_step_row_None [of run_id "mark_started clk run_id d"] by simp
  then have "wf_verdict (map st_state (steps_of run_id d)) = None"
    by (simp only: wf_verdict_def) simp
  with Some show ?thesis
    by (simp add: process_single_workflow_def exec_simps stmt_start_workflow_eq)
qed

text \<open>
  C2: processing a workflow never fails and does what its specification says: a pending workflow
  becomes running, and the verdict on the states of its steps, if there is one, is written with
  the time of completion. Nothing else of the database changes.
\<close>

theorem process_single_workflow_spec:
  "process_single_workflow X clk run_id d =
     (Inr (), case wf_verdict (map st_state (steps_of run_id d)) of
                None \<Rightarrow> mark_started clk run_id d
              | Some st \<Rightarrow> finish_workflow X clk run_id st (mark_started clk run_id d))"
  by (rule process_single_workflow_eq)

text \<open>
  A workflow that was cancelled does not stay cancelled: once its steps are all completed,
  processing it overwrites the state with \<open>completed\<close>.
\<close>

lemma cancelled_overwritten:
  assumes "r \<in> set (workflows d)" "wf_run_id r = run_id" "wf_state r = ''cancelled''"
    and "steps_of run_id d \<noteq> []" "\<forall>p \<in> set (steps_of run_id d). st_state p = ''completed''"
  shows "finish_row X clk Completed r \<in> set (workflows (snd (process_single_workflow X clk run_id d))) \<and>
    wf_state (finish_row X clk Completed r) = ''completed''"
proof -
  have verdict: "wf_verdict (map st_state (steps_of run_id d)) = Some Completed"
    using assms(4,5) by (auto simp: wf_verdict_def)
  have "r \<in> set (workflows (mark_started clk run_id d))"
    using assms(1,3) by (auto simp: mark_started_def set_update_where intro!: bexI [of _ r])
  then have "finish_row X clk Completed r \<in> set (workflows (finish_workflow X clk run_id Completed (mark_started clk run_id d)))"
    using assms(2) by (auto simp: finish_workflow_def set_update_where intro!: bexI [of _ r])
  then show ?thesis
    by (simp add: process_single_workflow_eq verdict finish_row_def workflow_state_to_str_def)
qed

section \<open>Exponential delays\<close>

lemma powi2_small:
  assumes "unat e < 2 ^ 31"
  shows "powi2 e = 2 ^ unat e"
proof -
  have "uint e < 2 ^ 31"
    using assms by (simp add: unat_eq_nat_uint nat_less_iff del: nat_uint_eq)
  moreover have "- (2 ^ 31) \<le> uint e"
    by (rule order_trans [of _ 0]) simp_all
  ultimately have "signed_take_bit (32 - 1) (uint e) = uint e"
    by (intro signed_take_bit_int_eq_self) simp_all
  then have "sint e = int (unat e)" by (simp add: sint_uint)
  then show ?thesis by (simp add: powi2_def)
qed

text \<open>
  The delay before a retry doubles with every attempt: it is the initial interval times two
  to the exponent, as long as that fits an \<open>i64\<close>.
\<close>

lemma backoff_value:
  assumes "initial_interval_secs p = of_nat k" "unat e < 2 ^ 31" "int (k * 2 ^ unat e) \<le> i64_max"
  shows "backoff_secs p e = int (k * 2 ^ unat e)"
proof -
  have "initial_interval_secs p * powi2 e = of_int (int (k * 2 ^ unat e))"
    using assms(1,2) by (simp add: powi2_small)
  then show ?thesis
    using assms(3) unfolding backoff_secs_def f64_as_i64_def Let_def
    by (simp only: floor_of_int of_int_0_le_iff of_nat_0_le_iff if_True)
      (intro trans [OF max_absorb2 min_absorb2], simp_all add: i64_min_def i64_max_def order_trans [of _ 0])
qed

text \<open>
  Whatever the attempt, the delay is not negative, fits an \<open>i64\<close>, and does not shrink when the
  exponent grows within the range in which \<open>as i32\<close> is not negative.
\<close>

lemma backoff_bounds:
  assumes "0 \<le> initial_interval_secs p"
  shows "0 \<le> backoff_secs p e \<and> backoff_secs p e \<le> i64_max \<and>
    (unat e \<le> unat f \<and> unat f < 2 ^ 31 \<longrightarrow> backoff_secs p e \<le> backoff_secs p f)"
proof -
  have "0 \<le> powi2 e" by (simp add: powi2_def Let_def)
  with assms have "0 \<le> backoff_secs p e"
    unfolding backoff_secs_def by (intro f64_as_i64_nonneg) simp
  moreover have "backoff_secs p e \<le> i64_max"
    using f64_as_i64_range by (simp add: backoff_secs_def)
  moreover have "backoff_secs p e \<le> backoff_secs p f" if "unat e \<le> unat f" "unat f < 2 ^ 31"
    unfolding backoff_secs_def
    using that assms by (intro f64_as_i64_mono mult_left_mono) (simp_all add: powi2_small power_increasing)
  ultimately show ?thesis by blast
qed

section \<open>Heartbeat timeouts\<close>

text \<open>
  A heartbeat timeout of a running activity below its limit of attempts marks the activity
  failed, sends the step back to \<open>pending\<close> with its attempt number unchanged and not before the
  backoff delay, and sets a timer for that time.
\<close>

lemma heartbeat_timeout_retries:
  assumes act: "find (\<lambda>r. ac_id r = aid) (activities (srv_db s)) = Some a" "ac_state a = ''running''"
    and att: "ac_attempt a = u32_as_i64 n"
    and step: "find (\<lambda>r. st_id r = ac_step_id a) (workflow_steps (srv_db s)) = Some r"
    and policy: "retry_from_str X (st_retry_policy_json r) = Some p" "n < maximum_attempts p"
    and delay: "add_secs X (utc_now clk) (backoff_secs p (saturating_sub1 n)) = Some t"
  shows "handle_heartbeat_timeout X clk aid s =
    (Inr (), s\<lparr>srv_db := (srv_db s)\<lparr>
       activities := update_where (\<lambda>x. ac_id x = aid)
          (activity_update X clk Activity_Failed None (Some ''Heartbeat timeout'')) (activities (srv_db s)),
       workflow_steps := update_where (\<lambda>x. st_id x = ac_step_id a)
          (step_update X Pending (Some n) None (Some t)) (workflow_steps (srv_db s))\<rparr>,
     srv_timers := srv_timers s @ [(timer_deadline clk t, RetryDue (ac_step_id a))]\<rparr>)"
proof -
  have n: "get_u32_or_default (ac_attempt a) = n"
    using uint_bounded [of n]
    by (simp add: get_u32_or_default_def att u32_as_i64_def)
  show ?thesis
    using act step policy delay
    by (simp add: handle_heartbeat_timeout_def exec_simps query_row_def n
        retry_policy_or_default_def update_activity_state_eq update_step_state_eq schedule_retry_timer_def)
qed

end
