(* ===== verification/Grpc_Schedule.thy ===== *)
theory Grpc_Schedule
  imports Server_State
begin

text \<open>
  \<open>ScheduleService\<close> of \<open>server/src/grpc.rs\<close> and the conversions between proto messages and
  core types. A proto message is a record; a proto map is the list of its entries.
\<close>

record PScheduleSpec =
  ps_spec_type :: string
  ps_cron_expressions :: "string list"
  ps_interval_spec :: "u64 option"

record PTimeouts =
  pt_execution_timeout_secs :: u64
  pt_run_timeout_secs :: u64
  pt_task_timeout_secs :: u64

record PWorkflowAction =
  pwa_workflow_name :: string
  pwa_args :: smap
  pwa_task_queue :: string
  pwa_id :: string
  pwa_timeouts :: "PTimeouts option"

record CreateScheduleRequest =
  csr_schedule_id :: string
  csr_namespace :: string
  csr_spec :: "PScheduleSpec option"
  csr_action :: "PWorkflowAction option"
  csr_policy :: "string option"

record UpdateScheduleRequest =
  usr_schedule_id :: string
  usr_namespace :: string
  usr_spec :: "PScheduleSpec option"

record PScheduleInfo =
  psi_schedule_id :: string
  psi_namespace :: string
  psi_spec :: "PScheduleSpec option"
  psi_action :: "PWorkflowAction option"
  psi_policy :: "string option"
  psi_created_at :: string

section \<open>Conversions\<close>

definition core_spec_of_proto :: "PScheduleSpec \<Rightarrow> status + ScheduleSpec" where
  "core_spec_of_proto spec =
     (if ps_spec_type spec = ''cron'' then Inr (Cron (ps_cron_expressions spec))
      else if ps_spec_type spec = ''interval'' then
        (case ps_interval_spec spec of
           Some secs \<Rightarrow> Inr (Interval (duration_from_secs secs))
         | None \<Rightarrow> Inl (InvalidArgument ''interval seconds required for interval spec''))
      else Inl (InvalidArgument (''unknown spec_type: '' @ ps_spec_type spec)))"

definition core_policy_of_proto :: "string option \<Rightarrow> status + OverlapPolicy" where
  "core_policy_of_proto p =
     (let s = (case p of None \<Rightarrow> [] | Some s \<Rightarrow> s) in
      if s = ''skip'' \<or> s = [] then Inr Skip
      else if s = ''buffer'' then Inr (Buffer 1)
      else if s = ''terminate'' then Inr TerminateExisting
      else Inl (InvalidArgument (''unknown policy: '' @ s)))"

definition nonzero_secs :: "u64 \<Rightarrow> u64 option" where
  "nonzero_secs n = (if n = 0 then None else Some n)"

definition core_timeouts_of_proto :: "PTimeouts option \<Rightarrow> Timeouts" where
  "core_timeouts_of_proto t =
     (case t of
        Some t \<Rightarrow> \<lparr>execution_timeout_secs = nonzero_secs (pt_execution_timeout_secs t),
                   run_timeout_secs = nonzero_secs (pt_run_timeout_secs t),
                   task_timeout_secs = nonzero_secs (pt_task_timeout_secs t)\<rparr>
      | None \<Rightarrow> timeouts_default)"

definition schedule_spec_to_proto :: "ScheduleSpec \<Rightarrow> PScheduleSpec" where
  "schedule_spec_to_proto spec =
     (case spec of
        Cron exprs \<Rightarrow> \<lparr>ps_spec_type = ''cron'', ps_cron_expressions = exprs, ps_interval_spec = None\<rparr>
      | Interval dur \<Rightarrow> \<lparr>ps_spec_type = ''interval'', ps_cron_expressions = [],
                         ps_interval_spec = Some (duration_as_secs dur)\<rparr>)"

definition secs_or_zero :: "u64 option \<Rightarrow> u64" where
  "secs_or_zero v = (case v of None \<Rightarrow> 0 | Some n \<Rightarrow> n)"

definition workflow_action_to_proto :: "WorkflowAction \<Rightarrow> PWorkflowAction" where
  "workflow_action_to_proto a = \<lparr>
     pwa_workflow_name = wa_workflow_name a,
     pwa_args = wa_args a,
     pwa_task_queue = wa_task_queue a,
     pwa_id = wa_id a,
     pwa_timeouts = Some \<lparr>
       pt_execution_timeout_secs = secs_or_zero (execution_timeout_secs (wa_timeouts a)),
       pt_run_timeout_secs = secs_or_zero (run_timeout_secs (wa_timeouts a)),
       pt_task_timeout_secs = secs_or_zero (task_timeout_secs (wa_timeouts a))\<rparr>\<rparr>"

definition overlap_policy_to_proto :: "OverlapPolicy \<Rightarrow> string" where
  "overlap_policy_to_proto p =
     (case p of Skip \<Rightarrow> ''skip'' | Buffer _ \<Rightarrow> ''buffer'' | TerminateExisting \<Rightarrow> ''terminate'')"

section \<open>The service\<close>

definition default_namespace :: "string \<Rightarrow> string" where
  "default_namespace ns = (if ns = [] then ''default'' else ns)"

text \<open>The conversion of the request, before the database is opened: the first error ends it.\<close>

definition schedule_of_request :: "clock \<Rightarrow> CreateScheduleRequest \<Rightarrow> status + Schedule" where
  "schedule_of_request clk req =
     bindS (option_to_sum (InvalidArgument ''spec is required'') (csr_spec req)) (\<lambda>spec.
     bindS (option_to_sum (InvalidArgument ''action is required'') (csr_action req)) (\<lambda>action.
     bindS (core_spec_of_proto spec) (\<lambda>schedule_spec.
     bindS (core_policy_of_proto (csr_policy req)) (\<lambda>policy.
     Inr \<lparr>sc_schedule_id = csr_schedule_id req,
         sc_namespace = csr_namespace req,
         sc_spec = schedule_spec,
         sc_action = \<lparr>wa_workflow_name = pwa_workflow_name action,
                      wa_args = btree_collect (pwa_args action),
                      wa_task_queue = pwa_task_queue action,
                      wa_id = pwa_id action,
                      wa_timeouts = core_timeouts_of_proto (pwa_timeouts action)\<rparr>,
         sc_policy = policy,
         sc_created_at = utc_now clk,
         sc_updated_at = utc_now clk\<rparr>))))"

definition create_schedule :: "ext \<Rightarrow> clock \<Rightarrow> CreateScheduleRequest \<Rightarrow> (server, status, string) exec" where
  "create_schedule X clk req =
     andThen (readE (\<lambda>_. schedule_of_request clk req)) (\<lambda>schedule.
     andThen (mapErr (Internal ''Failed to create schedule'') (with_db (insert_schedule X clk schedule))) (\<lambda>_.
     andThen (notify_engine ScheduleChange) (\<lambda>_. okE (csr_schedule_id req))))"

definition update_schedule :: "ext \<Rightarrow> clock \<Rightarrow> UpdateScheduleRequest \<Rightarrow> (server, status, bool) exec" where
  "update_schedule X clk req =
     andThen (readE (\<lambda>_. option_to_sum (InvalidArgument ''spec is required'') (usr_spec req))) (\<lambda>spec.
     andThen (mapErr (Internal ''Failed to get schedule'') (with_db (get_schedule X (usr_schedule_id req)))) (\<lambda>found.
     andThen (readE (\<lambda>_. option_to_sum (NotFoundStatus ''Schedule not found'') found)) (\<lambda>existing.
     andThen (readE (\<lambda>_. core_spec_of_proto spec)) (\<lambda>new_spec.
     andThen (mapErr (Internal ''Failed to update schedule'')
                (with_db (update_schedule_spec X clk (usr_schedule_id req) (usr_namespace req)
                   (existing\<lparr>sc_spec := new_spec, sc_updated_at := utc_now clk\<rparr>)))) (\<lambda>_.
     andThen (notify_engine ScheduleChange) (\<lambda>_. okE True))))))"

definition delete_schedule_rpc :: "string \<Rightarrow> string \<Rightarrow> (server, status, bool) exec" where
  "delete_schedule_rpc schedule_id namespace =
     andThen (mapErr (Internal ''Failed to delete schedule'')
                (with_db (delete_schedule schedule_id namespace))) (\<lambda>rows.
     andThen (notify_engine ScheduleChange) (\<lambda>_. okE (0 < rows)))"

definition list_schedules_rpc :: "ext \<Rightarrow> string \<Rightarrow> (server, status, PScheduleInfo list) exec" where
  "list_schedules_rpc X namespace =
     andThen (mapErr (Internal ''Failed to list schedules'')
                (with_db (list_schedules X (default_namespace namespace)))) (\<lambda>scheds.
     okE (map (\<lambda>s. \<lparr>
            psi_schedule_id = sc_schedule_id s,
            psi_namespace = sc_namespace s,
            psi_spec = Some (schedule_spec_to_proto (sc_spec s)),
            psi_action = Some (workflow_action_to_proto (sc_action s)),
            psi_policy = Some (overlap_policy_to_proto (sc_policy s)),
            psi_created_at = fmt_time X (sc_created_at s)\<rparr>) scheds))"

context db_client
begin

lemma keeps_create_schedule: "keeps (on_db I) (create_schedule X clk req)"
  unfolding create_schedule_def by (intro inv_rules schedule_rules)

lemma keeps_update_schedule: "keeps (on_db I) (update_schedule X clk req)"
  unfolding update_schedule_def by (intro inv_rules schedule_rules)

lemma keeps_delete_schedule_rpc: "keeps (on_db I) (delete_schedule_rpc sid ns)"
  unfolding delete_schedule_rpc_def by (intro inv_rules schedule_rules)

lemma keeps_list_schedules_rpc: "keeps (on_db I) (list_schedules_rpc X ns)"
  unfolding list_schedules_rpc_def by (intro inv_rules)

end

section \<open>Conversions there and back\<close>

text \<open>The proto form of a spec reads back as the spec, up to the fraction of a second.\<close>

lemma core_spec_of_proto_to_proto: "core_spec_of_proto (schedule_spec_to_proto spec) = Inr (stored_spec spec)"
  by (cases spec) (simp_all add: core_spec_of_proto_def schedule_spec_to_proto_def stored_spec_def)

lemma core_policy_of_proto_to_proto: "core_policy_of_proto (Some (overlap_policy_to_proto p)) = Inr (stored_policy p)"
  by (cases p) (simp_all add: core_policy_of_proto_def overlap_policy_to_proto_def stored_policy_def)

lemma core_timeouts_of_proto_to_proto:
  assumes "0 \<notin> set_option (execution_timeout_secs t) \<union> set_option (run_timeout_secs t) \<union> set_option (task_timeout_secs t)"
  shows "core_timeouts_of_proto (pwa_timeouts (workflow_action_to_proto (a\<lparr>wa_timeouts := t\<rparr>))) = t"
  using assms
  by (cases t; cases "execution_timeout_secs t"; cases "run_timeout_secs t"; cases "task_timeout_secs t")
    (auto simp: core_timeouts_of_proto_def workflow_action_to_proto_def secs_or_zero_def nonzero_secs_def)

section \<open>Creating, reading, updating and deleting\<close>

lemma schedule_of_request_id: "schedule_of_request clk req = Inr sch \<Longrightarrow> sc_schedule_id sch = csr_schedule_id req"
  by (auto simp: schedule_of_request_def bindS_def option_to_sum_def split: option.splits sum.splits)

lemma create_schedule_eq:
  "create_schedule X clk req s =
     (case schedule_of_request clk req of
        Inl e \<Rightarrow> (Inl e, s)
      | Inr sch \<Rightarrow>
          (if sc_schedule_id sch \<in> sr_schedule_id ` set (schedules (srv_db s))
           then (Inl (Internal ''Failed to create schedule'' (SqlErr UniqueConstraint)), s)
           else (Inr (sc_schedule_id sch),
                 snd (notify_engine ScheduleChange
                   (s\<lparr>srv_db := (srv_db s)\<lparr>schedules := schedules (srv_db s) @ [schedule_to_row X clk sch]\<rparr>\<rparr>) :: (status + unit) \<times> server))))"
  by (auto simp: create_schedule_def exec_simps insert_schedule_eq schedule_of_request_id split: sum.split)

text \<open>
  What the service promises, in terms of the message and of the columns: which messages are accepted, and the row that
  an accepted one becomes. An empty policy means \<open>skip\<close>, a timeout of zero means none.
\<close>

definition spec_accepted :: "PScheduleSpec \<Rightarrow> bool" where
  "spec_accepted spec \<longleftrightarrow> ps_spec_type spec = ''cron'' \<or> ps_spec_type spec = ''interval'' \<and> ps_interval_spec spec \<noteq> None"

definition policy_accepted :: "string option \<Rightarrow> bool" where
  "policy_accepted p \<longleftrightarrow> p \<in> {None, Some [], Some ''skip'', Some ''buffer'', Some ''terminate''}"

definition request_row :: "ext \<Rightarrow> clock \<Rightarrow> CreateScheduleRequest \<Rightarrow> PScheduleSpec \<Rightarrow> PWorkflowAction \<Rightarrow> sched_row" where
  "request_row X clk req spec action =
     (let seconds = (\<lambda>get. Option.bind (pwa_timeouts action) (\<lambda>t. if get t = 0 then None else Some (get t))) in
      \<lparr>sr_schedule_id = csr_schedule_id req,
       sr_namespace = csr_namespace req,
       sr_spec_type = ps_spec_type spec,
       sr_cron_expressions = (if ps_spec_type spec = ''cron'' then Some (strs_to_string X (ps_cron_expressions spec)) else None),
       sr_interval_seconds = (if ps_spec_type spec = ''cron'' then None else map_option u64_as_i64 (ps_interval_spec spec)),
       sr_overlap_policy = (if csr_policy req \<in> {None, Some []} then ''skip'' else the (csr_policy req)),
       sr_action_workflow_name = pwa_workflow_name action,
       sr_action_task_queue = pwa_task_queue action,
       sr_action_args_json = smap_to_string X (btree_collect (pwa_args action)),
       sr_action_id = Some (pwa_id action),
       sr_timeouts_json = timeouts_to_string X
         \<lparr>execution_timeout_secs = seconds pt_execution_timeout_secs, run_timeout_secs = seconds pt_run_timeout_secs,
          task_timeout_secs = seconds pt_task_timeout_secs\<rparr>,
       sr_created_at = sql_now clk,
       sr_updated_at = sql_now clk\<rparr>)"

lemma core_spec_accepted:
  assumes "spec_accepted spec"
  shows "\<exists>sp. core_spec_of_proto spec = Inr sp \<and> spec_columns X sp =
    (ps_spec_type spec, if ps_spec_type spec = ''cron'' then Some (strs_to_string X (ps_cron_expressions spec)) else None,
     if ps_spec_type spec = ''cron'' then None else map_option u64_as_i64 (ps_interval_spec spec))"
proof (cases "ps_spec_type spec = ''cron''")
  case False
  with assms obtain secs where "ps_spec_type spec = ''interval''" "ps_interval_spec spec = Some secs"
    by (auto simp: spec_accepted_def)
  then show ?thesis by (simp add: core_spec_of_proto_def spec_columns_def)
qed (simp add: core_spec_of_proto_def spec_columns_def)

lemma core_spec_refused:
  "\<not> spec_accepted spec \<Longrightarrow> core_spec_of_proto spec = Inl (InvalidArgument
     (if ps_spec_type spec = ''interval'' then ''interval seconds required for interval spec'' else ''unknown spec_type: '' @ ps_spec_type spec))"
  by (simp add: spec_accepted_def core_spec_of_proto_def split: option.split)

lemma core_policy_accepted:
  "policy_accepted p \<Longrightarrow> \<exists>pol. core_policy_of_proto p = Inr pol \<and>
     policy_column pol = (if p \<in> {None, Some []} then ''skip'' else the p)"
  unfolding policy_accepted_def insert_iff empty_iff
  by (elim disjE) (simp_all add: core_policy_of_proto_def policy_column_def)

lemma core_policy_refused:
  "\<not> policy_accepted p \<Longrightarrow> core_policy_of_proto p = Inl (InvalidArgument (''unknown policy: '' @ the p))"
  by (cases p) (simp_all add: policy_accepted_def core_policy_of_proto_def)

lemma core_timeouts_columns:
  "core_timeouts_of_proto t =
     (let seconds = (\<lambda>get. Option.bind t (\<lambda>t. if get t = 0 then None else Some (get t))) in
      \<lparr>execution_timeout_secs = seconds pt_execution_timeout_secs, run_timeout_secs = seconds pt_run_timeout_secs,
       task_timeout_secs = seconds pt_task_timeout_secs\<rparr>)"
  by (cases t) (simp_all add: core_timeouts_of_proto_def nonzero_secs_def timeouts_default_def)

lemma request_row_stored:
  assumes "csr_spec req = Some spec" "csr_action req = Some action" "spec_accepted spec" "policy_accepted (csr_policy req)"
  shows "\<exists>sch. schedule_of_request clk req = Inr sch \<and> schedule_to_row X clk sch = request_row X clk req spec action"
proof -
  obtain sp pol where "core_spec_of_proto spec = Inr sp" "core_policy_of_proto (csr_policy req) = Inr pol"
    and columns: "spec_columns X sp = (ps_spec_type spec,
       if ps_spec_type spec = ''cron'' then Some (strs_to_string X (ps_cron_expressions spec)) else None,
       if ps_spec_type spec = ''cron'' then None else map_option u64_as_i64 (ps_interval_spec spec))"
      "policy_column pol = (if csr_policy req \<in> {None, Some []} then ''skip'' else the (csr_policy req))"
    using core_spec_accepted [OF assms(3), of X] core_policy_accepted [OF assms(4)] by (elim exE conjE)
  then show ?thesis
    using assms(1,2)
    by (simp add: schedule_of_request_def schedule_to_row_def request_row_def Let_def) (simp add: columns core_timeouts_columns Let_def)
qed

text \<open>
  C32: \<open>CreateSchedule\<close> refuses a request without a spec, without an action, with an unknown type of spec, with an interval spec
  that gives no interval, or with an unknown policy, with the first of these errors, and a name that is taken, in whatever
  namespace, with a constraint error; it changes nothing then. It accepts every other request: it appends the one row whose
  columns are those of the message, tells the engine, and answers with the name.
\<close>

theorem create_schedule_spec:
  "(csr_spec req = None \<longrightarrow> create_schedule X clk req s = (Inl (InvalidArgument ''spec is required''), s)) \<and>
   (\<forall>spec. csr_spec req = Some spec \<and> csr_action req = None \<longrightarrow>
      create_schedule X clk req s = (Inl (InvalidArgument ''action is required''), s)) \<and>
   (\<forall>spec action. csr_spec req = Some spec \<and> csr_action req = Some action \<longrightarrow>
      create_schedule X clk req s =
       (if \<not> spec_accepted spec \<and> ps_spec_type spec = ''interval''
        then (Inl (InvalidArgument ''interval seconds required for interval spec''), s)
        else if \<not> spec_accepted spec then (Inl (InvalidArgument (''unknown spec_type: '' @ ps_spec_type spec)), s)
        else if \<not> policy_accepted (csr_policy req) then (Inl (InvalidArgument (''unknown policy: '' @ the (csr_policy req))), s)
        else if csr_schedule_id req \<in> sr_schedule_id ` set (schedules (srv_db s))
        then (Inl (Internal ''Failed to create schedule'' (SqlErr UniqueConstraint)), s)
        else (Inr (csr_schedule_id req),
              s\<lparr>srv_db := (srv_db s)\<lparr>schedules := schedules (srv_db s) @ [request_row X clk req spec action]\<rparr>,
                srv_events := srv_events s @ (if srv_engine_tx s then [ScheduleChange] else [])\<rparr>)))"
proof (cases "csr_spec req"; cases "csr_action req")
  fix spec action assume a: "csr_spec req = Some spec" "csr_action req = Some action"
  show ?thesis
  proof (cases "spec_accepted spec \<and> policy_accepted (csr_policy req)")
    case True
    then obtain sch where "schedule_of_request clk req = Inr sch" "schedule_to_row X clk sch = request_row X clk req spec action"
      using request_row_stored [OF a] by blast
    with True a show ?thesis by (simp add: create_schedule_eq schedule_of_request_id notify_engine_def)
  next
    case False
    have "\<exists>sp. core_spec_of_proto spec = Inr sp" if "spec_accepted spec" using core_spec_accepted [OF that] by blast
    with False a show ?thesis
      by (cases "spec_accepted spec") (auto simp: create_schedule_eq schedule_of_request_def core_spec_refused core_policy_refused)
  qed
qed (simp_all add: create_schedule_eq schedule_of_request_def)

definition sample_create :: CreateScheduleRequest where
  "sample_create = \<lparr>csr_schedule_id = ''nightly'', csr_namespace = ''default'',
     csr_spec = Some \<lparr>ps_spec_type = ''interval'', ps_cron_expressions = [], ps_interval_spec = Some 60\<rparr>,
     csr_action = Some \<lparr>pwa_workflow_name = ''job'', pwa_args = [], pwa_task_queue = ''default'', pwa_id = [], pwa_timeouts = None\<rparr>,
     csr_policy = Some ''buffer''\<rparr>"

definition sample_created :: Schedule where
  "sample_created = \<lparr>sc_schedule_id = ''nightly'', sc_namespace = ''default'', sc_spec = Interval 60000000000,
     sc_action = \<lparr>wa_workflow_name = ''job'', wa_args = [], wa_task_queue = ''default'', wa_id = [], wa_timeouts = timeouts_default\<rparr>,
     sc_policy = Buffer 1, sc_created_at = 1000 * nanos_per_sec, sc_updated_at = 1000 * nanos_per_sec\<rparr>"

lemma sample_create_valid: "schedule_of_request sample_clock sample_create = Inr sample_created"
  by (simp add: schedule_of_request_def option_to_sum_def bindS_def sample_create_def sample_created_def core_spec_of_proto_def core_policy_of_proto_def
      core_timeouts_of_proto_def btree_collect_def btree_extend_def sample_clock_def duration_from_secs_def)

theorem create_schedule_spec_witness:
  "fst (create_schedule ref_ext sample_clock sample_create init_server) = Inr ''nightly'' \<and>
   map sr_interval_seconds (schedules (srv_db (snd (create_schedule ref_ext sample_clock sample_create init_server)))) = [Some 60] \<and>
   map sr_overlap_policy (schedules (srv_db (snd (create_schedule ref_ext sample_clock sample_create init_server)))) = [''buffer'']"
  using create_schedule_spec [of sample_create ref_ext sample_clock init_server]
  by (simp add: init_server_def migrate_def sample_create_def spec_accepted_def policy_accepted_def request_row_def u64_as_i64_def)

text \<open>
  C33: what \<open>CreateSchedule\<close> stores can be read back: \<open>get_schedule\<close> returns the schedule of the request, except
  that the bound of a buffer is 1, an interval keeps only whole seconds, and the timestamps are the
  database's.
\<close>

theorem create_then_get_schedule:
  assumes "schedule_of_request clk req = Inr sch" "csr_schedule_id req \<notin> sr_schedule_id ` set (schedules (srv_db s))"
    and "schedule_text_ok X clk t sch"
  shows "fst (get_schedule X (csr_schedule_id req) (srv_db (snd (create_schedule X clk req s)))) = Inr (Some (stored_schedule t sch))"
proof -
  have id: "sc_schedule_id sch = csr_schedule_id req" by (rule schedule_of_request_id [OF assms(1)])
  have none: "find (\<lambda>r. sr_schedule_id r = csr_schedule_id req) (schedules (srv_db s)) = None"
    using assms(2) by (simp add: find_None_iff image_iff) metis
  show ?thesis
    using assms sched_codec.decode_encode [OF assms(3)]
    by (simp add: create_schedule_eq id notify_engine_def get_schedule_def exec_simps find_append none)
qed

theorem create_then_get_schedule_witness:
  "fst (get_schedule ref_ext ''nightly'' (srv_db (snd (create_schedule ref_ext sample_clock sample_create init_server)))) =
     Inr (Some (stored_schedule (1000 * nanos_per_sec) sample_created))"
proof -
  have "schedule_text_ok ref_ext sample_clock (1000 * nanos_per_sec) sample_created"
    by (simp add: schedule_text_ok_def sample_created_def sample_clock_def) (simp add: ref_ext_def digits_val_def)
  then show ?thesis
    using create_then_get_schedule [of sample_clock sample_create sample_created init_server ref_ext "1000 * nanos_per_sec"] sample_create_valid
    by (simp add: init_server_def migrate_def sample_create_def)
qed

text \<open>
  \<open>UpdateSchedule\<close> for an existing schedule with another namespace than the schedule's reports
  success and changes no schedule.
\<close>

lemma update_schedule_wrong_namespace:
  assumes "usr_spec req = Some spec" "core_spec_of_proto spec = Inr new_spec"
    and "fst (get_schedule X (usr_schedule_id req) (srv_db s)) = Inr (Some existing)"
    and "\<forall>r \<in> set (schedules (srv_db s)). sr_schedule_id r = usr_schedule_id req \<longrightarrow> sr_namespace r \<noteq> usr_namespace req"
  shows "fst (update_schedule X clk req s) = Inr True \<and> srv_db (snd (update_schedule X clk req s)) = srv_db s"
proof -
  have get: "get_schedule X (usr_schedule_id req) (srv_db s) = (Inr (Some existing), srv_db s)"
    using assms(3) by (simp add: get_schedule_def readE_def)
  have none: "filter (\<lambda>r. sr_schedule_id r = usr_schedule_id req \<and> sr_namespace r = usr_namespace req) (schedules (srv_db s)) = []"
    using assms(4) by (auto simp: filter_empty_conv)
  have same: "update_where (\<lambda>r. sr_schedule_id r = usr_schedule_id req \<and> sr_namespace r = usr_namespace req) f (schedules (srv_db s)) = schedules (srv_db s)" for f
    using assms(4) by (intro update_where_noop) auto
  show ?thesis
    using assms(1,2)
    by (simp add: update_schedule_def exec_simps get update_schedule_spec_def exec_update_schedules_def sql_update_def none same
        split: prod.split)
qed

text \<open>
  \<open>DeleteSchedule\<close> answers whether a schedule of that name and namespace existed, removes it, and
  keeps every other schedule in order.
\<close>

lemma delete_schedule_spec:
  "fst (delete_schedule_rpc sid ns s) = Inr (\<exists>r \<in> set (schedules (srv_db s)). sr_schedule_id r = sid \<and> sr_namespace r = ns) \<and>
   schedules (srv_db (snd (delete_schedule_rpc sid ns s))) =
     filter (\<lambda>r. \<not> (sr_schedule_id r = sid \<and> sr_namespace r = ns)) (schedules (srv_db s))"
  by (simp add: delete_schedule_rpc_def exec_simps delete_schedule_def exec_delete_schedules_def count_where_pos)

end
