(* ===== verification/Grpc_Worker.thy ===== *)
theory Grpc_Worker
  imports Engine
begin

text \<open>
  \<open>WorkerService\<close> of \<open>server/src/grpc.rs\<close>: workers poll for activities, report results and
  failures and send heartbeats. Each call holds the services' mutex from its first statement
  to its end, so the calls run one after the other; each is a computation on the server's state. \<open>u32\<close> additions wrap, as
  in the release build.
\<close>

record PollActivityRequest =
  pa_task_queue :: string
  pa_activity_types :: "string list"

record PollActivityResponse =
  pr_task :: "ActivityTask option"
  pr_has_task :: bool

text \<open>The string entries of a JSON object, as the proto's argument map.\<close>

definition json_str_args :: "json \<Rightarrow> smap" where
  "json_str_args v =
     (case v of
        JObject m \<Rightarrow> List.map_filter (\<lambda>(k, x). map_option (Pair k) (json_as_str x)) m
      | _ \<Rightarrow> [])"

definition activity_task_of :: "uuid \<Rightarrow> WorkflowStepInstance \<Rightarrow> ActivityTask" where
  "activity_task_of activity_id s = \<lparr>
     at_activity_id = activity_id,
     at_step_id = si_id s,
     at_workflow_run_id = si_workflow_run_id s,
     at_name = si_activity_name s,
     at_args = json_str_args (si_args_json s),
     at_retry_policy = si_retry_policy s,
     at_heartbeat_timeout_secs = (case si_heartbeat_timeout_secs s of None \<Rightarrow> 30 | Some n \<Rightarrow> n),
     at_start_to_close_timeout_secs = si_timeout_secs s\<rparr>"

text \<open>
  Handing a step out: the step becomes \<open>running\<close> with the next attempt number, the attempt is
  recorded, and the workflow's state is set to \<open>running\<close>.
\<close>

definition assign_step :: "ext \<Rightarrow> clock \<Rightarrow> uuid \<Rightarrow> WorkflowStepInstance \<Rightarrow> (db, status, unit) exec" where
  "assign_step X clk activity_id s =
     (let new_attempt = si_attempt s + 1 in
      andThen (mapErr (Internal ''Failed to update step state'')
                 (update_step_state X (si_id s) Running (Some new_attempt) None None)) (\<lambda>_.
      andThen (mapErr (Internal ''Failed to insert activity'')
                 (insert_activity_attempt clk activity_id (si_id s) new_attempt)) (\<lambda>_.
      ignoreErr (update_workflow_state X (si_workflow_run_id s) Running None (Some (utc_now clk))))))"

definition poll_activity ::
  "ext \<Rightarrow> clock \<Rightarrow> uuid \<Rightarrow> PollActivityRequest \<Rightarrow> (server, status, PollActivityResponse) exec" where
  "poll_activity X clk activity_id req =
     andThen (mapErr (Internal ''Failed to get pending steps'') (with_db (get_pending_steps X clk))) (\<lambda>pending_steps.
       case find (\<lambda>s. si_activity_name s \<in> set (pa_activity_types req)) pending_steps of
         Some s \<Rightarrow>
           andThen (with_db (assign_step X clk activity_id s))
             (\<lambda>_. okE \<lparr>pr_task = Some (activity_task_of activity_id s), pr_has_task = True\<rparr>)
       | None \<Rightarrow> okE \<lparr>pr_task = None, pr_has_task = False\<rparr>)"

definition report_activity_result ::
  "ext \<Rightarrow> clock \<Rightarrow> sqltext \<Rightarrow> string \<Rightarrow> (server, status, bool) exec" where
  "report_activity_result X clk activity_id result_text =
     andThen (if result_text = [] then okE (JObject [])
              else (case json_from_str X result_text of
                      Some v \<Rightarrow> okE v
                    | None \<Rightarrow> errE (InvalidArgument ''Invalid result JSON''))) (\<lambda>result_json.
     andThen (mapErr (Internal ''Failed to update activity'')
                (with_db (update_activity_state X clk activity_id Activity_Completed (Some result_json) None))) (\<lambda>_.
     andThen (mapErr (Internal ''Failed to find activity'')
                (with_db (query_row activities (\<lambda>r. ac_id r = activity_id) ac_step_id))) (\<lambda>step_id.
     andThen (mapErr (Internal ''Failed to update step'')
                (with_db (update_step_state X step_id Completed None (Some result_json) None))) (\<lambda>_.
     andThen (mapErr (Internal ''Failed to find step'')
                (with_db (query_row workflow_steps (\<lambda>r. st_id r = step_id) st_workflow_run_id))) (\<lambda>workflow_run_id.
     andThen (notify_engine (StepCompleted workflow_run_id)) (\<lambda>_. okE True))))))"

text \<open>The retry decision shared by the two failure reports.\<close>

definition retry_or_fail ::
  "ext \<Rightarrow> clock \<Rightarrow> sqltext \<Rightarrow> RetryPolicy \<Rightarrow> u32 \<Rightarrow> (db, status, bool) exec" where
  "retry_or_fail X clk step_id retry_policy current_attempt =
     (if current_attempt < maximum_attempts retry_policy then
        (case add_secs X (utc_now clk) (backoff_secs retry_policy (current_attempt - 1)) of
           None \<Rightarrow> errE HandlerPanic
         | Some next_retry_at \<Rightarrow>
             andThen (mapErr (Internal ''Failed to schedule retry'')
                        (update_step_state X step_id Pending (Some current_attempt) None (Some next_retry_at)))
               (\<lambda>_. okE True))
      else
        andThen (mapErr (Internal ''Failed to mark step as failed'')
                   (update_step_state X step_id Failed (Some current_attempt) None None))
          (\<lambda>_. okE False))"

definition report_activity_failure ::
  "ext \<Rightarrow> clock \<Rightarrow> sqltext \<Rightarrow> string \<Rightarrow> (server, status, bool) exec" where
  "report_activity_failure X clk activity_id error_message =
     andThen (mapErr (Internal ''Failed to find activity'')
                (with_db (query_row activities (\<lambda>r. ac_id r = activity_id)
                   (\<lambda>r. (ac_step_id r, i64_as_u32 (ac_attempt r)))))) (\<lambda>(step_id, attempt).
     andThen (mapErr (Internal ''Failed to get retry policy'')
                (with_db (query_row workflow_steps (\<lambda>r. st_id r = step_id) st_retry_policy_json))) (\<lambda>retry_policy_json.
     andThen (case retry_from_str X retry_policy_json of
                Some p \<Rightarrow> okE p
              | None \<Rightarrow> errE (Internal ''Invalid retry policy JSON'' SerdeErr)) (\<lambda>retry_policy.
     andThen (mapErr (Internal ''Failed to update activity'')
                (with_db (update_activity_state X clk activity_id Activity_Failed None (Some error_message)))) (\<lambda>_.
     andThen (with_db (retry_or_fail X clk step_id retry_policy (attempt + 1))) (\<lambda>_. okE True)))))"

definition heartbeat :: "clock \<Rightarrow> sqltext \<Rightarrow> (server, status, bool) exec" where
  "heartbeat clk activity_id =
     andThen (mapErr (Internal ''Failed to update heartbeat'') (with_db (heartbeat_update clk activity_id)))
       (\<lambda>_. okE True)"

context db_client
begin

lemma keeps_assign_step: "keeps I (assign_step X clk aid s)"
  unfolding assign_step_def by (intro inv_rules client_rules)

lemma keeps_poll_activity: "keeps (on_db I) (poll_activity X clk aid req)"
  unfolding poll_activity_def by (intro inv_rules keeps_assign_step)

lemma keeps_report_activity_result: "keeps (on_db I) (report_activity_result X clk aid txt)"
  unfolding report_activity_result_def by (intro inv_rules client_rules)

lemma keeps_retry_or_fail: "keeps I (retry_or_fail X clk sid p n)"
  unfolding retry_or_fail_def by (intro inv_rules client_rules)

lemma keeps_report_activity_failure: "keeps (on_db I) (report_activity_failure X clk aid msg)"
  unfolding report_activity_failure_def by (intro inv_rules client_rules keeps_retry_or_fail)

lemma keeps_heartbeat: "keeps (on_db I) (heartbeat clk aid)"
  unfolding heartbeat_def by (intro inv_rules client_rules)

end

section \<open>Polling\<close>

definition attempt_row :: "clock \<Rightarrow> uuid \<Rightarrow> sqltext \<Rightarrow> u32 \<Rightarrow> act_row" where
  "attempt_row clk aid sid n = \<lparr>
     ac_id = aid, ac_step_id = sid, ac_attempt = u32_as_i64 n, ac_state = ''running'',
     ac_started_at = Some (sql_now clk), ac_completed_at = None, ac_last_heartbeat_at = None,
     ac_result_json = None, ac_error_message = None\<rparr>"

lemma attempt_row_simps [simp]:
  "ac_id (attempt_row clk aid sid n) = aid" "ac_step_id (attempt_row clk aid sid n) = sid"
  "ac_attempt (attempt_row clk aid sid n) = u32_as_i64 n" "ac_state (attempt_row clk aid sid n) = ''running''"
  by (simp_all add: attempt_row_def)

text \<open>The database after a step is handed out.\<close>

definition assigned :: "ext \<Rightarrow> clock \<Rightarrow> uuid \<Rightarrow> WorkflowStepInstance \<Rightarrow> db \<Rightarrow> db" where
  "assigned X clk aid p d = d\<lparr>
     workflow_steps := update_where (\<lambda>r. st_id r = si_id p)
       (step_update X Running (Some (si_attempt p + 1)) None None) (workflow_steps d),
     activities := activities d @ [attempt_row clk aid (si_id p) (si_attempt p + 1)],
     workflows := update_where (\<lambda>r. wf_run_id r = si_workflow_run_id p) (finish_row X clk Running) (workflows d)\<rparr>"

lemma assign_step_eq:
  assumes "aid \<notin> ac_id ` set (activities d)" "si_id p \<in> st_id ` set (workflow_steps d)"
  shows "assign_step X clk aid p d = (Inr (), assigned X clk aid p d)"
proof -
  let ?d = "d\<lparr>workflow_steps := update_where (\<lambda>r. st_id r = si_id p)
       (step_update X Running (Some (si_attempt p + 1)) None None) (workflow_steps d)\<rparr>"
  have "si_id p \<in> st_id ` set (workflow_steps ?d)"
    using assms(2) by (simp add: image_update_where)
  with assms(1) have "insert_activity_attempt clk aid (si_id p) (si_attempt p + 1) ?d =
      (Inr (), ?d\<lparr>activities := activities d @ [attempt_row clk aid (si_id p) (si_attempt p + 1)]\<rparr>)"
    by (simp add: insert_activity_attempt_def exec_insert_activity_def act_check_def attempt_row_def)
  then show ?thesis
    by (simp add: assign_step_def exec_simps update_step_state_eq update_workflow_state_finish
        finish_workflow_def assigned_def Let_def)
qed

text \<open>
  C10: a poll hands out only what it may: the task is that of a stored step in the state
  \<open>pending\<close> that is ready now and whose activity is one of the types the worker asked for.
\<close>

theorem poll_activity_sound:
  assumes "poll_activity X clk aid req s = (Inr resp, s')" "pr_task resp = Some task"
  shows "\<exists>r \<in> set (workflow_steps (srv_db s)). st_state r = ''pending'' \<and> step_ready clk r \<and>
     st_activity_name r \<in> set (pa_activity_types req) \<and> at_name task = st_activity_name r \<and>
     uuid_parse X (st_id r) = Some (at_step_id task) \<and> at_activity_id task = aid"
proof -
  let ?rows = "order_by_asc st_created_at (filter (step_ready clk) (workflow_steps (srv_db s)))"
  obtain steps where steps: "mapM_sum (row_to_step X) ?rows = Inr steps"
    using assms(1) by (auto simp: poll_activity_def get_pending_steps_def exec_simps split: sum.splits)
  with assms obtain p where p: "find (\<lambda>p. si_activity_name p \<in> set (pa_activity_types req)) steps = Some p"
    and task: "task = activity_task_of aid p"
    by (auto simp: poll_activity_def get_pending_steps_def exec_simps split: sum.splits option.splits prod.splits)
  obtain r where r: "r \<in> set (workflow_steps (srv_db s))" "step_ready clk r" "row_to_step X r = Inr p"
    using mapM_sum_set [OF steps, of p] find_SomeD [OF p] by auto
  have "st_state r \<noteq> ''retried''" using row_to_step_retried [of r X] r(3) by auto
  then have "st_state r = ''pending''" using r(2) by (auto simp: step_ready_def)
  with r row_to_step_fields [OF r(3)] find_SomeD [OF p] show ?thesis
    by (intro bexI [OF _ r(1)]) (simp add: task activity_task_of_def)
qed

theorem poll_activity_sound_witness:
  "\<exists>resp s'. poll_activity ref_ext sample_clock ''a'' \<lparr>pa_task_queue = [], pa_activity_types = [''job'']\<rparr>
      (init_server\<lparr>srv_db := sample_db [] [sample_workflow ''r'' ''w'' ''running''] [sample_step ''s'' ''r'' 0 ''pending'' 0] []\<rparr>)
     = (Inr resp, s') \<and> pr_has_task resp \<and>
    (\<exists>r \<in> {sample_step ''s'' ''r'' 0 ''pending'' 0}. at_name (the (pr_task resp)) = st_activity_name r)"
proof -
  let ?req = "\<lparr>pa_task_queue = [], pa_activity_types = [''job'']\<rparr>"
  let ?s = "init_server\<lparr>srv_db := sample_db [] [sample_workflow ''r'' ''w'' ''running''] [sample_step ''s'' ''r'' 0 ''pending'' 0] []\<rparr>"
  obtain resp s' where run: "poll_activity ref_ext sample_clock ''a'' ?req ?s = (Inr resp, s')" "pr_has_task resp" "pr_task resp \<noteq> None"
    by (simp add: poll_activity_def get_pending_steps_def exec_simps sample_defs step_ready_def order_by_asc_def
        row_to_step_def ref_ext_def str_to_step_state_def json_read_def assign_step_eq)
  then obtain task where task: "pr_task resp = Some task" by auto
  have "set (workflow_steps (srv_db ?s)) = {sample_step ''s'' ''r'' 0 ''pending'' 0}" by (simp add: sample_db_def)
  with poll_activity_sound [OF run(1) task] run task show ?thesis by auto
qed

lemma poll_activity_eq:
  assumes "mapM_sum (row_to_step X) (order_by_asc st_created_at (filter (step_ready clk) (workflow_steps (srv_db s)))) = Inr steps"
    and "find (\<lambda>p. si_activity_name p \<in> set (pa_activity_types req)) steps = Some p"
    and "aid \<notin> ac_id ` set (activities (srv_db s))" "si_id p \<in> st_id ` set (workflow_steps (srv_db s))"
  shows "poll_activity X clk aid req s =
     (Inr \<lparr>pr_task = Some (activity_task_of aid p), pr_has_task = True\<rparr>, s\<lparr>srv_db := assigned X clk aid p (srv_db s)\<rparr>)"
  using assms by (simp add: poll_activity_def get_pending_steps_def exec_simps assign_step_eq)

text \<open>
  C12: the effect of a poll that finds a step: the step becomes \<open>running\<close> with its attempt number
  increased by one, one new running activity with that number is recorded, and the workflow's row
  is set to \<open>running\<close> with a completion time, whatever its state was.
\<close>

theorem poll_activity_effect:
  assumes "mapM_sum (row_to_step X) (order_by_asc st_created_at (filter (step_ready clk) (workflow_steps (srv_db s)))) = Inr steps"
    and "find (\<lambda>p. si_activity_name p \<in> set (pa_activity_types req)) steps = Some p"
    and "aid \<notin> ac_id ` set (activities (srv_db s))" "si_id p \<in> st_id ` set (workflow_steps (srv_db s))"
  shows "poll_activity X clk aid req s =
     (Inr \<lparr>pr_task = Some (activity_task_of aid p), pr_has_task = True\<rparr>, s\<lparr>srv_db := assigned X clk aid p (srv_db s)\<rparr>)"
  using assms by (rule poll_activity_eq)

definition sample_instance :: "uuid \<Rightarrow> uuid \<Rightarrow> WorkflowStepInstance" where
  "sample_instance sid run_id = \<lparr>
     si_id = sid, si_workflow_run_id = run_id, si_step_index = 0, si_activity_name = ''job'',
     si_args_json = JObject [], si_retry_policy = \<lparr>maximum_attempts = 3, initial_interval_secs = 2\<rparr>,
     si_timeout_secs = 300, si_heartbeat_timeout_secs = Some 60, si_state = Pending, si_attempt = 0,
     si_result_json = None, si_next_retry_at = None\<rparr>"

lemma sample_step_decodes:
  "row_to_step ref_ext (sample_step sid run_id 0 ''pending'' 0) = Inr (sample_instance sid run_id)"
  by (simp add: sample_step_def sample_instance_def row_to_step_def ref_ext_def str_to_step_state_def json_read_def
      digits_val_def i64_as_u64_def i64_as_u32_def)

lemma sample_step_ready: "step_ready clk (sample_step sid run_id i ''pending'' n)"
  by (simp add: step_ready_def sample_step_def)

theorem poll_activity_effect_witness:
  "fst (poll_activity ref_ext sample_clock ''a'' \<lparr>pa_task_queue = [], pa_activity_types = [''job'']\<rparr>
      (init_server\<lparr>srv_db := sample_db [] [sample_workflow ''r'' ''w'' ''running''] [sample_step ''s'' ''r'' 0 ''pending'' 0] []\<rparr>))
   = Inr \<lparr>pr_task = Some (activity_task_of ''a'' (sample_instance ''s'' ''r'')), pr_has_task = True\<rparr>"
proof -
  let ?s = "init_server\<lparr>srv_db := sample_db [] [sample_workflow ''r'' ''w'' ''running''] [sample_step ''s'' ''r'' 0 ''pending'' 0] []\<rparr>"
  show ?thesis
    using poll_activity_effect [of ref_ext sample_clock ?s "[sample_instance ''s'' ''r'']"
        "\<lparr>pa_task_queue = [], pa_activity_types = [''job'']\<rparr>" "sample_instance ''s'' ''r''" "''a''"]
    by (simp add: sample_db_def order_by_asc_def sample_step_decodes sample_step_ready)
      (simp add: sample_instance_def sample_step_def)
qed

text \<open>
  One ready step whose row cannot be read makes every poll fail, whatever the worker asks for,
  and nothing is handed out.
\<close>

lemma poll_activity_blocked:
  assumes "r \<in> set (workflow_steps (srv_db s))" "step_ready clk r" "row_to_step X r = Inl e"
  shows "\<exists>e'. poll_activity X clk aid req s = (Inl (Internal ''Failed to get pending steps'' e'), s)"
proof -
  obtain e' where "mapM_sum (row_to_step X) (order_by_asc st_created_at (filter (step_ready clk) (workflow_steps (srv_db s)))) = Inl e'"
    using mapM_sum_Inl [of r "order_by_asc st_created_at (filter (step_ready clk) (workflow_steps (srv_db s)))" "row_to_step X" e] assms
    by auto
  then show ?thesis by (simp add: poll_activity_def get_pending_steps_def exec_simps)
qed

section \<open>Reports\<close>

text \<open>
  A heartbeat succeeds exactly for an activity that is running, and then records the time;
  for any other identifier it fails and changes nothing.
\<close>

lemma heartbeat_iff_running:
  "heartbeat clk aid s =
     (if \<exists>a \<in> set (activities (srv_db s)). ac_id a = aid \<and> ac_state a = ''running''
      then (Inr True, s\<lparr>srv_db := (srv_db s)\<lparr>activities :=
              update_where (\<lambda>r. ac_id r = aid \<and> ac_state r = ''running'')
                (\<lambda>r. r\<lparr>ac_last_heartbeat_at := Some (sql_now clk)\<rparr>) (activities (srv_db s))\<rparr>\<rparr>)
      else (Inl (Internal ''Failed to update heartbeat'' (Message ''Activity not found or not in running state'')), s))"
proof -
  let ?P = "\<lambda>r. ac_id r = aid \<and> ac_state r = ''running''"
  let ?f = "\<lambda>r. r\<lparr>ac_last_heartbeat_at := Some (sql_now clk)\<rparr>"
  have chk: "list_all (\<lambda>r. act_check (?f r)) (filter ?P rows)" for rows
    by (auto simp: list_all_iff act_check_def)
  have noop: "update_where ?P ?f rows = rows" if "count_where ?P rows = 0" for rows
    using that by (intro update_where_noop) (auto simp: count_where_def filter_empty_conv)
  show ?thesis
    using count_where_pos [of ?P "activities (srv_db s)"] noop [of "activities (srv_db s)"]
    by (auto simp: heartbeat_def heartbeat_update_def exec_update_activities_def sql_update_def chk exec_simps)
qed

lemma report_activity_result_eq:
  assumes act: "find (\<lambda>x. ac_id x = aid) (activities (srv_db s)) = Some a"
    and step: "find (\<lambda>x. st_id x = ac_step_id a) (workflow_steps (srv_db s)) = Some r"
    and result: "(if txt = [] then Some (JObject []) else json_from_str X txt) = Some v"
  shows "report_activity_result X clk aid txt s =
      (Inr True, s\<lparr>srv_db := (srv_db s)\<lparr>
          activities := update_where (\<lambda>x. ac_id x = aid) (activity_update X clk Activity_Completed (Some v) None) (activities (srv_db s)),
          workflow_steps := update_where (\<lambda>x. st_id x = ac_step_id a) (step_update X Completed None (Some v) None) (workflow_steps (srv_db s))\<rparr>,
        srv_events := srv_events s @ (if srv_engine_tx s then [StepCompleted (st_workflow_run_id r)] else [])\<rparr>)"
proof -
  have a': "find (\<lambda>x. ac_id x = aid) (update_where (\<lambda>x. ac_id x = aid) (activity_update X clk Activity_Completed (Some v) None) (activities (srv_db s))) =
      Some (activity_update X clk Activity_Completed (Some v) None a)"
    using act find_SomeD [OF act] by (simp add: find_update_where)
  have r': "find (\<lambda>x. st_id x = ac_step_id a) (update_where (\<lambda>x. st_id x = ac_step_id a) (step_update X Completed None (Some v) None) (workflow_steps (srv_db s))) =
      Some (step_update X Completed None (Some v) None r)"
    using step find_SomeD [OF step] by (simp add: find_update_where)
  show ?thesis
  proof (cases "txt = []")
    case True
    with result have "v = JObject []" by simp
    with True a' r' show ?thesis
      by (simp add: report_activity_result_def exec_simps update_activity_state_eq update_step_state_eq query_row_def)
  next
    case False
    with result a' r' show ?thesis
      by (simp add: report_activity_result_def exec_simps update_activity_state_eq update_step_state_eq query_row_def)
  qed
qed

text \<open>
  C13: a result reported for a known activity completes the activity and its step, stores the
  result in both, and tells the engine about the workflow.
\<close>

theorem report_activity_result_effect:
  assumes "schema_ok (srv_db s)" "srv_engine_tx s"
    and act: "find (\<lambda>r. ac_id r = aid) (activities (srv_db s)) = Some a"
    and result: "txt \<noteq> []" "json_from_str X txt = Some v"
  shows "\<exists>r \<in> set (workflow_steps (srv_db s)). st_id r = ac_step_id a \<and>
    report_activity_result X clk aid txt s =
      (Inr True, s\<lparr>srv_db := (srv_db s)\<lparr>
          activities := update_where (\<lambda>x. ac_id x = aid) (activity_update X clk Activity_Completed (Some v) None) (activities (srv_db s)),
          workflow_steps := update_where (\<lambda>x. st_id x = ac_step_id a) (step_update X Completed None (Some v) None) (workflow_steps (srv_db s))\<rparr>,
        srv_events := srv_events s @ [StepCompleted (st_workflow_run_id r)]\<rparr>)"
proof -
  have "ac_step_id a \<in> st_id ` set (workflow_steps (srv_db s))"
    using assms(1) find_SomeD [OF act] by (auto simp: schema_ok_def list_all_iff)
  then obtain r where r: "r \<in> set (workflow_steps (srv_db s))" "st_id r = ac_step_id a" by auto
  have found: "find (\<lambda>x. st_id x = ac_step_id a) (workflow_steps (srv_db s)) = Some r"
    using find_key_distinct [of st_id _ r] r assms(1) by (simp add: schema_ok_def)
  show ?thesis
    using assms(2) result r by (intro bexI [OF _ r(1)]) (simp add: report_activity_result_eq [OF act found])
qed

definition sample_server :: "sqltext \<Rightarrow> sqltext \<Rightarrow> server" where
  "sample_server step_state act_state = init_server\<lparr>srv_db := sample_db [] [sample_workflow ''r'' ''w'' ''running'']
     [sample_step ''s'' ''r'' 0 step_state 1] [sample_activity ''a'' ''s'' 1 act_state]\<rparr>"

lemma sample_server_schema: "step_state \<in> {''pending'', ''running'', ''completed'', ''failed''} \<Longrightarrow>
  act_state \<in> {''running'', ''completed'', ''failed''} \<Longrightarrow> schema_ok (srv_db (sample_server step_state act_state))"
  by (auto simp: sample_server_def sample_defs schema_ok_def wf_check_def step_check_def act_check_def)

theorem report_activity_result_effect_witness:
  "fst (report_activity_result ref_ext sample_clock ''a'' ''null'' (sample_server ''running'' ''running'')) = Inr True"
  using report_activity_result_effect [of "sample_server ''running'' ''running''" "''a''"
      "sample_activity ''a'' ''s'' 1 ''running''" "''null''" ref_ext JNull sample_clock]
    sample_server_schema [of "''running''" "''running''"]
  by (auto simp: sample_server_def sample_defs init_server_def ref_ext_def)

lemma report_activity_failure_eq:
  assumes act: "find (\<lambda>r. ac_id r = aid) (activities (srv_db s)) = Some a" "ac_attempt a = u32_as_i64 n"
    and step: "find (\<lambda>r. st_id r = ac_step_id a) (workflow_steps (srv_db s)) = Some r"
    and policy: "retry_from_str X (st_retry_policy_json r) = Some p"
    and delay: "n + 1 < maximum_attempts p \<Longrightarrow> add_secs X (utc_now clk) (backoff_secs p n) = Some t"
  shows "report_activity_failure X clk aid msg s =
    (Inr True, s\<lparr>srv_db := (srv_db s)\<lparr>
       activities := update_where (\<lambda>x. ac_id x = aid) (activity_update X clk Activity_Failed None (Some msg)) (activities (srv_db s)),
       workflow_steps := update_where (\<lambda>x. st_id x = ac_step_id a)
         (if n + 1 < maximum_attempts p then step_update X Pending (Some (n + 1)) None (Some t)
          else step_update X Failed (Some (n + 1)) None None) (workflow_steps (srv_db s))\<rparr>\<rparr>)"
  using assms
  by (simp add: report_activity_failure_def exec_simps query_row_def update_activity_state_eq retry_or_fail_def
      update_step_state_eq)

text \<open>
  C14: a failure reported for a known activity marks it failed; below the limit of attempts the
  step goes back to \<open>pending\<close> until the backoff delay is over, at the limit it fails. In both cases
  the step's attempt number is one more than the activity's, whatever state the step was in, and
  the engine is not told.
\<close>

theorem report_activity_failure_effect:
  assumes "schema_ok (srv_db s)"
    and act: "find (\<lambda>r. ac_id r = aid) (activities (srv_db s)) = Some a" "ac_attempt a = u32_as_i64 n"
    and policy: "\<forall>r \<in> set (workflow_steps (srv_db s)). st_id r = ac_step_id a \<longrightarrow> retry_from_str X (st_retry_policy_json r) = Some p"
    and delay: "n + 1 < maximum_attempts p \<Longrightarrow> add_secs X (utc_now clk) (backoff_secs p n) = Some t"
  shows "report_activity_failure X clk aid msg s =
    (Inr True, s\<lparr>srv_db := (srv_db s)\<lparr>
       activities := update_where (\<lambda>x. ac_id x = aid) (activity_update X clk Activity_Failed None (Some msg)) (activities (srv_db s)),
       workflow_steps := update_where (\<lambda>x. st_id x = ac_step_id a)
         (if n + 1 < maximum_attempts p then step_update X Pending (Some (n + 1)) None (Some t)
          else step_update X Failed (Some (n + 1)) None None) (workflow_steps (srv_db s))\<rparr>\<rparr>)"
proof -
  have "ac_step_id a \<in> st_id ` set (workflow_steps (srv_db s))"
    using assms(1) find_SomeD [OF act(1)] by (auto simp: schema_ok_def list_all_iff)
  then obtain r where r: "r \<in> set (workflow_steps (srv_db s))" "st_id r = ac_step_id a" by auto
  then have "find (\<lambda>x. st_id x = ac_step_id a) (workflow_steps (srv_db s)) = Some r"
    using find_key_distinct [of st_id _ r] assms(1) by (simp add: schema_ok_def)
  with r policy show ?thesis
    by (intro report_activity_failure_eq act delay) auto
qed

theorem report_activity_failure_effect_witness:
  "report_activity_failure ref_ext sample_clock ''a'' ''late'' (sample_server ''completed'' ''completed'') =
    (Inr True, (sample_server ''completed'' ''completed'')\<lparr>srv_db := (srv_db (sample_server ''completed'' ''completed''))\<lparr>
       activities := [activity_update ref_ext sample_clock Activity_Failed None (Some ''late'') (sample_activity ''a'' ''s'' 1 ''completed'')],
       workflow_steps := [step_update ref_ext Pending (Some 2) None (Some (1004 * nanos_per_sec)) (sample_step ''s'' ''r'' 0 ''completed'' 1)]\<rparr>\<rparr>)"
proof -
  let ?p = "\<lparr>maximum_attempts = 3, initial_interval_secs = 2\<rparr>"
  have "retry_from_str ref_ext ''0000000003'' = Some ?p"
    by (simp add: ref_ext_def digits_val_def)
  moreover have "backoff_secs ?p 1 = 4"
    using backoff_value [of ?p 2 1] by (simp add: i64_max_def)
  ultimately show ?thesis
    using report_activity_failure_effect [of "sample_server ''completed'' ''completed''" "''a''"
        "sample_activity ''a'' ''s'' 1 ''completed''" 1 ref_ext ?p sample_clock "1004 * nanos_per_sec" "''late''"]
      sample_server_schema [of "''completed''" "''completed''"]
    by (simp add: sample_server_def sample_defs init_server_def u32_as_i64_def i64_max_def)
qed

end
