(* ===== verification/Workflow_Defs.thy ===== *)
theory Workflow_Defs
  imports Core_Types
begin

text \<open>
  The built-in workflow definitions: \<open>get_workflow_definition\<close> of \<open>server/src/grpc.rs\<close> and of
  \<open>server/src/scheduler.rs\<close>, which differ in the default. A character of a name is one Unicode
  scalar value below 256, for which \<open>is_uppercase\<close> and \<open>to_lowercase\<close> are as in Rust's \<open>char\<close>.
\<close>

definition is_uppercase :: "char \<Rightarrow> bool" where
  "is_uppercase c =
     (let n = of_char c :: nat in (65 \<le> n \<and> n \<le> 90) \<or> (192 \<le> n \<and> n \<le> 222 \<and> n \<noteq> 215))"

definition to_lowercase :: "char \<Rightarrow> char" where
  "to_lowercase c = (if is_uppercase c then char_of ((of_char c :: nat) + 32) else c)"

text \<open>The normalisation loop, at position \<open>i\<close> of the name.\<close>

fun normalize_from :: "nat \<Rightarrow> string \<Rightarrow> string" where
  "normalize_from i [] = []"
| "normalize_from i (c # cs) =
     (if is_uppercase c \<and> 0 < i then [CHR ''_''] else []) @ to_lowercase c # normalize_from (Suc i) cs"

definition activity_step :: "string \<Rightarrow> u32 \<Rightarrow> f64 \<Rightarrow> u64 \<Rightarrow> u64 option \<Rightarrow> ActivityStep" where
  "activity_step name attempts interval timeout heartbeat =
     \<lparr>as_activity_name = name, as_args_template = [],
      as_retry_policy = \<lparr>maximum_attempts = attempts, initial_interval_secs = interval\<rparr>,
      as_timeout_secs = timeout, as_heartbeat_timeout_secs = heartbeat\<rparr>"

text \<open>The steps of the cron pipeline; the first timeout differs between the two uses.\<close>

definition cron_pipeline :: "u64 \<Rightarrow> ActivityStep list" where
  "cron_pipeline first_timeout =
     [activity_step ''execute_cron_job'' 3 2 first_timeout (Some 60),
      activity_step ''save_cron_output'' 2 1 60 None,
      activity_step ''deliver_cron_result'' 3 2 120 (Some 30),
      activity_step ''mark_job_run_activity'' 1 1 30 None,
      activity_step ''trigger_on_success_jobs'' 2 1 60 None]"

definition get_workflow_definition :: "string \<Rightarrow> ActivityStep list" where
  "get_workflow_definition name =
     (if normalize_from 0 name = ''cron_job_workflow'' then cron_pipeline 300
      else [activity_step name 3 2 300 (Some 60)])"

definition get_schedule_workflow_definition :: "string \<Rightarrow> ActivityStep list" where
  "get_schedule_workflow_definition name =
     (if normalize_from 0 name = ''cron_job_workflow'' then cron_pipeline 300
      else cron_pipeline 600)"

lemma get_workflow_definition_nonempty: "get_workflow_definition name \<noteq> []"
  by (simp add: get_workflow_definition_def cron_pipeline_def)

lemma get_schedule_workflow_definition_length: "length (get_schedule_workflow_definition name) = 5"
  by (simp add: get_schedule_workflow_definition_def cron_pipeline_def)

end
