(* ===== verification/Grpc_Workflow.thy ===== *)
theory Grpc_Workflow
  imports Grpc_Schedule Grpc_Worker Workflow_Defs
begin

text \<open>
  \<open>WorkflowService\<close> of \<open>server/src/grpc.rs\<close>: starting a workflow creates its row and one row per
  step of the built-in definition; the rows are written one by one, without a transaction.
\<close>

record StartWorkflowRequest =
  swr_workflow_name :: string
  swr_args :: smap
  swr_workflow_id :: string
  swr_task_queue :: string
  swr_timeouts :: "PTimeouts option"
  swr_namespace :: string

record PWorkflowInfo =
  pwi_workflow_run_id :: string
  pwi_workflow_id :: string
  pwi_name :: string
  pwi_state :: string
  pwi_args :: smap
  pwi_result_json :: string
  pwi_started_at :: string
  pwi_completed_at :: string

definition json_of_args :: "smap \<Rightarrow> json" where
  "json_of_args m = JObject (map (\<lambda>(k, v). (k, JString v)) m)"

definition short_id :: "uuid \<Rightarrow> string" where
  "short_id run_id = take 8 run_id"

text \<open>A fresh step of a definition: \<open>step_ids i\<close> is the UUID drawn for the step at index \<open>i\<close>.\<close>

definition new_step :: "uuid \<Rightarrow> (nat \<Rightarrow> uuid) \<Rightarrow> nat \<Rightarrow> ActivityStep \<Rightarrow> json \<Rightarrow> WorkflowStepInstance" where
  "new_step run_id step_ids index step_def args = \<lparr>
     si_id = step_ids index,
     si_workflow_run_id = run_id,
     si_step_index = of_nat index,
     si_activity_name = as_activity_name step_def,
     si_args_json = args,
     si_retry_policy = as_retry_policy step_def,
     si_timeout_secs = as_timeout_secs step_def,
     si_heartbeat_timeout_secs = as_heartbeat_timeout_secs step_def,
     si_state = Pending,
     si_attempt = 0,
     si_result_json = None,
     si_next_retry_at = None\<rparr>"

definition step_args :: "smap \<Rightarrow> ActivityStep \<Rightarrow> json" where
  "step_args args step_def =
     (if args = [] then JObject []
      else json_of_args (btree_extend (btree_collect args) (as_args_template step_def)))"

definition new_workflow :: "uuid \<Rightarrow> StartWorkflowRequest \<Rightarrow> WorkflowInstance" where
  "new_workflow run_id req = \<lparr>
     wi_run_id = run_id,
     wi_workflow_id = (if swr_workflow_id req = [] then swr_workflow_name req @ ''-'' @ short_id run_id
                       else swr_workflow_id req),
     wi_name = swr_workflow_name req,
     wi_task_queue = (if swr_task_queue req = [] then ''default'' else swr_task_queue req),
     wi_state = Pending,
     wi_args_json = (if swr_args req = [] then JObject [] else json_of_args (btree_collect (swr_args req))),
     wi_result_json = None,
     wi_timeouts = core_timeouts_of_proto (swr_timeouts req),
     wi_started_at = None,
     wi_completed_at = None,
     wi_namespace = default_namespace (swr_namespace req)\<rparr>"

definition start_workflow ::
  "ext \<Rightarrow> clock \<Rightarrow> uuid \<Rightarrow> (nat \<Rightarrow> uuid) \<Rightarrow> StartWorkflowRequest \<Rightarrow> (server, status, string) exec" where
  "start_workflow X clk run_id step_ids req =
     andThen (mapErr (Internal ''Failed to create workflow'')
                (with_db (insert_workflow X (new_workflow run_id req)))) (\<lambda>_.
     andThen (forE (\<lambda>(index, step_def).
                mapErr (Internal ''Failed to create step'')
                  (with_db (insert_workflow_step X clk
                     (new_step run_id step_ids index step_def (step_args (swr_args req) step_def)))))
              (enumerate 0 (get_workflow_definition (swr_workflow_name req)))) (\<lambda>_.
     andThen (notify_engine (WorkflowCreated run_id)) (\<lambda>_. okE run_id)))"

definition workflow_info_to_proto :: "ext \<Rightarrow> WorkflowInstance \<Rightarrow> PWorkflowInfo" where
  "workflow_info_to_proto X w = \<lparr>
     pwi_workflow_run_id = wi_run_id w,
     pwi_workflow_id = wi_workflow_id w,
     pwi_name = wi_name w,
     pwi_state = (case wi_state w of Pending \<Rightarrow> ''pending'' | Running \<Rightarrow> ''running'' | Completed \<Rightarrow> ''completed''
                  | Failed \<Rightarrow> ''failed'' | Cancelled \<Rightarrow> ''cancelled''),
     pwi_args = json_str_args (wi_args_json w),
     pwi_result_json = (case wi_result_json w of None \<Rightarrow> [] | Some v \<Rightarrow> json_to_string X v),
     pwi_started_at = (case wi_started_at w of None \<Rightarrow> [] | Some t \<Rightarrow> fmt_time X t),
     pwi_completed_at = (case wi_completed_at w of None \<Rightarrow> [] | Some t \<Rightarrow> fmt_time X t)\<rparr>"

definition get_workflow_rpc :: "ext \<Rightarrow> string \<Rightarrow> (server, status, PWorkflowInfo) exec" where
  "get_workflow_rpc X run_id =
     andThen (mapErr (Internal ''Failed to get workflow'') (with_db (get_workflow X run_id))) (\<lambda>found.
     andThen (readE (\<lambda>_. option_to_sum (NotFoundStatus ''Workflow not found'') found)) (\<lambda>w.
     okE (workflow_info_to_proto X w)))"

definition list_workflows_rpc :: "ext \<Rightarrow> string \<Rightarrow> (server, status, PWorkflowInfo list) exec" where
  "list_workflows_rpc X namespace =
     andThen (mapErr (Internal ''Failed to list workflows'')
                (with_db (list_workflows X (default_namespace namespace) None))) (\<lambda>ws.
     okE (map (workflow_info_to_proto X) ws))"

definition cancel_workflow_rpc :: "clock \<Rightarrow> string \<Rightarrow> (server, status, bool) exec" where
  "cancel_workflow_rpc clk run_id =
     andThen (mapErr (Internal ''Failed to cancel workflow'') (with_db (cancel_workflow clk run_id)))
       (\<lambda>_. okE True)"

context db_client
begin

lemma keeps_start_workflow: "keeps (on_db I) (start_workflow X clk run_id ids req)"
  unfolding start_workflow_def by (intro inv_rules client_rules)

lemma keeps_get_workflow_rpc: "keeps (on_db I) (get_workflow_rpc X run_id)"
  unfolding get_workflow_rpc_def by (intro inv_rules)

lemma keeps_list_workflows_rpc: "keeps (on_db I) (list_workflows_rpc X ns)"
  unfolding list_workflows_rpc_def by (intro inv_rules)

lemma keeps_cancel_workflow_rpc: "keeps (on_db I) (cancel_workflow_rpc clk run_id)"
  unfolding cancel_workflow_rpc_def by (intro inv_rules client_rules)

end

section \<open>Inserting the steps of a definition\<close>

definition new_step_row ::
  "ext \<Rightarrow> clock \<Rightarrow> uuid \<Rightarrow> (nat \<Rightarrow> uuid) \<Rightarrow> (ActivityStep \<Rightarrow> json) \<Rightarrow> nat \<times> ActivityStep \<Rightarrow> step_row" where
  "new_step_row X clk run_id ids args p =
     step_to_row X clk (new_step run_id ids (fst p) (snd p) (args (snd p)))"

lemma new_step_row_simps [simp]:
  "st_id (new_step_row X clk run_id ids args p) = ids (fst p)"
  "st_workflow_run_id (new_step_row X clk run_id ids args p) = run_id"
  "st_state (new_step_row X clk run_id ids args p) = ''pending''"
  "st_attempt (new_step_row X clk run_id ids args p) = 0"
  "st_next_retry_at (new_step_row X clk run_id ids args p) = None"
  "st_activity_name (new_step_row X clk run_id ids args p) = as_activity_name (snd p)"
  "step_check (new_step_row X clk run_id ids args p)"
  by (simp_all add: new_step_row_def step_to_row_def new_step_def step_state_to_str_def step_check_def
      u32_as_i64_def format_datetime_def)

text \<open>
  The UUIDs drawn for the steps are new and pairwise distinct; then the loop that inserts them
  succeeds and appends one row per step, in order. The loop's body is the insert, with or
  without a conversion of its error.
\<close>

definition fresh_steps :: "(nat \<Rightarrow> uuid) \<Rightarrow> nat \<Rightarrow> nat \<Rightarrow> db \<Rightarrow> bool" where
  "fresh_steps ids n k d \<longleftrightarrow> inj_on ids {n..<n + k} \<and> ids ` {n..<n + k} \<inter> st_id ` set (workflow_steps d) = {}"

lemma fresh_steps_Suc:
  assumes "fresh_steps ids n (Suc k) d" "st_id r = ids n"
  shows "ids n \<notin> st_id ` set (workflow_steps d)"
    and "fresh_steps ids (Suc n) k (d\<lparr>workflow_steps := workflow_steps d @ [r]\<rparr>)"
proof -
  have split: "{n..<n + Suc k} = insert n {Suc n..<Suc n + k}" by auto
  show "ids n \<notin> st_id ` set (workflow_steps d)"
    using assms(1) unfolding fresh_steps_def split by blast
  have "inj_on ids (insert n {Suc n..<Suc n + k})"
    using assms(1) unfolding fresh_steps_def split by (rule conjunct1)
  moreover have "ids ` {Suc n..<Suc n + k} \<inter> st_id ` set (workflow_steps d) = {}"
    using assms(1) unfolding fresh_steps_def split by blast
  ultimately show "fresh_steps ids (Suc n) k (d\<lparr>workflow_steps := workflow_steps d @ [r]\<rparr>)"
    using assms(2) by (auto simp: fresh_steps_def inj_on_def)
qed

lemma forE_insert_steps:
  assumes body: "\<And>p s d'. insert_workflow_step X clk (new_step run_id ids (fst p) (snd p) (args (snd p))) (srv_db s) = (Inr (), d') \<Longrightarrow>
      body p s = (Inr (), s\<lparr>srv_db := d'\<rparr>)"
  shows "run_id \<in> wf_run_id ` set (workflows (srv_db s)) \<Longrightarrow> fresh_steps ids n (length defs) (srv_db s) \<Longrightarrow>
    forE body (enumerate n defs) s =
      (Inr (), s\<lparr>srv_db := (srv_db s)\<lparr>workflow_steps := workflow_steps (srv_db s) @
         map (new_step_row X clk run_id ids args) (enumerate n defs)\<rparr>\<rparr>)"
proof (induction defs arbitrary: n s)
  case Nil
  show ?case by simp
next
  case (Cons sd defs)
  let ?r = "new_step_row X clk run_id ids args (n, sd)"
  let ?d = "(srv_db s)\<lparr>workflow_steps := workflow_steps (srv_db s) @ [?r]\<rparr>"
  have fresh: "ids n \<notin> st_id ` set (workflow_steps (srv_db s))" "fresh_steps ids (Suc n) (length defs) ?d"
    using Cons.prems(2) fresh_steps_Suc [of ids n "length defs" "srv_db s" ?r] by simp_all
  have "exec_insert_step ?r (srv_db s) = (Inr (), ?d)"
    using fresh(1) Cons.prems(1) by (auto simp: exec_insert_step_def)
  then have "body (n, sd) s = (Inr (), s\<lparr>srv_db := ?d\<rparr>)"
    using body [of "(n, sd)" s ?d] by (simp add: insert_workflow_step_def new_step_row_def)
  then show ?case
    using Cons.IH [of "s\<lparr>srv_db := ?d\<rparr>" "Suc n"] Cons.prems(1) fresh(2) by simp
qed

section \<open>Starting, reading and cancelling\<close>

definition started :: "ext \<Rightarrow> clock \<Rightarrow> uuid \<Rightarrow> (nat \<Rightarrow> uuid) \<Rightarrow> StartWorkflowRequest \<Rightarrow> db \<Rightarrow> db" where
  "started X clk run_id ids req d =
     d\<lparr>workflows := workflows d @ [workflow_to_row X (new_workflow run_id req)],
       workflow_steps := workflow_steps d @ map (new_step_row X clk run_id ids (step_args (swr_args req)))
         (enumerate 0 (get_workflow_definition (swr_workflow_name req)))\<rparr>"

lemma new_workflow_row_simps [simp]:
  "wf_run_id (workflow_to_row X (new_workflow run_id req)) = run_id"
  "wf_state (workflow_to_row X (new_workflow run_id req)) = ''pending''"
  by (simp_all add: workflow_to_row_def new_workflow_def workflow_state_to_str_def)

lemma start_workflow_eq:
  assumes run: "run_id \<notin> wf_run_id ` set (workflows (srv_db s))"
    and steps: "fresh_steps ids 0 (length (get_workflow_definition (swr_workflow_name req))) (srv_db s)"
  shows "start_workflow X clk run_id ids req s =
    (Inr run_id, (if srv_engine_tx s then s\<lparr>srv_events := srv_events s @ [WorkflowCreated run_id]\<rparr> else s)
       \<lparr>srv_db := started X clk run_id ids req (srv_db s)\<rparr>)"
proof -
  let ?w = "workflow_to_row X (new_workflow run_id req)"
  let ?s = "s\<lparr>srv_db := (srv_db s)\<lparr>workflows := workflows (srv_db s) @ [?w]\<rparr>\<rparr>"
  let ?defs = "get_workflow_definition (swr_workflow_name req)"
  have "wf_check ?w" by (simp add: wf_check_def)
  with run have ins: "exec_insert_workflow ?w (srv_db s) = (Inr (), srv_db ?s)"
    by (simp add: exec_insert_workflow_def)
  have "forE (\<lambda>(index, step_def). mapErr (Internal ''Failed to create step'') (with_db (insert_workflow_step X clk
           (new_step run_id ids index step_def (step_args (swr_args req) step_def)))))
         (enumerate 0 ?defs) ?s =
      (Inr (), ?s\<lparr>srv_db := started X clk run_id ids req (srv_db s)\<rparr>)"
    by (subst forE_insert_steps [where X = X and clk = clk and run_id = run_id and ids = ids
          and args = "step_args (swr_args req)"])
      (use steps in \<open>auto simp: with_db_def mapErr_def started_def fresh_steps_def\<close>)
  with ins show ?thesis
    by (simp add: start_workflow_def insert_workflow_def exec_simps)
qed

text \<open>
  C15: starting a workflow with fresh identifiers succeeds: it stores the workflow as \<open>pending\<close> and
  the steps of its definition as \<open>pending\<close>, numbered from 0 in the order of the definition, and
  tells the engine.
\<close>

theorem start_workflow_effect:
  assumes "run_id \<notin> wf_run_id ` set (workflows (srv_db s))" "srv_engine_tx s"
    and "fresh_steps ids 0 (length (get_workflow_definition (swr_workflow_name req))) (srv_db s)"
  shows "\<exists>s'. start_workflow X clk run_id ids req s = (Inr run_id, s') \<and>
    srv_events s' = srv_events s @ [WorkflowCreated run_id] \<and>
    workflows (srv_db s') = workflows (srv_db s) @ [workflow_to_row X (new_workflow run_id req)] \<and>
    map st_id (workflow_steps (srv_db s')) = map st_id (workflow_steps (srv_db s)) @
       map ids [0..<length (get_workflow_definition (swr_workflow_name req))] \<and>
    (\<forall>i < length (get_workflow_definition (swr_workflow_name req)).
       let r = workflow_steps (srv_db s') ! (length (workflow_steps (srv_db s)) + i) in
       st_workflow_run_id r = run_id \<and> st_step_index r = int i \<and> st_state r = ''pending'' \<and>
       st_activity_name r = as_activity_name (get_workflow_definition (swr_workflow_name req) ! i))"
proof -
  let ?defs = "get_workflow_definition (swr_workflow_name req)"
  have len: "length ?defs \<le> 5" by (simp add: get_workflow_definition_def cron_pipeline_def)
  have idx: "u64_as_i64 (of_nat i) = int i" if "i < 5" for i
  proof -
    have "i = 0 \<or> i = 1 \<or> i = 2 \<or> i = 3 \<or> i = 4" using that by linarith
    then show ?thesis by (auto simp: u64_as_i64_def)
  qed
  show ?thesis
    using len by (auto simp: start_workflow_eq [OF assms(1,3)] assms(2) started_def o_def map_fst_of_enumerate nth_append nth_enumerate_eq
        Let_def new_step_row_def step_to_row_def new_step_def idx step_state_to_str_def)
qed

definition sample_request :: StartWorkflowRequest where
  "sample_request = \<lparr>swr_workflow_name = ''job'', swr_args = [], swr_workflow_id = ''w'', swr_task_queue = [],
     swr_timeouts = None, swr_namespace = []\<rparr>"

lemma sample_request_steps: "get_workflow_definition (swr_workflow_name sample_request) = [activity_step ''job'' 3 2 300 (Some 60)]"
  by (simp add: sample_request_def get_workflow_definition_def to_lowercase_def is_uppercase_def)

lemma sample_fresh: "fresh_steps (\<lambda>n. ''s'') 0 (length (get_workflow_definition (swr_workflow_name sample_request))) (srv_db init_server)"
  by (simp add: sample_request_steps fresh_steps_def init_server_def migrate_def)

theorem start_workflow_effect_witness:
  "fst (start_workflow ref_ext sample_clock ''r'' (\<lambda>n. ''s'') sample_request init_server) = Inr ''r''"
  using start_workflow_effect [of "''r''" init_server "\<lambda>n. ''s''" sample_request ref_ext sample_clock] sample_fresh
  by (auto simp: init_server_def migrate_def)

text \<open>
  C34: what \<open>StartWorkflow\<close> stores, \<open>GetWorkflow\<close> returns: right after the start the run is found, in
  the state \<open>pending\<close>, with the name, the identifier and the text arguments of the request, and without
  result or times.
\<close>

theorem start_then_get_workflow:
  assumes "run_id \<notin> wf_run_id ` set (workflows (srv_db s))"
    and "fresh_steps ids 0 (length (get_workflow_definition (swr_workflow_name req))) (srv_db s)"
    and "workflow_text_ok X (new_workflow run_id req)"
  shows "fst (get_workflow_rpc X run_id (snd (start_workflow X clk run_id ids req s))) =
    Inr \<lparr>pwi_workflow_run_id = run_id, pwi_workflow_id = wi_workflow_id (new_workflow run_id req),
         pwi_name = swr_workflow_name req, pwi_state = ''pending'', pwi_args = btree_collect (swr_args req),
         pwi_result_json = [], pwi_started_at = [], pwi_completed_at = []\<rparr>"
proof -
  let ?w = "new_workflow run_id req"
  have "find (\<lambda>r. wf_run_id r = run_id) (workflows (srv_db s)) = None"
    using assms(1) by (auto simp: find_None_iff)
  then have found: "find (\<lambda>r. wf_run_id r = run_id) (workflows (started X clk run_id ids req (srv_db s))) = Some (workflow_to_row X ?w)"
    by (simp add: started_def find_append)
  have dec: "row_to_workflow X (workflow_to_row X ?w) = Inr ?w"
    using wf_codec.decode_encode [OF assms(3)] by (simp add: workflow_to_secs_def new_workflow_def)
  have args: "json_str_args (wi_args_json ?w) = btree_collect (swr_args req)"
    by (cases "swr_args req = []")
      (auto simp: new_workflow_def json_str_args_def json_of_args_def map_filter_def json_as_str_def o_def
        split_def btree_collect_def btree_extend_def filter_id_conv)
  show ?thesis
    using found dec args
    by (simp add: start_workflow_eq [OF assms(1,2)] get_workflow_rpc_def exec_simps get_workflow_def)
      (simp add: workflow_info_to_proto_def new_workflow_def)
qed

theorem start_then_get_workflow_witness:
  "fst (get_workflow_rpc ref_ext ''r'' (snd (start_workflow ref_ext sample_clock ''r'' (\<lambda>n. ''s'') sample_request init_server))) =
    Inr \<lparr>pwi_workflow_run_id = ''r'', pwi_workflow_id = ''w'', pwi_name = ''job'', pwi_state = ''pending'', pwi_args = [],
         pwi_result_json = [], pwi_started_at = [], pwi_completed_at = []\<rparr>"
proof -
  have "workflow_text_ok ref_ext (new_workflow ''r'' sample_request)"
    by (simp add: workflow_text_ok_def new_workflow_def sample_request_def json_text_ok_def ref_ext_def)
  then show ?thesis
    using start_then_get_workflow [of "''r''" init_server "\<lambda>n. ''s''" sample_request ref_ext sample_clock] sample_fresh
    by (simp add: init_server_def migrate_def) (simp add: new_workflow_def sample_request_def btree_collect_def btree_extend_def)
qed

definition run_active :: "sqltext \<Rightarrow> wf_row \<Rightarrow> bool" where
  "run_active run_id r \<longleftrightarrow> wf_run_id r = run_id \<and> wf_state r \<in> {''pending'', ''running''}"

definition run_cancelled :: "clock \<Rightarrow> sqltext \<Rightarrow> server \<Rightarrow> server" where
  "run_cancelled clk run_id s = s\<lparr>srv_db := (srv_db s)\<lparr>workflows := update_where (run_active run_id)
     (\<lambda>r. r\<lparr>wf_state := ''cancelled'', wf_completed_at := Some (sql_now clk)\<rparr>) (workflows (srv_db s))\<rparr>\<rparr>"

lemma cancel_rpc_ok:
  assumes "\<exists>r \<in> set (workflows (srv_db s)). run_active run_id r"
  shows "cancel_workflow_rpc clk run_id s = (Inr True, run_cancelled clk run_id s)"
  using assms unfolding cancel_workflow_rpc_def exec_simps cancel_workflow_eq run_cancelled_def run_active_def [abs_def]
  by (simp only: if_True prod.case sum.case)

lemma cancel_rpc_refused:
  assumes "\<not> (\<exists>r \<in> set (workflows (srv_db s)). run_active run_id r)"
  shows "cancel_workflow_rpc clk run_id s =
    (Inl (Internal ''Failed to cancel workflow'' (Message ''Workflow not found or already in terminal state'')), s)"
  using assms unfolding cancel_workflow_rpc_def exec_simps cancel_workflow_eq run_active_def
  by (simp only: if_False prod.case sum.case) simp

lemma run_cancelled_inactive: "\<not> (\<exists>r \<in> set (workflows (srv_db (run_cancelled clk run_id s))). run_active run_id r)"
proof -
  have "\<not> run_active run_id (r\<lparr>wf_state := ''cancelled'', wf_completed_at := t\<rparr>)" for r t
    by (simp add: run_active_def)
  then show ?thesis
    using none_after_update [of "run_active run_id" "\<lambda>r. r\<lparr>wf_state := ''cancelled'', wf_completed_at := Some (sql_now clk)\<rparr>" _ "workflows (srv_db s)"]
    by (auto simp: run_cancelled_def)
qed

text \<open>
  C35: cancelling succeeds exactly when the run is \<open>pending\<close> or \<open>running\<close>; otherwise it is an error and
  changes nothing. A second cancel of the same run fails.
\<close>

theorem cancel_workflow_once:
  "(fst (cancel_workflow_rpc clk run_id s) = Inr True \<longleftrightarrow>
      (\<exists>r \<in> set (workflows (srv_db s)). run_active run_id r)) \<and>
   (fst (cancel_workflow_rpc clk run_id s) \<noteq> Inr True \<longrightarrow> snd (cancel_workflow_rpc clk run_id s) = s) \<and>
   fst (cancel_workflow_rpc clk' run_id (snd (cancel_workflow_rpc clk run_id s))) =
     Inl (Internal ''Failed to cancel workflow'' (Message ''Workflow not found or already in terminal state''))"
proof (cases "\<exists>r \<in> set (workflows (srv_db s)). run_active run_id r")
  case True
  then show ?thesis
    by (simp add: cancel_rpc_ok [OF True] cancel_rpc_refused [OF run_cancelled_inactive])
next
  case False
  then show ?thesis
    by (simp only: cancel_rpc_refused [OF False] fst_conv snd_conv) simp
qed

theorem cancel_workflow_once_witness:
  "fst (cancel_workflow_rpc sample_clock ''x'' init_server) \<noteq> Inr True \<and> snd (cancel_workflow_rpc sample_clock ''x'' init_server) = init_server"
  using cancel_workflow_once [of sample_clock "''x''" init_server sample_clock] by (simp add: init_server_def migrate_def)

text \<open>
  C36: cancelling a workflow does not stop it: the poll that would hand out one of its steps still does
  so after the cancel, with the same task, and the cancelled row is \<open>running\<close> again.
\<close>

theorem cancelled_workflow_polled:
  assumes cancel: "cancel_workflow_rpc clk run_id s = (Inr True, s1)"
    and steps: "mapM_sum (row_to_step X) (order_by_asc st_created_at (filter (step_ready clk') (workflow_steps (srv_db s)))) = Inr steps"
    and found: "find (\<lambda>p. si_activity_name p \<in> set (pa_activity_types req)) steps = Some p" "si_workflow_run_id p = run_id"
    and fresh: "aid \<notin> ac_id ` set (activities (srv_db s))" "si_id p \<in> st_id ` set (workflow_steps (srv_db s))"
  shows "\<exists>s2. poll_activity X clk' aid req s1 = (Inr \<lparr>pr_task = Some (activity_task_of aid p), pr_has_task = True\<rparr>, s2) \<and>
    (\<forall>r \<in> set (workflows (srv_db s2)). wf_run_id r = run_id \<longrightarrow> wf_state r = ''running'')"
proof -
  have same: "workflow_steps (srv_db s1) = workflow_steps (srv_db s)" "activities (srv_db s1) = activities (srv_db s)"
    using cancel cancel_rpc_ok [of s run_id clk] cancel_rpc_refused [of s run_id clk]
    by (cases "\<exists>r \<in> set (workflows (srv_db s)). run_active run_id r"; auto simp: run_cancelled_def)+
  have "poll_activity X clk' aid req s1 =
     (Inr \<lparr>pr_task = Some (activity_task_of aid p), pr_has_task = True\<rparr>, s1\<lparr>srv_db := assigned X clk' aid p (srv_db s1)\<rparr>)"
    using poll_activity_eq [of X clk' s1 steps req p aid] steps found(1) fresh by (simp add: same)
  moreover have "wf_state r = ''running''" if row: "r \<in> set (workflows (assigned X clk' aid p (srv_db s1)))" "wf_run_id r = run_id" for r
  proof -
    have "r \<in> set (update_where (\<lambda>r. wf_run_id r = run_id) (finish_row X clk' Running) (workflows (srv_db s1)))"
      using row(1) by (simp add: assigned_def found(2))
    moreover have "(wf_run_id (finish_row X clk' Running x) = run_id) = (wf_run_id x = run_id)" for x
      by (simp add: finish_row_def)
    ultimately obtain r0 where "r = finish_row X clk' Running r0"
      using updated_row [of "\<lambda>r. wf_run_id r = run_id"] row(2) by blast
    then show ?thesis by (simp add: finish_row_def workflow_state_to_str_def)
  qed
  ultimately show ?thesis by simp
qed

theorem cancelled_workflow_polled_witness:
  "\<exists>s2. poll_activity ref_ext sample_clock ''a'' \<lparr>pa_task_queue = [], pa_activity_types = [''job'']\<rparr>
      (snd (cancel_workflow_rpc sample_clock ''r''
        (init_server\<lparr>srv_db := sample_db [] [sample_workflow ''r'' ''w'' ''running''] [sample_step ''s'' ''r'' 0 ''pending'' 0] []\<rparr>)))
    = (Inr \<lparr>pr_task = Some (activity_task_of ''a'' (sample_instance ''s'' ''r'')), pr_has_task = True\<rparr>, s2) \<and>
    (\<forall>r \<in> set (workflows (srv_db s2)). wf_run_id r = ''r'' \<longrightarrow> wf_state r = ''running'')"
proof -
  let ?s = "init_server\<lparr>srv_db := sample_db [] [sample_workflow ''r'' ''w'' ''running''] [sample_step ''s'' ''r'' 0 ''pending'' 0] []\<rparr>"
  obtain s1 where s1: "cancel_workflow_rpc sample_clock ''r'' ?s = (Inr True, s1)"
    using cancel_rpc_ok [of ?s "''r''" sample_clock] by (simp add: run_active_def sample_db_def sample_workflow_def)
  then show ?thesis
    using cancelled_workflow_polled [OF s1, of ref_ext sample_clock "[sample_instance ''s'' ''r'']"
        "\<lparr>pa_task_queue = [], pa_activity_types = [''job'']\<rparr>" "sample_instance ''s'' ''r''" "''a''"]
    by (simp add: sample_db_def order_by_asc_def sample_step_decodes sample_step_ready)
      (simp add: sample_instance_def sample_step_def)
qed

end
