(* ===== verification/Scheduler.thy ===== *)
theory Scheduler
  imports Min_Queue Engine Grpc_Workflow
begin

text \<open>
  The scheduler, \<open>server/src/scheduler.rs\<close>: one task that keeps a heap of the next fire times,
  sleeps until the least of them, fires what is due and computes the next fire time of what
  fired. The heap is the task's own; the database is shared.
\<close>

section \<open>Schedules as the scheduler reads them\<close>

record ScheduleInfo =
  in_schedule_id :: string
  in_namespace :: string
  in_spec_type :: string
  in_cron_expressions :: "string list option"
  in_interval_seconds :: "u64 option"
  in_overlap_policy :: string
  in_action_workflow_name :: string
  in_action_task_queue :: string
  in_action_args_json :: string
  in_timeouts_json :: string

text \<open>The row closure of the three queries: a list of expressions that is not JSON is no list.\<close>

definition schedule_info :: "ext \<Rightarrow> sched_row \<Rightarrow> ScheduleInfo" where
  "schedule_info X row = \<lparr>
     in_schedule_id = sr_schedule_id row,
     in_namespace = sr_namespace row,
     in_spec_type = sr_spec_type row,
     in_cron_expressions = Option.bind (sr_cron_expressions row) (strs_from_str X),
     in_interval_seconds = map_option i64_as_u64 (sr_interval_seconds row),
     in_overlap_policy = sr_overlap_policy row,
     in_action_workflow_name = sr_action_workflow_name row,
     in_action_task_queue = sr_action_task_queue row,
     in_action_args_json = sr_action_args_json row,
     in_timeouts_json = sr_timeouts_json row\<rparr>"

definition sched_parse_datetime :: "ext \<Rightarrow> sqltext \<Rightarrow> err + time" where
  "sched_parse_datetime X s =
     (case first_format (parse_naive X s)
         [''%Y-%m-%d %H:%M:%S%.f'', ''%Y-%m-%d %H:%M:%S'', ''%Y-%m-%dT%H:%M:%S%.f'', ''%Y-%m-%dT%H:%M:%S''] of
        Some t \<Rightarrow> Inr t
      | None \<Rightarrow>
          (case first_format (parse_tz X s) [''%Y-%m-%dT%H:%M:%S%.fZ'', ''%Y-%m-%dT%H:%M:%SZ''] of
             Some t \<Rightarrow> Inr t
           | None \<Rightarrow> Inl (Message (''Failed to parse datetime: '' @ s))))"

section \<open>The workflows of a schedule\<close>

text \<open>
  A schedule finds its own workflows by their name: \<open>workflow_id LIKE 'schedule:<id>-%'\<close>.
\<close>

definition schedule_pattern :: "string \<Rightarrow> string" where
  "schedule_pattern schedule_id = ''schedule:'' @ schedule_id @ ''-%''"

definition schedule_workflow_id :: "string \<Rightarrow> uuid \<Rightarrow> string" where
  "schedule_workflow_id schedule_id run_id = ''schedule:'' @ schedule_id @ ''-'' @ short_id run_id"

definition schedule_workflows :: "string \<Rightarrow> db \<Rightarrow> wf_row list" where
  "schedule_workflows schedule_id d =
     filter (\<lambda>r. sql_like (schedule_pattern schedule_id) (wf_workflow_id r)) (workflows d)"

text \<open>\<open>SELECT MAX(started_at)\<close>: the greatest text that is not \<open>NULL\<close>.\<close>

definition max_started :: "string \<Rightarrow> db \<Rightarrow> sqltext option" where
  "max_started schedule_id d =
     (case List.map_filter wf_started_at (schedule_workflows schedule_id d) of
        [] \<Rightarrow> None
      | t # ts \<Rightarrow> Some (fold max ts t))"

definition get_last_started :: "ext \<Rightarrow> string \<Rightarrow> (db, err, time option) exec" where
  "get_last_started X schedule_id =
     readE (\<lambda>d. case max_started schedule_id d of
                  Some ts_str \<Rightarrow> bindS (sched_parse_datetime X ts_str) (\<lambda>t. Inr (Some t))
                | None \<Rightarrow> Inr None)"

definition is_active :: "wf_row \<Rightarrow> bool" where
  "is_active r \<longleftrightarrow> wf_state r \<in> {''pending'', ''running''}"

definition check_running_workflow :: "string \<Rightarrow> (db, err, bool) exec" where
  "check_running_workflow schedule_id =
     readE (\<lambda>d. Inr (0 < count_where is_active (schedule_workflows schedule_id d)))"

definition terminate_existing :: "clock \<Rightarrow> string \<Rightarrow> (db, err, unit) exec" where
  "terminate_existing clk schedule_id =
     andThen (readE (\<lambda>d. Inr (map wf_run_id (filter is_active (schedule_workflows schedule_id d)))))
       (\<lambda>ids. forE (cancel_workflow clk) ids)"

section \<open>When a schedule fires\<close>

fun calculate_next_cron :: "ext \<Rightarrow> time \<Rightarrow> string list \<Rightarrow> time option" where
  "calculate_next_cron X now [] = None"
| "calculate_next_cron X now (expr # exprs) =
     (case cron_upcoming X expr now of
        Some (Some next_time) \<Rightarrow> Some next_time
      | _ \<Rightarrow> calculate_next_cron X now exprs)"

definition calculate_next_cron_fire :: "ext \<Rightarrow> clock \<Rightarrow> ScheduleInfo \<Rightarrow> time option" where
  "calculate_next_cron_fire X clk info =
     Option.bind (in_cron_expressions info) (calculate_next_cron X (utc_now clk))"

definition calculate_next_interval_fire :: "ext \<Rightarrow> clock \<Rightarrow> ScheduleInfo \<Rightarrow> (db, err, time option) exec" where
  "calculate_next_interval_fire X clk info =
     (let interval_secs = (case in_interval_seconds info of None \<Rightarrow> 0 | Some n \<Rightarrow> n) in
      if interval_secs = 0 then okE None
      else
        andThen (get_last_started X (in_schedule_id info)) (\<lambda>last_started.
          case last_started of
            Some last_run \<Rightarrow>
              (case add_secs X last_run (u64_as_i64 interval_secs) of
                 None \<Rightarrow> errE Panicked
               | Some next \<Rightarrow>
                   (if utc_now clk < next then okE (Some next)
                    else (case add_secs X (utc_now clk) (u64_as_i64 interval_secs) of
                            None \<Rightarrow> errE Panicked
                          | Some t \<Rightarrow> okE (Some t))))
          | None \<Rightarrow> okE (Some (utc_now clk))))"

text \<open>The \<open>match info.spec_type\<close> of the two callers; \<open>None\<close> also when the type is neither.\<close>

definition next_fire :: "ext \<Rightarrow> clock \<Rightarrow> ScheduleInfo \<Rightarrow> (db, err, time option) exec" where
  "next_fire X clk info =
     (if in_spec_type info = ''cron'' then okE (calculate_next_cron_fire X clk info)
      else if in_spec_type info = ''interval'' then calculate_next_interval_fire X clk info
      else okE None)"

definition check_interval :: "ext \<Rightarrow> clock \<Rightarrow> string \<Rightarrow> u64 \<Rightarrow> (db, err, bool) exec" where
  "check_interval X clk schedule_id interval_secs =
     readE (\<lambda>d. case max_started schedule_id d of
                  Some ts_str \<Rightarrow>
                    bindS (sched_parse_datetime X ts_str) (\<lambda>last_run.
                      Inr (u64_as_i64 interval_secs \<le> num_seconds_between (utc_now clk) last_run))
                | None \<Rightarrow> Inr True)"

definition check_cron_match :: "ext \<Rightarrow> time \<Rightarrow> string list \<Rightarrow> bool" where
  "check_cron_match X now exprs =
     list_ex (\<lambda>expr. case cron_upcoming X expr now of
                Some (Some next_time) \<Rightarrow>
                  (let diff = num_seconds_between next_time now in 0 \<le> diff \<and> diff \<le> 1)
              | _ \<Rightarrow> False) exprs"

definition should_fire :: "ext \<Rightarrow> clock \<Rightarrow> ScheduleInfo \<Rightarrow> (db, err, bool) exec" where
  "should_fire X clk info =
     (if in_spec_type info = ''cron'' then
        okE (case in_cron_expressions info of
               Some exprs \<Rightarrow> check_cron_match X (utc_now clk) exprs
             | None \<Rightarrow> False)
      else if in_spec_type info = ''interval'' then
        (case in_interval_seconds info of
           Some secs \<Rightarrow> check_interval X clk (in_schedule_id info) secs
         | None \<Rightarrow> okE False)
      else okE False)"

section \<open>Starting the workflow of a schedule\<close>

definition schedule_instance ::
  "ext \<Rightarrow> clock \<Rightarrow> uuid \<Rightarrow> string \<Rightarrow> string \<Rightarrow> string \<Rightarrow> string \<Rightarrow> string \<Rightarrow> string \<Rightarrow> WorkflowInstance" where
  "schedule_instance X clk run_id schedule_id namespace workflow_name task_queue job_id timeouts_json = \<lparr>
     wi_run_id = run_id,
     wi_workflow_id = schedule_workflow_id schedule_id run_id,
     wi_name = workflow_name,
     wi_task_queue = task_queue,
     wi_state = Pending,
     wi_args_json = (if job_id = [] then JObject [] else JObject [(''job_id'', JString job_id)]),
     wi_result_json = None,
     wi_timeouts = (case timeouts_from_str X timeouts_json of Some t \<Rightarrow> t | None \<Rightarrow> timeouts_default),
     wi_started_at = Some (utc_now clk),
     wi_completed_at = None,
     wi_namespace = namespace\<rparr>"

definition schedule_step_args :: "string \<Rightarrow> ActivityStep \<Rightarrow> json" where
  "schedule_step_args job_id step_def = (if job_id = [] then JNull else JString job_id)"

text \<open>The computation of \<open>agent_job_id\<close> has no effect: its result is bound to an unused name.\<close>

definition start_schedule_workflow ::
  "ext \<Rightarrow> clock \<Rightarrow> uuid \<Rightarrow> (nat \<Rightarrow> uuid) \<Rightarrow> string \<Rightarrow> string \<Rightarrow> string \<Rightarrow> string \<Rightarrow> string \<Rightarrow> string \<Rightarrow>
   (server, err, unit) exec" where
  "start_schedule_workflow X clk run_id step_ids schedule_id namespace workflow_name task_queue
       job_id timeouts_json =
     andThen (with_db (insert_workflow X
         (schedule_instance X clk run_id schedule_id namespace workflow_name task_queue job_id timeouts_json))) (\<lambda>_.
     andThen (forE (\<lambda>(index, step_def).
                with_db (insert_workflow_step X clk
                  (new_step run_id step_ids index step_def (schedule_step_args job_id step_def))))
              (enumerate 0 (get_schedule_workflow_definition workflow_name))) (\<lambda>_.
     send_event (WorkflowCreated run_id)))"

text \<open>The \<open>match info.overlap_policy\<close>: whether to go on and start a workflow.\<close>

definition apply_overlap_policy :: "clock \<Rightarrow> string \<Rightarrow> string \<Rightarrow> bool \<Rightarrow> (db, err, bool) exec" where
  "apply_overlap_policy clk policy schedule_id has_running =
     (if policy = ''skip'' then okE (\<not> has_running)
      else if policy = ''terminate'' then
        (if has_running then andThen (terminate_existing clk schedule_id) (\<lambda>_. okE True) else okE True)
      else okE True)"

definition process_schedule ::
  "ext \<Rightarrow> clock \<Rightarrow> uuid \<Rightarrow> (nat \<Rightarrow> uuid) \<Rightarrow> string \<Rightarrow> (server, err, unit) exec" where
  "process_schedule X clk run_id step_ids schedule_id =
     andThen (with_db (readE (\<lambda>d. Inr (map_option (schedule_info X)
                (find (\<lambda>r. sr_schedule_id r = schedule_id) (schedules d)))))) (\<lambda>found.
       case found of
         None \<Rightarrow> okE ()
       | Some info \<Rightarrow>
           andThen (with_db (should_fire X clk info)) (\<lambda>fire.
             if \<not> fire then okE ()
             else
               andThen (with_db (check_running_workflow schedule_id)) (\<lambda>has_running.
               andThen (with_db (apply_overlap_policy clk (in_overlap_policy info) schedule_id has_running)) (\<lambda>go.
                 if go then
                   start_schedule_workflow X clk run_id step_ids schedule_id (in_namespace info)
                     (in_action_workflow_name info) (in_action_task_queue info)
                     (in_action_args_json info) (in_timeouts_json info)
                 else okE ()))))"

section \<open>The heap\<close>

text \<open>\<open>next_fires.entry(id).and_modify(min).or_insert(t)\<close>.\<close>

fun fires_entry :: "string \<Rightarrow> time \<Rightarrow> (string \<times> time) list \<Rightarrow> (string \<times> time) list" where
  "fires_entry i t [] = [(i, t)]"
| "fires_entry i t ((k, v) # m) =
     (if k = i then (k, if t < v then t else v) # m else (k, v) # fires_entry i t m)"

fun collect_fires ::
  "ext \<Rightarrow> clock \<Rightarrow> ScheduleInfo list \<Rightarrow> (string \<times> time) list \<Rightarrow> (db, err, (string \<times> time) list) exec" where
  "collect_fires X clk [] m d = (Inr m, d)"
| "collect_fires X clk (info # infos) m d =
     (case next_fire X clk info d of
        (Inl e, d') \<Rightarrow> (Inl e, d')
      | (Inr None, d') \<Rightarrow> collect_fires X clk infos m d'
      | (Inr (Some t), d') \<Rightarrow> collect_fires X clk infos (fires_entry (in_schedule_id info) t m) d')"

definition heap_of_fires :: "(string \<times> time) list \<Rightarrow> heap" where
  "heap_of_fires m = fold (\<lambda>(i, t). heap_push (ScheduleEntry t i)) m []"

text \<open>The heap that replaces the old one; an error is met before the old one is cleared.\<close>

definition reload_all_schedules :: "ext \<Rightarrow> clock \<Rightarrow> (db, err, heap) exec" where
  "reload_all_schedules X clk =
     andThen (readE (\<lambda>d. Inr (map (schedule_info X) (schedules d)))) (\<lambda>infos.
     andThen (collect_fires X clk infos []) (\<lambda>m. okE (heap_of_fires m)))"

text \<open>
  The text of the query in \<open>update_schedule_next_fire\<close>. Its literal has \<open>\\\<close> and \<open>\n\<close> where the
  other two queries have a continued line, so the text holds backslashes.
\<close>

definition next_fire_sql :: string where
  "next_fire_sql =
     ''SELECT schedule_id, namespace, spec_type, cron_expressions, '' @ [CHR 0x5C, CHR 0x0A] @
     ''             interval_seconds, overlap_policy, action_workflow_name, '' @ [CHR 0x5C, CHR 0x0A] @
     ''             action_task_queue, action_args_json, timeouts_json '' @ [CHR 0x5C, CHR 0x0A] @
     ''             FROM schedules WHERE schedule_id = ?1''"

definition update_schedule_next_fire :: "ext \<Rightarrow> clock \<Rightarrow> string \<Rightarrow> heap \<Rightarrow> (db, err, heap) exec" where
  "update_schedule_next_fire X clk schedule_id heap =
     andThen (readE (\<lambda>d. Inr (if sql_accepts X next_fire_sql
                then map_option (schedule_info X) (find (\<lambda>r. sr_schedule_id r = schedule_id) (schedules d))
                else None))) (\<lambda>found.
       case found of
         None \<Rightarrow> okE heap
       | Some info \<Rightarrow>
           andThen (next_fire X clk info) (\<lambda>next.
             case next of
               Some next_time \<Rightarrow> okE (heap_push (ScheduleEntry next_time schedule_id) heap)
             | None \<Rightarrow> okE heap))"

section \<open>The loop\<close>

text \<open>
  What one pass of the loop meets: the clock it reads and the identifiers it draws for the
  \<open>n\<close>-th schedule it fires.
\<close>

record fire_env =
  fe_clock :: clock
  fe_run_id :: uuid
  fe_step_ids :: "nat \<Rightarrow> uuid"

text \<open>The \<open>while let Some(Reverse(entry)) = heap.pop()\<close> loop: the fired names and the heap that is left.\<close>

function fire_due ::
  "ext \<Rightarrow> (nat \<Rightarrow> fire_env) \<Rightarrow> time \<Rightarrow> nat \<Rightarrow> heap \<Rightarrow> (server, err, string list \<times> heap) exec" where
  "fire_due X env now n heap s =
     (case heap_pop heap of
        None \<Rightarrow> (Inr ([], heap), s)
      | Some (entry, rest) \<Rightarrow>
          (if now < next_fire_time entry then (Inr ([], heap_push entry rest), s)
           else
             (case logErr (process_schedule X (fe_clock (env n)) (fe_run_id (env n)) (fe_step_ids (env n))
                       (entry_schedule_id entry)) s of
                (Inl e, s') \<Rightarrow> (Inl e, s')
              | (Inr _, s') \<Rightarrow>
                  (case fire_due X env now (Suc n) rest s' of
                     (Inl e, s'') \<Rightarrow> (Inl e, s'')
                   | (Inr (ids, h), s'') \<Rightarrow> (Inr (entry_schedule_id entry # ids, h), s'')))))"
  by pat_completeness auto
termination
  by (relation "measure (\<lambda>(X, env, now, n, heap, s). length heap)")
    (auto simp: heap_pop_def split: list.splits)

declare fire_due.simps [simp del]

text \<open>The loop over \<open>fired_ids\<close>: an error leaves the heap as it is.\<close>

fun rearm_fired :: "ext \<Rightarrow> clock \<Rightarrow> string list \<Rightarrow> heap \<Rightarrow> (db, err, heap) exec" where
  "rearm_fired X clk [] heap d = (Inr heap, d)"
| "rearm_fired X clk (i # ids) heap d =
     (case update_schedule_next_fire X clk i heap d of
        (Inl e, d') \<Rightarrow> (if e = Panicked then (Inl Panicked, d') else rearm_fired X clk ids heap d')
      | (Inr heap', d') \<Rightarrow> rearm_fired X clk ids heap' d')"

text \<open>The branch of \<open>select!\<close> that is taken when the sleep ends.\<close>

definition scheduler_wake ::
  "ext \<Rightarrow> (nat \<Rightarrow> fire_env) \<Rightarrow> clock \<Rightarrow> heap \<Rightarrow> (server, err, heap) exec" where
  "scheduler_wake X env clk heap =
     andThen (fire_due X env (utc_now clk) 0 heap) (\<lambda>(fired_ids, heap').
       with_db (rearm_fired X clk fired_ids heap'))"

text \<open>The branch taken on a schedule change, and the load at startup.\<close>

definition scheduler_reload :: "ext \<Rightarrow> clock \<Rightarrow> heap \<Rightarrow> (server, err, heap) exec" where
  "scheduler_reload X clk heap s =
     (case with_db (reload_all_schedules X clk) s of
        (Inl e, s') \<Rightarrow> (if e = Panicked then Inl Panicked else Inr heap, s')
      | (Inr heap', s') \<Rightarrow> (Inr heap', s'))"

text \<open>How long the loop sleeps, in nanoseconds: at least half a second, a year with no entry.\<close>

definition sleep_duration :: "clock \<Rightarrow> heap \<Rightarrow> duration" where
  "sleep_duration clk heap =
     max 500000000
       (case heap_peek heap of
          None \<Rightarrow> 365 * 24 * 60 * 60 * 1000000000
        | Some e \<Rightarrow>
            (let secs = max 0 (num_seconds_between (next_fire_time e) (utc_now clk));
                 diff = next_fire_time e - utc_now clk;
                 nanos = (if i64_min \<le> diff \<and> diff \<le> i64_max
                          then max 0 (sgn diff * (\<bar>diff\<bar> mod nanos_per_sec)) else 0) in
             nat (secs * nanos_per_sec + nanos)))"

section \<open>What the scheduler reads and what it keeps\<close>

lemma keeps_next_fire [inv_rules]: "keeps J (next_fire X clk info)"
  unfolding next_fire_def calculate_next_interval_fire_def get_last_started_def by (intro inv_rules)

lemmas next_fire_reads = keeps_reads [OF keeps_next_fire]

lemma collect_fires_reads: "snd (collect_fires X clk infos m d) = d"
proof (induction infos arbitrary: m d)
  case (Cons info infos)
  then show ?case
    using next_fire_reads [of X clk info d]
    by (cases "next_fire X clk info d") (auto split: sum.split option.split)
qed simp

lemma reload_reads: "snd (reload_all_schedules X clk d) = d"
  using collect_fires_reads [of X clk "map (schedule_info X) (schedules d)" "[]" d]
  by (auto simp: reload_all_schedules_def exec_simps split: prod.split sum.split)

lemma keeps_update_next_fire [inv_rules]: "keeps J (update_schedule_next_fire X clk i h)"
  unfolding update_schedule_next_fire_def by (intro inv_rules)

lemmas update_next_fire_reads = keeps_reads [OF keeps_update_next_fire]

lemma rearm_fired_reads: "snd (rearm_fired X clk ids h d) = d"
proof (induction ids arbitrary: h d)
  case (Cons i ids)
  then show ?case
    using update_next_fire_reads [of X clk i h d]
    by (cases "update_schedule_next_fire X clk i h d") (auto split: sum.split)
qed simp

text \<open>The loop keeps what processing a schedule keeps.\<close>

lemma fire_due_keeps:
  assumes body: "\<And>clk run_id ids sid. keeps J (logErr (process_schedule X clk run_id ids sid))"
  shows "J s \<Longrightarrow> J (snd (fire_due X env now n heap s))"
proof (induction heap arbitrary: n s)
  case Nil
  then show ?case by (simp add: fire_due.simps [of X env now n "[]"] heap_pop_def)
next
  case (Cons e rest)
  let ?m = "logErr (process_schedule X (fe_clock (env n)) (fe_run_id (env n)) (fe_step_ids (env n)) (entry_schedule_id e))"
  obtain res s1 where m: "?m s = (res, s1)" by force
  with keepsD [OF body Cons.prems] have "J s1" by (metis snd_conv)
  with Cons.IH [of s1 "Suc n"] Cons.prems show ?case
    by (auto simp: fire_due.simps [of X env now n "e # rest"] heap_pop_def m split: sum.split prod.split)
qed

context db_client
begin

lemma keeps_start_schedule_workflow:
  "keeps (on_db I) (start_schedule_workflow X clk run_id ids sid ns nm tq job tmo)"
  unfolding start_schedule_workflow_def by (intro inv_rules client_rules)

lemma keeps_process_schedule: "keeps (on_db I) (process_schedule X clk run_id ids sid)"
  unfolding process_schedule_def should_fire_def check_interval_def check_running_workflow_def
    apply_overlap_policy_def terminate_existing_def
  by (intro inv_rules client_rules keeps_start_schedule_workflow)

lemma keeps_fire_due: "keeps (on_db I) (fire_due X env now n heap)"
  by (rule keepsI, rule fire_due_keeps, rule keeps_logErr [OF keeps_process_schedule])

lemma keeps_rearm_fired: "keeps I (rearm_fired X clk ids h)"
  by (simp add: keeps_def rearm_fired_reads)

lemma keeps_scheduler_wake: "keeps (on_db I) (scheduler_wake X env clk heap)"
  unfolding scheduler_wake_def by (intro inv_rules keeps_fire_due keeps_rearm_fired)

lemma keeps_scheduler_reload: "keeps (on_db I) (scheduler_reload X clk heap)"
proof -
  have "srv_db (snd (scheduler_reload X clk heap s)) = srv_db s" for s
    using reload_reads [of X clk "srv_db s"]
    by (cases "reload_all_schedules X clk (srv_db s)") (auto simp: scheduler_reload_def with_db_def split: sum.split)
  then show ?thesis by (simp add: keeps_def on_db_def)
qed

end

end
