(* ===== verification/Overlap_Policies.thy ===== *)
theory Overlap_Policies
  imports Scheduler
begin

text \<open>
  What a fired schedule starts and cancels: the overlap policies of \<open>server/src/scheduler.rs\<close>, from the
  cancelling of the active workflows to the effect of \<open>process_schedule\<close> on the whole state.
\<close>

section \<open>The names of a schedule's workflows\<close>

lemma own_workflow_matches: "sql_like (schedule_pattern sid) (schedule_workflow_id sid run_id)"
  using sql_like_self [of "''schedule:'' @ sid @ ''-''" "short_id run_id"]
  by (simp add: schedule_pattern_def schedule_workflow_id_def)

section \<open>Overlap policies\<close>

definition cancel_row :: "clock \<Rightarrow> wf_row \<Rightarrow> wf_row" where
  "cancel_row clk r = r\<lparr>wf_state := ''cancelled'', wf_completed_at := Some (sql_now clk)\<rparr>"

lemma cancel_row_simps [simp]:
  "wf_run_id (cancel_row clk r) = wf_run_id r" "wf_workflow_id (cancel_row clk r) = wf_workflow_id r"
  "wf_state (cancel_row clk r) = ''cancelled''" "\<not> is_active (cancel_row clk r)"
  by (simp_all add: cancel_row_def is_active_def)

lemma cancel_active:
  assumes "r \<in> set (workflows d)" "wf_run_id r = run_id" "is_active r"
  shows "cancel_workflow clk run_id d =
     (Inr (), d\<lparr>workflows := update_where (\<lambda>r. wf_run_id r = run_id \<and> is_active r) (cancel_row clk) (workflows d)\<rparr>)"
proof -
  have "\<exists>r \<in> set (workflows d). wf_run_id r = run_id \<and> wf_state r \<in> {''pending'', ''running''}"
    using assms by (auto simp: is_active_def)
  then show ?thesis
    unfolding cancel_workflow_eq by (simp only: if_True is_active_def cancel_row_def [abs_def])
qed

lemma update_where_update_where:
  "(\<And>r. P r \<Longrightarrow> \<not> Q (f r)) \<Longrightarrow>
   update_where Q f (update_where P f rows) = update_where (\<lambda>r. P r \<or> Q r) f rows"
  by (induction rows) auto

lemma forE_cancel:
  assumes "distinct ids" "\<forall>i \<in> set ids. \<exists>r \<in> set (workflows d). wf_run_id r = i \<and> is_active r"
  shows "forE (cancel_workflow clk) ids d =
     (Inr (), d\<lparr>workflows := update_where (\<lambda>r. wf_run_id r \<in> set ids \<and> is_active r) (cancel_row clk) (workflows d)\<rparr>)"
  using assms
proof (induction ids arbitrary: d)
  case Nil
  show ?case by (simp add: update_where_noop)
next
  case (Cons i ids)
  let ?d = "d\<lparr>workflows := update_where (\<lambda>r. wf_run_id r = i \<and> is_active r) (cancel_row clk) (workflows d)\<rparr>"
  have first: "cancel_workflow clk i d = (Inr (), ?d)"
    using Cons.prems(2) cancel_active [of _ d i clk] by auto
  have "\<exists>r \<in> set (workflows ?d). wf_run_id r = j \<and> is_active r" if j: "j \<in> set ids" for j
  proof -
    obtain r where r: "r \<in> set (workflows d)" "wf_run_id r = j" "is_active r"
      using Cons.prems(2) j by auto
    then have "r \<in> set (workflows ?d)"
      using Cons.prems(1) j by (auto simp: set_update_where intro!: bexI [of _ r])
    with r show ?thesis by blast
  qed
  with Cons.IH [of ?d] Cons.prems(1) have
    "forE (cancel_workflow clk) ids ?d =
      (Inr (), ?d\<lparr>workflows := update_where (\<lambda>r. wf_run_id r \<in> set ids \<and> is_active r) (cancel_row clk) (workflows ?d)\<rparr>)"
    by simp
  moreover have "update_where (\<lambda>r. wf_run_id r \<in> set ids \<and> is_active r) (cancel_row clk)
       (update_where (\<lambda>r. wf_run_id r = i \<and> is_active r) (cancel_row clk) (workflows d)) =
     update_where (\<lambda>r. wf_run_id r \<in> set (i # ids) \<and> is_active r) (cancel_row clk) (workflows d)"
    by (subst update_where_update_where) (auto intro!: arg_cong [where f = "\<lambda>P. update_where P (cancel_row clk) (workflows d)"])
  ultimately show ?case using first by simp
qed

text \<open>\<open>terminate_existing\<close> never fails and cancels every active workflow of the schedule.\<close>

definition schedule_active :: "string \<Rightarrow> wf_row \<Rightarrow> bool" where
  "schedule_active sid r \<longleftrightarrow> sql_like (schedule_pattern sid) (wf_workflow_id r) \<and> is_active r"

lemma terminate_existing_eq:
  assumes ok: "distinct (map wf_run_id (workflows d))"
  shows "terminate_existing clk sid d =
     (Inr (), d\<lparr>workflows := update_where (schedule_active sid) (cancel_row clk) (workflows d)\<rparr>)"
proof -
  let ?ids = "map wf_run_id (filter is_active (schedule_workflows sid d))"
  have ids: "?ids = map wf_run_id (filter (schedule_active sid) (workflows d))"
    by (simp add: schedule_workflows_def schedule_active_def [abs_def] conj_commute)
  have dist: "distinct ?ids" using ok by (simp add: ids distinct_map_filter)
  have act: "\<forall>i \<in> set ?ids. \<exists>r \<in> set (workflows d). wf_run_id r = i \<and> is_active r"
    by (auto simp: ids schedule_active_def)
  have "r \<in> set (workflows d) \<Longrightarrow> wf_run_id r \<in> set ?ids \<and> is_active r \<longleftrightarrow> schedule_active sid r" for r
    using inj_onD [of wf_run_id "set (workflows d)" r] ok by (auto simp: ids distinct_map schedule_active_def)
  then have "update_where (\<lambda>r. wf_run_id r \<in> set ?ids \<and> is_active r) (cancel_row clk) (workflows d) =
      update_where (schedule_active sid) (cancel_row clk) (workflows d)"
    by (simp add: update_where_def cong: map_cong)
  with forE_cancel [OF dist act, of clk] show ?thesis
    by (simp add: terminate_existing_def exec_simps)
qed

lemma check_running_eq: "check_running_workflow sid d = (Inr (\<exists>r \<in> set (workflows d). schedule_active sid r), d)"
  by (auto simp: check_running_workflow_def exec_simps count_where_pos schedule_workflows_def schedule_active_def)

section \<open>The effect of a fired schedule\<close>

text \<open>The database after the rows of a new run are appended.\<close>

definition with_run :: "ext \<Rightarrow> clock \<Rightarrow> uuid \<Rightarrow> (nat \<Rightarrow> uuid) \<Rightarrow> ScheduleInfo \<Rightarrow> db \<Rightarrow> db" where
  "with_run X clk run_id ids info d =
     d\<lparr>workflows := workflows d @ [workflow_to_row X (schedule_instance X clk run_id (in_schedule_id info)
          (in_namespace info) (in_action_workflow_name info) (in_action_task_queue info)
          (in_action_args_json info) (in_timeouts_json info))],
       workflow_steps := workflow_steps d @
         map (new_step_row X clk run_id ids (schedule_step_args (in_action_args_json info)))
           (enumerate 0 (get_schedule_workflow_definition (in_action_workflow_name info)))\<rparr>"

lemma schedule_row_simps [simp]:
  "wf_run_id (workflow_to_row X (schedule_instance X clk run_id sid ns nm tq job tmo)) = run_id"
  "wf_workflow_id (workflow_to_row X (schedule_instance X clk run_id sid ns nm tq job tmo)) = schedule_workflow_id sid run_id"
  "wf_state (workflow_to_row X (schedule_instance X clk run_id sid ns nm tq job tmo)) = ''pending''"
  "schedule_active sid (workflow_to_row X (schedule_instance X clk run_id sid ns nm tq job tmo))"
  by (simp_all add: workflow_to_row_def schedule_instance_def workflow_state_to_str_def schedule_active_def
      is_active_def own_workflow_matches)

lemma start_schedule_workflow_eq:
  assumes run: "run_id \<notin> wf_run_id ` set (workflows (srv_db s))"
    and steps: "fresh_steps ids 0 5 (srv_db s)"
  shows "start_schedule_workflow X clk run_id ids (in_schedule_id info) (in_namespace info)
       (in_action_workflow_name info) (in_action_task_queue info) (in_action_args_json info) (in_timeouts_json info) s =
     (Inr (), s\<lparr>srv_db := with_run X clk run_id ids info (srv_db s), srv_events := srv_events s @ [WorkflowCreated run_id]\<rparr>)"
proof -
  let ?w = "workflow_to_row X (schedule_instance X clk run_id (in_schedule_id info) (in_namespace info)
       (in_action_workflow_name info) (in_action_task_queue info) (in_action_args_json info) (in_timeouts_json info))"
  let ?s = "s\<lparr>srv_db := (srv_db s)\<lparr>workflows := workflows (srv_db s) @ [?w]\<rparr>\<rparr>"
  let ?defs = "get_schedule_workflow_definition (in_action_workflow_name info)"
  have "wf_check ?w" by (simp add: wf_check_def)
  with run have ins: "exec_insert_workflow ?w (srv_db s) = (Inr (), srv_db ?s)"
    by (simp add: exec_insert_workflow_def)
  have "forE (\<lambda>(index, step_def). with_db (insert_workflow_step X clk
           (new_step run_id ids index step_def (schedule_step_args (in_action_args_json info) step_def))))
         (enumerate 0 ?defs) ?s =
      (Inr (), ?s\<lparr>srv_db := with_run X clk run_id ids info (srv_db s)\<rparr>)"
    by (subst forE_insert_steps [where X = X and clk = clk and run_id = run_id and ids = ids
          and args = "schedule_step_args (in_action_args_json info)"])
      (use steps in \<open>auto simp: with_db_def with_run_def get_schedule_workflow_definition_length fresh_steps_def\<close>)
  with ins show ?thesis
    by (simp add: start_schedule_workflow_def insert_workflow_def exec_simps)
qed

text \<open>What happens once a schedule is due, by overlap policy.\<close>

definition terminated :: "clock \<Rightarrow> string \<Rightarrow> db \<Rightarrow> db" where
  "terminated clk sid d = d\<lparr>workflows := update_where (schedule_active sid) (cancel_row clk) (workflows d)\<rparr>"

lemma terminated_simps [simp]:
  "workflow_steps (terminated clk sid d) = workflow_steps d"
  "wf_run_id ` set (workflows (terminated clk sid d)) = wf_run_id ` set (workflows d)"
  by (simp_all add: terminated_def image_update_where)

lemma terminated_inactive: "r \<in> set (workflows (terminated clk sid d)) \<Longrightarrow> \<not> schedule_active sid r"
proof -
  have "\<not> schedule_active sid (if schedule_active sid x then cancel_row clk x else x)" for x
    by (simp add: schedule_active_def)
  then show "r \<in> set (workflows (terminated clk sid d)) \<Longrightarrow> \<not> schedule_active sid r"
    unfolding terminated_def by (simp add: set_update_where) blast
qed

definition after_policy :: "clock \<Rightarrow> string \<Rightarrow> string \<Rightarrow> db \<Rightarrow> db" where
  "after_policy clk policy sid d = (if policy = ''terminate'' then terminated clk sid d else d)"

lemma apply_overlap_policy_eq:
  assumes "distinct (map wf_run_id (workflows d))"
  shows "apply_overlap_policy clk policy sid (\<exists>r \<in> set (workflows d). schedule_active sid r) d =
     (Inr (policy = ''skip'' \<longrightarrow> \<not> (\<exists>r \<in> set (workflows d). schedule_active sid r)), after_policy clk policy sid d)"
proof -
  have "terminated clk sid d = d" if "\<not> (\<exists>r \<in> set (workflows d). schedule_active sid r)"
    using that by (simp add: terminated_def update_where_noop)
  then show ?thesis
    using terminate_existing_eq [OF assms]
    by (simp add: apply_overlap_policy_def after_policy_def terminated_def exec_simps)
qed

lemma process_schedule_due:
  assumes found: "find (\<lambda>r. sr_schedule_id r = sid) (schedules (srv_db s)) = Some row"
    and fire: "fst (should_fire X clk (schedule_info X row) (srv_db s)) = Inr True"
    and ok: "schema_ok (srv_db s)"
    and run: "run_id \<notin> wf_run_id ` set (workflows (srv_db s))"
    and steps: "fresh_steps ids 0 5 (srv_db s)"
  shows "process_schedule X clk run_id ids sid s =
     (if sr_overlap_policy row = ''skip'' \<and> (\<exists>r \<in> set (workflows (srv_db s)). schedule_active sid r) then (Inr (), s)
      else (Inr (), s\<lparr>srv_db := with_run X clk run_id ids (schedule_info X row)
               (after_policy clk (sr_overlap_policy row) sid (srv_db s)),
             srv_events := srv_events s @ [WorkflowCreated run_id]\<rparr>))"
proof -
  let ?info = "schedule_info X row" let ?d = "srv_db s"
  have sid: "in_schedule_id ?info = sid" "in_overlap_policy ?info = sr_overlap_policy row"
    using find_SomeD [OF found] by (simp_all add: schedule_info_def)
  have reads: "snd (should_fire X clk ?info ?d) = ?d"
    by (rule keeps_reads) (unfold should_fire_def check_interval_def, intro inv_rules)
  then have sf: "should_fire X clk ?info ?d = (Inr True, ?d)"
    using fire by (metis prod.collapse)
  have pol: "apply_overlap_policy clk (sr_overlap_policy row) sid (\<exists>r \<in> set (workflows ?d). schedule_active sid r) ?d =
     (Inr (sr_overlap_policy row = ''skip'' \<longrightarrow> \<not> (\<exists>r \<in> set (workflows ?d). schedule_active sid r)),
      after_policy clk (sr_overlap_policy row) sid ?d)"
    using ok by (intro apply_overlap_policy_eq) (simp add: schema_ok_def)
  let ?s' = "s\<lparr>srv_db := after_policy clk (sr_overlap_policy row) sid ?d\<rparr>"
  have "start_schedule_workflow X clk run_id ids sid (in_namespace ?info)
       (in_action_workflow_name ?info) (in_action_task_queue ?info) (in_action_args_json ?info) (in_timeouts_json ?info) ?s' =
     (Inr (), ?s'\<lparr>srv_db := with_run X clk run_id ids ?info (srv_db ?s'), srv_events := srv_events ?s' @ [WorkflowCreated run_id]\<rparr>)"
    using start_schedule_workflow_eq [of run_id ?s' ids X clk ?info] run steps
    by (simp add: sid after_policy_def fresh_steps_def)
  then show ?thesis
    by (auto simp: process_schedule_def exec_simps found sf check_running_eq sid pol after_policy_def)
qed

section \<open>Properties of the overlap policies\<close>

text \<open>
  C17: with the policy \<open>skip\<close>, a schedule that has a pending or running workflow starts nothing: the
  server's state is unchanged, whatever else happens.
\<close>

theorem skip_never_overlaps:
  assumes "find (\<lambda>r. sr_schedule_id r = sid) (schedules (srv_db s)) = Some row" "sr_overlap_policy row = ''skip''"
    and "w \<in> set (workflows (srv_db s))" "schedule_active sid w"
  shows "snd (process_schedule X clk run_id ids sid s) = s"
proof -
  let ?info = "schedule_info X row"
  have "snd (should_fire X clk ?info (srv_db s)) = srv_db s"
    by (rule keeps_reads) (unfold should_fire_def check_interval_def, intro inv_rules)
  then obtain res where sf: "should_fire X clk ?info (srv_db s) = (res, srv_db s)" by (metis prod.collapse)
  have run: "check_running_workflow sid (srv_db s) = (Inr True, srv_db s)"
    using assms(3,4) by (auto simp: check_running_eq)
  have "in_overlap_policy ?info = ''skip''" using assms(2) by (simp add: schedule_info_def)
  then show ?thesis
    using assms(1)
    by (cases res) (auto simp: process_schedule_def exec_simps sf run apply_overlap_policy_def)
qed

lemma sample_interval_row: "find (\<lambda>r. sr_schedule_id r = ''n'') [sample_schedule ''n'' ''interval'' None (Some 60) pol] =
  Some (sample_schedule ''n'' ''interval'' None (Some 60) pol)"
  by (simp add: sample_schedule_def)

definition sample_active :: "sqltext \<Rightarrow> server" where
  "sample_active policy = init_server\<lparr>srv_db := sample_db [sample_schedule ''n'' ''interval'' None (Some 60) policy]
     [sample_workflow ''r'' ''schedule:n-r'' ''running''] [] []\<rparr>"

lemma sample_active_matches: "schedule_active ''n'' (sample_workflow ''r'' ''schedule:n-r'' ''running'')"
  using own_workflow_matches [of "''n''" "''r''"]
  by (simp add: schedule_active_def sample_workflow_def is_active_def schedule_workflow_id_def short_id_def)

theorem skip_never_overlaps_witness:
  "snd (process_schedule ref_ext sample_clock ''r2'' (\<lambda>n. digits_of 2 n) ''n'' (sample_active ''skip'')) = sample_active ''skip''"
  using skip_never_overlaps [of "''n''" "sample_active ''skip''" "sample_schedule ''n'' ''interval'' None (Some 60) ''skip''"
      "sample_workflow ''r'' ''schedule:n-r'' ''running''" ref_ext sample_clock "''r2''" "\<lambda>n. digits_of 2 n"]
    sample_interval_row [of "''skip''"] sample_active_matches
  by (simp add: sample_active_def sample_db_def) (simp add: sample_schedule_def)

text \<open>
  C16: with the policy \<open>terminate\<close>, a schedule that fires leaves exactly one of its workflows active: the
  one it starts. Every other one that was active is cancelled.
\<close>

theorem terminate_leaves_one:
  assumes "find (\<lambda>r. sr_schedule_id r = sid) (schedules (srv_db s)) = Some row" "sr_overlap_policy row = ''terminate''"
    and "fst (should_fire X clk (schedule_info X row) (srv_db s)) = Inr True" "schema_ok (srv_db s)"
    and "run_id \<notin> wf_run_id ` set (workflows (srv_db s))" "fresh_steps ids 0 5 (srv_db s)"
  shows "\<exists>s'. process_schedule X clk run_id ids sid s = (Inr (), s') \<and>
     map wf_run_id (filter (schedule_active sid) (workflows (srv_db s'))) = [run_id]"
proof -
  have sid: "in_schedule_id (schedule_info X row) = sid"
    using find_SomeD [OF assms(1)] by (simp add: schedule_info_def)
  have none: "filter (schedule_active sid) (workflows (terminated clk sid (srv_db s))) = []"
    using terminated_inactive by (fastforce simp: filter_empty_conv)
  show ?thesis
    using process_schedule_due [OF assms(1,3-6)] assms(2)
    by (simp add: after_policy_def with_run_def none sid)
qed

lemma sample_active_schema: "policy \<in> {''skip'', ''buffer'', ''terminate''} \<Longrightarrow> schema_ok (srv_db (sample_active policy))"
  by (auto simp: sample_active_def sample_defs schema_ok_def wf_check_def sched_check_def)

lemma sample_active_fires:
  "fst (should_fire ref_ext sample_clock (schedule_info ref_ext (sample_schedule ''n'' ''interval'' None (Some 60) policy))
     (srv_db (sample_active policy))) = Inr True"
proof -
  have "schedule_workflows ''n'' (srv_db (sample_active policy)) = [sample_workflow ''r'' ''schedule:n-r'' ''running'']"
    using sample_active_matches by (simp add: schedule_workflows_def sample_active_def sample_db_def schedule_active_def)
  then have "max_started ''n'' (srv_db (sample_active policy)) = None"
    by (simp add: max_started_def map_filter_def sample_workflow_def)
  then show ?thesis
    by (simp add: should_fire_def schedule_info_def sample_schedule_def check_interval_def exec_simps)
qed

definition sample_step_ids :: "nat \<Rightarrow> uuid" where
  "sample_step_ids n = replicate n CHR ''s''"

lemma sample_active_fresh: "fresh_steps sample_step_ids 0 5 (srv_db (sample_active policy))"
  by (auto simp: fresh_steps_def sample_active_def sample_db_def inj_on_def sample_step_ids_def)

theorem terminate_leaves_one_witness:
  "\<exists>s'. process_schedule ref_ext sample_clock ''r2'' sample_step_ids ''n'' (sample_active ''terminate'') = (Inr (), s') \<and>
     map wf_run_id (filter (schedule_active ''n'') (workflows (srv_db s'))) = [''r2'']"
  using sample_interval_row [of "''terminate''"]
  by (intro terminate_leaves_one [of "''n''" "sample_active ''terminate''" "sample_schedule ''n'' ''interval'' None (Some 60) ''terminate''"]
      sample_active_fires sample_active_schema sample_active_fresh)
    (simp_all add: sample_active_def sample_db_def, simp_all add: sample_schedule_def sample_workflow_def)

text \<open>
  With the policy \<open>buffer\<close>, a schedule that fires starts a workflow at once, beside those that are
  active: nothing is buffered and there is no bound.
\<close>

lemma buffer_starts_at_once:
  assumes "find (\<lambda>r. sr_schedule_id r = sid) (schedules (srv_db s)) = Some row" "sr_overlap_policy row = ''buffer''"
    and "fst (should_fire X clk (schedule_info X row) (srv_db s)) = Inr True" "schema_ok (srv_db s)"
    and "run_id \<notin> wf_run_id ` set (workflows (srv_db s))" "fresh_steps ids 0 5 (srv_db s)"
  shows "\<exists>s'. process_schedule X clk run_id ids sid s = (Inr (), s') \<and>
     map wf_run_id (filter (schedule_active sid) (workflows (srv_db s'))) =
       map wf_run_id (filter (schedule_active sid) (workflows (srv_db s))) @ [run_id] \<and>
     length (workflow_steps (srv_db s')) = length (workflow_steps (srv_db s)) + 5 \<and>
     srv_events s' = srv_events s @ [WorkflowCreated run_id]"
proof -
  have sid: "in_schedule_id (schedule_info X row) = sid"
    using find_SomeD [OF assms(1)] by (simp add: schedule_info_def)
  show ?thesis
    using process_schedule_due [OF assms(1,3-6)] assms(2)
    by (simp add: after_policy_def with_run_def sid get_schedule_workflow_definition_length)
qed

end
