(* ===== verification/Scheduler_Loop.thy ===== *)
theory Scheduler_Loop
  imports Overlap_Policies
begin

text \<open>
  The loop of \<open>Scheduler::run\<close> (\<open>server/src/scheduler.rs\<close>): what a wake fires and keeps, when a
  schedule fires again, what loading gives, how long the loop sleeps.
\<close>

section \<open>Firing what is due\<close>

text \<open>
  The loop stops at the first entry that is not due; the heap hands out a least entry, so what
  is left is exactly what is not due, and what fired are the due entries in ascending order.
\<close>

lemma sorted_due_prefix:
  assumes "sorted heap" "heap_pop heap = Some (e, rest)" "now < next_fire_time e"
  shows "filter (\<lambda>e. next_fire_time e \<le> now) heap = []" "filter (\<lambda>e. now < next_fire_time e) heap = heap"
proof -
  have none: "\<not> next_fire_time x \<le> now" if "x \<in> set heap" for x
  proof (rule sched_heap.none_below [OF assms(1,2)])
    show "\<not> next_fire_time e \<le> now" using assms(3) by simp
    show "next_fire_time a \<le> now" if "a \<le> b" "next_fire_time b \<le> now" for a b
      using next_fire_time_mono [OF that(1)] that(2) by simp
    show "x \<in># mset heap" using that by simp
  qed
  then show "filter (\<lambda>e. next_fire_time e \<le> now) heap = []" by (simp add: filter_empty_conv)
  show "filter (\<lambda>e. now < next_fire_time e) heap = heap"
    using none by (simp add: filter_id_conv not_le)
qed

definition fire_nth :: "ext \<Rightarrow> (nat \<Rightarrow> fire_env) \<Rightarrow> nat \<times> ScheduleEntry \<Rightarrow> server \<Rightarrow> server" where
  "fire_nth X env = (\<lambda>(n, e) s.
     snd (process_schedule X (fe_clock (env n)) (fe_run_id (env n)) (fe_step_ids (env n)) (entry_schedule_id e) s))"

lemma logErr_state: "logErr m s = (res, s') \<Longrightarrow> s' = snd (m s)"
  by (auto simp: logErr_def split: prod.splits sum.splits)

lemma fire_due_heap:
  assumes "sorted heap" "fire_due X env now n heap s = (Inr (ids, h), s')"
  shows "ids = map entry_schedule_id (filter (\<lambda>e. next_fire_time e \<le> now) heap) \<and>
         h = filter (\<lambda>e. now < next_fire_time e) heap \<and>
         s' = fold (fire_nth X env) (enumerate n (filter (\<lambda>e. next_fire_time e \<le> now) heap)) s"
  using assms
proof (induction X env now n heap s arbitrary: ids h s' rule: fire_due.induct)
  case (1 X env now n heap s)
  show ?case
  proof (cases heap)
    case Nil
    with "1.prems" show ?thesis by (simp add: fire_due.simps [of X env now n "[]"] heap_pop_def)
  next
    case (Cons e rest)
    then have pop: "heap_pop heap = Some (e, rest)" by (simp add: heap_pop_def)
    show ?thesis
    proof (cases "now < next_fire_time e")
      case True
      have "heap_push e rest = heap"
        using "1.prems"(1) by (simp add: heap_push_def Cons insort_is_Cons)
      with True "1.prems" sorted_due_prefix [OF "1.prems"(1) pop True] show ?thesis
        by (simp add: fire_due.simps [of X env now n heap] pop)
    next
      case False
      with "1.prems"(2) obtain s1 ids' where
        fired: "logErr (process_schedule X (fe_clock (env n)) (fe_run_id (env n)) (fe_step_ids (env n)) (entry_schedule_id e)) s = (Inr (), s1)"
        and rest: "fire_due X env now (Suc n) rest s1 = (Inr (ids', h), s')" "ids = entry_schedule_id e # ids'"
        by (auto simp: fire_due.simps [of X env now n heap] pop split: prod.splits sum.splits)
      have "sorted rest" using "1.prems"(1) Cons by simp
      with "1.IH" [OF pop refl False fired [symmetric] refl] rest(1)
      have "ids' = map entry_schedule_id (filter (\<lambda>e. next_fire_time e \<le> now) rest) \<and>
            h = filter (\<lambda>e. now < next_fire_time e) rest \<and>
            s' = fold (fire_nth X env) (enumerate (Suc n) (filter (\<lambda>e. next_fire_time e \<le> now) rest)) s1"
        by blast
      with False rest(2) Cons logErr_state [OF fired] show ?thesis by (simp add: fire_nth_def)
    qed
  qed
qed

lemma sorted_heap_of_fires: "sorted (heap_of_fires m)"
proof -
  have "sorted h \<Longrightarrow> sorted (fold (\<lambda>(i, t). heap_push (ScheduleEntry t i)) m h)" for h
    by (induction m arbitrary: h) (auto intro: sched_heap.push_inv)
  then show ?thesis by (simp add: heap_of_fires_def)
qed

lemma rearm_rejected: "\<not> sql_accepts X next_fire_sql \<Longrightarrow> rearm_fired X clk ids h d = (Inr h, d)"
  by (induction ids) (simp_all add: update_schedule_next_fire_def exec_simps)

section \<open>Properties of the loop\<close>

text \<open>
  C18: when the scheduler wakes and its task survives, it has called \<open>process_schedule\<close> exactly once for each entry
  that is due, in ascending order of time and name, each call on the state the one before left, and done nothing else
  to the server; what it keeps are the entries that are not due.
\<close>

theorem wake_fires_due:
  assumes "sorted heap" "fire_due X env now 0 heap s = (Inr (ids, h), s')"
  shows "ids = map entry_schedule_id (filter (\<lambda>e. next_fire_time e \<le> now) heap) \<and>
     h = filter (\<lambda>e. now < next_fire_time e) heap \<and>
     s' = fold (\<lambda>(n, e) t. snd (process_schedule X (fe_clock (env n)) (fe_run_id (env n)) (fe_step_ids (env n)) (entry_schedule_id e) t))
            (enumerate 0 (filter (\<lambda>e. next_fire_time e \<le> now) heap)) s"
  using fire_due_heap [OF assms] by (simp add: fire_nth_def)

definition sample_env :: "nat \<Rightarrow> fire_env" where
  "sample_env n = \<lparr>fe_clock = sample_clock, fe_run_id = ''new'', fe_step_ids = sample_step_ids\<rparr>"

lemma sample_fires:
  "\<exists>s'. process_schedule ref_ext sample_clock ''new'' sample_step_ids ''n'' (sample_active ''buffer'') = (Inr (), s') \<and>
     map wf_run_id (filter (schedule_active ''n'') (workflows (srv_db s'))) = [''r'', ''new'']"
proof -
  let ?row = "sample_schedule ''n'' ''interval'' None (Some 60) ''buffer''" and ?s = "sample_active ''buffer''"
  have row: "find (\<lambda>r. sr_schedule_id r = ''n'') (schedules (srv_db ?s)) = Some ?row" "sr_overlap_policy ?row = ''buffer''"
    using sample_interval_row [of "''buffer''"] by (simp_all add: sample_active_def sample_db_def sample_schedule_def)
  have active: "workflows (srv_db ?s) = [sample_workflow ''r'' ''schedule:n-r'' ''running'']"
    by (simp add: sample_active_def sample_db_def)
  have id: "wf_run_id (sample_workflow ''r'' ''schedule:n-r'' ''running'') = ''r''" by (simp add: sample_workflow_def)
  show ?thesis
    using buffer_starts_at_once [OF row sample_active_fires sample_active_schema _ sample_active_fresh, of "''new''"]
    by (auto simp: active id sample_active_matches)
qed

theorem wake_fires_due_witness:
  "\<exists>s'. fire_due ref_ext sample_env 7 0 [ScheduleEntry 5 ''n'', ScheduleEntry 9 ''b''] (sample_active ''buffer'') =
     (Inr ([''n''], [ScheduleEntry 9 ''b'']), s') \<and> map wf_run_id (filter (schedule_active ''n'') (workflows (srv_db s'))) = [''r'', ''new'']"
proof -
  let ?heap = "[ScheduleEntry 5 ''n'', ScheduleEntry 9 ''b'']" and ?s = "sample_active ''buffer''"
  from sample_fires obtain s1 where fired: "process_schedule ref_ext sample_clock ''new'' sample_step_ids ''n'' ?s = (Inr (), s1)"
    and new: "map wf_run_id (filter (schedule_active ''n'') (workflows (srv_db s1))) = [''r'', ''new'']" by (elim exE conjE)
  have sorted: "sorted ?heap" by (simp add: less_eq_ScheduleEntry_def)
  have last: "fire_due ref_ext sample_env 7 (Suc 0) [ScheduleEntry 9 ''b''] s1 = (Inr ([], [ScheduleEntry 9 ''b'']), s1)"
    by (subst fire_due.simps) (simp add: heap_pop_def heap_push_def)
  obtain ids h s' where run: "fire_due ref_ext sample_env 7 0 ?heap ?s = (Inr (ids, h), s')"
    using fire_due.simps [of ref_ext sample_env 7 0 ?heap ?s]
    by (simp add: heap_pop_def sample_env_def [of 0] logErr_def fired last)
  from wake_fires_due [OF sorted run] have "ids = [''n'']" "h = [ScheduleEntry 9 ''b'']" "s' = s1"
    by (simp_all add: sample_env_def fired)
  with run new show ?thesis by simp
qed

text \<open>
  A schedule fires once. The query that should compute the next fire time has backslashes in its
  text; as SQLite refuses it, a wake never puts an entry back, and the heap only shrinks to the
  entries that were not due.
\<close>

lemma wake_never_rearms:
  assumes "sorted heap" "\<not> sql_accepts X next_fire_sql" "scheduler_wake X env clk heap s = (Inr h, s')"
  shows "h = filter (\<lambda>e. utc_now clk < next_fire_time e) heap"
proof -
  obtain ids g s1 where fired: "fire_due X env (utc_now clk) 0 heap s = (Inr (ids, g), s1)"
    and rearm: "with_db (rearm_fired X clk ids g) s1 = (Inr h, s')"
    using assms(3) by (auto simp: scheduler_wake_def exec_simps split: prod.splits sum.splits)
  have "h = g" using rearm by (simp add: with_db_def rearm_rejected [OF assms(2)])
  with fire_due_heap [OF assms(1) fired] show ?thesis by simp
qed

text \<open>A cron schedule starts nothing when none of its own expressions has an occurrence less than two seconds ahead.\<close>

lemma cron_not_due:
  assumes "find (\<lambda>r. sr_schedule_id r = sid) (schedules (srv_db s)) = Some row" "sr_spec_type row = ''cron''"
    and "\<And>exprs e t. in_cron_expressions (schedule_info X row) = Some exprs \<Longrightarrow> e \<in> set exprs \<Longrightarrow>
      cron_upcoming X e (utc_now clk) = Some (Some t) \<Longrightarrow> utc_now clk + 2 * nanos_per_sec \<le> t"
  shows "process_schedule X clk run_id ids sid s = (Inr (), s)"
proof -
  have "\<not> check_cron_match X (utc_now clk) exprs" if "in_cron_expressions (schedule_info X row) = Some exprs" for exprs
  proof
    assume "check_cron_match X (utc_now clk) exprs"
    then obtain e t where e: "e \<in> set exprs" "cron_upcoming X e (utc_now clk) = Some (Some t)" "num_seconds_between t (utc_now clk) \<le> 1"
      by (auto simp: check_cron_match_def list_ex_iff Let_def split: option.splits)
    with assms(3) [OF that] have "2 \<le> num_seconds_between t (utc_now clk)"
      using num_seconds_between_ge [of 2 t "utc_now clk"] by fastforce
    with e(3) show False by simp
  qed
  then have "should_fire X clk (schedule_info X row) d = (Inr False, d)" for d
    using assms(2) by (simp add: should_fire_def schedule_info_def exec_simps split: option.split)
  then show ?thesis
    by (simp add: process_schedule_def exec_simps assms(1))
qed

text \<open>
  C40: the scheduler misses the occurrences of a cron schedule. Take a schedule with one expression whose occurrences are at
  least three seconds apart, where \<open>upcoming\<close> gives the first occurrence after a time, as its documentation says. The entry
  of the heap is at such an occurrence \<open>u\<close>; the scheduler wakes at \<open>u\<close> or up to a second later, asks for the first
  occurrence after that moment, which is not \<open>u\<close> but the one after it, finds it too far ahead, and starts nothing.
\<close>

theorem cron_missed_window:
  assumes row: "find (\<lambda>r. sr_schedule_id r = sid) (schedules (srv_db s)) = Some row" "sr_spec_type row = ''cron''"
      "in_cron_expressions (schedule_info X row) = Some [expr]"
    and upcoming: "\<forall>t u. cron_upcoming X expr t = Some (Some u) \<longleftrightarrow> u \<in> occ \<and> t < u \<and> (\<forall>v \<in> occ. t < v \<longrightarrow> u \<le> v)"
    and apart: "\<forall>u \<in> occ. \<forall>v \<in> occ. u < v \<longrightarrow> u + 3 * nanos_per_sec \<le> v"
    and entry: "fst (next_fire X clk0 (schedule_info X row) d) = Inr (Some u)"
    and wake: "u \<le> utc_now clk" "utc_now clk < u + nanos_per_sec"
  shows "process_schedule X clk run_id ids sid s = (Inr (), s)"
proof (rule cron_not_due [OF row(1,2)])
  have cron_info: "in_spec_type (schedule_info X row) = ''cron''" using row(2) by (simp add: schedule_info_def)
  fix exprs e t
  assume "in_cron_expressions (schedule_info X row) = Some exprs" "e \<in> set exprs" "cron_upcoming X e (utc_now clk) = Some (Some t)"
  then have t: "t \<in> occ" "utc_now clk < t" using row(3) upcoming by auto
  have "cron_upcoming X expr (utc_now clk0) = Some (Some u)"
    using entry row(3) cron_info by (simp add: next_fire_def calculate_next_cron_fire_def exec_simps split: option.splits)
  then have "u \<in> occ" using upcoming by blast
  with t wake(1) apart have "u + 3 * nanos_per_sec \<le> t" by force
  with wake(2) show "utc_now clk + 2 * nanos_per_sec \<le> t" by simp
qed

text \<open>In the reference libraries every expression means the full minutes.\<close>

lemma int_less_mult_iff:
  fixes t k m :: int
  assumes "0 < m"
  shows "t < k * m \<longleftrightarrow> t div m + 1 \<le> k"
proof
  assume "t < k * m"
  moreover have "t div m * m \<le> t" using assms div_mult_mod_eq [of t m] pos_mod_sign [of m t] by linarith
  ultimately have "t div m * m < k * m" by linarith
  with assms show "t div m + 1 \<le> k" by simp
next
  assume "t div m + 1 \<le> k"
  then have "(t div m + 1) * m \<le> k * m" using assms by simp
  moreover have "t < (t div m + 1) * m"
    using div_mult_mod_eq [of t m] pos_mod_bound [OF assms, of t] by (simp only: distrib_right)
  ultimately show "t < k * m" by linarith
qed

lemma every_minute: "cron_upcoming ref_ext e t = Some (Some u) \<longleftrightarrow>
  u \<in> range (\<lambda>k. k * (60 * nanos_per_sec)) \<and> t < u \<and> (\<forall>v \<in> range (\<lambda>k. k * (60 * nanos_per_sec)). t < v \<longrightarrow> u \<le> v)"
proof -
  let ?u = "(t div (60 * nanos_per_sec) + 1) * (60 * nanos_per_sec)"
  have minute: "t < k * (60 * nanos_per_sec) \<longleftrightarrow> t div (60 * nanos_per_sec) + 1 \<le> k" for k
    by (rule int_less_mult_iff) simp
  then have least: "t < ?u" "t < k * (60 * nanos_per_sec) \<Longrightarrow> ?u \<le> k * (60 * nanos_per_sec)" for k
    by simp_all
  have "cron_upcoming ref_ext e t = Some (Some ?u)" by (simp add: ref_ext_def)
  moreover have "?u = u \<longleftrightarrow> u \<in> range (\<lambda>k. k * (60 * nanos_per_sec)) \<and> t < u \<and>
    (\<forall>v \<in> range (\<lambda>k. k * (60 * nanos_per_sec)). t < v \<longrightarrow> u \<le> v)" (is "_ \<longleftrightarrow> ?first u")
  proof
    have "?u \<in> range (\<lambda>k. k * (60 * nanos_per_sec))" by (rule rangeI)
    with least show "?u = u \<Longrightarrow> ?first u" by blast
    show "?first u \<Longrightarrow> ?u = u"
      using least \<open>?u \<in> range (\<lambda>k. k * (60 * nanos_per_sec))\<close> by (blast intro: order.antisym)
  qed
  ultimately show ?thesis by (simp only: option.inject)
qed

theorem cron_missed_window_witness:
  "process_schedule ref_ext \<lparr>utc_now = 1020 * nanos_per_sec, sql_now = []\<rparr> ''r'' sample_step_ids ''c''
     (init_server\<lparr>srv_db := sample_db [sample_schedule ''c'' ''cron'' (Some ''[x'') None ''skip''] [] [] []\<rparr>) =
   (Inr (), init_server\<lparr>srv_db := sample_db [sample_schedule ''c'' ''cron'' (Some ''[x'') None ''skip''] [] [] []\<rparr>)"
proof (rule cron_missed_window)
  let ?row = "sample_schedule ''c'' ''cron'' (Some ''[x'') None ''skip''"
  show "find (\<lambda>r. sr_schedule_id r = ''c'') (schedules (srv_db (init_server\<lparr>srv_db := sample_db [?row] [] [] []\<rparr>))) = Some ?row"
    "sr_spec_type ?row = ''cron''"
    by (simp_all add: sample_defs)
  show exprs: "in_cron_expressions (schedule_info ref_ext ?row) = Some [''x'']"
    by (simp add: sample_defs schedule_info_def) (simp add: ref_ext_def)
  show "\<forall>u \<in> range (\<lambda>k. k * (60 * nanos_per_sec)). \<forall>v \<in> range (\<lambda>k. k * (60 * nanos_per_sec)). u < v \<longrightarrow> u + 3 * nanos_per_sec \<le> v"
    by auto
  show "fst (next_fire ref_ext sample_clock (schedule_info ref_ext ?row) migrate) = Inr (Some (1020 * nanos_per_sec))"
    using exprs
    by (simp add: next_fire_def calculate_next_cron_fire_def exec_simps sample_clock_def)
      (simp add: schedule_info_def sample_schedule_def ref_ext_def)
qed (simp_all add: every_minute)

text \<open>
  The next fire time of an interval schedule that has run before lies in the future, if the
  interval is positive as an \<open>i64\<close> and adding seconds to a time is what it says.
\<close>

lemma interval_next_fire_future:
  assumes "in_interval_seconds info = Some secs" "0 < u64_as_i64 secs"
    and "max_started (in_schedule_id info) d = Some txt'"
    and "fst (calculate_next_interval_fire X clk info d) = Inr next_time"
    and "\<forall>t n u. add_secs X t n = Some u \<longrightarrow> u = t + n * nanos_per_sec"
  shows "\<exists>t. next_time = Some t \<and> utc_now clk < t"
proof -
  have nz: "secs \<noteq> 0" using assms(2) by (auto simp: u64_as_i64_def)
  have "add_secs X (utc_now clk) (u64_as_i64 secs) = Some u \<Longrightarrow> utc_now clk < u" for u
    using assms(2,5) by fastforce
  then show ?thesis
    using assms(1,3,4) nz
    by (auto simp: calculate_next_interval_fire_def get_last_started_def exec_simps bindS_def
        split: sum.splits option.splits if_splits) metis+
qed

text \<open>
  The name pattern of a schedule also finds the workflows of another schedule whose name extends
  it by a hyphen; so does \<open>skip\<close>, \<open>terminate\<close> and the last start of an interval.
\<close>

lemma schedule_pattern_collision:
  "sql_like (schedule_pattern sid) (schedule_workflow_id (sid @ ''-'' @ suffix) run_id)"
  using sql_like_self [of "''schedule:'' @ sid @ ''-''" "suffix @ ''-'' @ short_id run_id"]
  by (simp add: schedule_pattern_def schedule_workflow_id_def)

section \<open>Loading the schedules and sleeping\<close>

lemma fires_entry_new: "i \<notin> fst ` set m \<Longrightarrow> fires_entry i t m = m @ [(i, t)]"
  by (induction m) auto

lemma map_filter_compose: "map f (List.map_filter g (map h xs)) = List.map_filter (\<lambda>x. map_option f (g (h x))) xs"
  by (induction xs) (simp_all add: map_filter_simps split: option.split)

lemma distinct_map_filter_key:
  assumes "distinct (map key xs)" "\<And>x y. g x = Some y \<Longrightarrow> key' y = key x"
  shows "distinct (map key' (List.map_filter g xs))"
  using assms(1)
proof (induction xs)
  case (Cons x xs)
  have "key' ` set (List.map_filter g xs) \<subseteq> key ` set xs" using assms(2) by (force simp: map_filter_def)
  with Cons assms(2) show ?case by (auto simp: map_filter_simps split: option.split)
qed (simp add: map_filter_simps)

text \<open>The entry of a schedule in the heap, if it has a next fire time.\<close>

definition fire_entry :: "ext \<Rightarrow> clock \<Rightarrow> db \<Rightarrow> ScheduleInfo \<Rightarrow> (string \<times> time) option" where
  "fire_entry X clk d info =
     (case fst (next_fire X clk info d) of Inr (Some t) \<Rightarrow> Some (in_schedule_id info, t) | _ \<Rightarrow> None)"

lemma collect_fires_entries:
  assumes "collect_fires X clk infos m d = (Inr m', d')"
    and "distinct (map in_schedule_id infos)" "fst ` set m \<inter> in_schedule_id ` set infos = {}"
  shows "m' = m @ List.map_filter (fire_entry X clk d) infos"
  using assms
proof (induction infos arbitrary: m)
  case (Cons info infos)
  obtain res where nf: "next_fire X clk info d = (res, d)"
    using next_fire_reads [of X clk info d] by (metis prod.collapse)
  have new: "fires_entry (in_schedule_id info) t m = m @ [(in_schedule_id info, t)]" for t
    using Cons.prems(3) by (intro fires_entry_new) auto
  show ?case
  proof (cases res)
    case (Inr v)
    show ?thesis
    proof (cases v)
      case None
      with nf Inr Cons show ?thesis by (simp add: map_filter_simps fire_entry_def)
    next
      case (Some t)
      have "fst ` set (m @ [(in_schedule_id info, t)]) \<inter> in_schedule_id ` set infos = {}" using Cons.prems(2,3) by auto
      with Cons.IH [of "m @ [(in_schedule_id info, t)]"] Cons.prems nf Inr Some show ?thesis
        by (simp add: new map_filter_simps fire_entry_def)
    qed
  qed (use nf Cons.prems(1) in simp)
qed (simp add: map_filter_simps)

lemma mset_heap_of_fires: "mset (heap_of_fires m) = mset (map (\<lambda>(i, t). ScheduleEntry t i) m)"
proof -
  have "mset (fold (\<lambda>(i, t). heap_push (ScheduleEntry t i)) m h) = mset (map (\<lambda>(i, t). ScheduleEntry t i) m) + mset h" for h
    by (induction m arbitrary: h) (auto simp: heap_push_def)
  then show ?thesis by (simp add: heap_of_fires_def)
qed

text \<open>
  C25: loading the schedules gives a heap with exactly one entry for every stored schedule that has a next
  fire time, at that time, and no other entry: as multisets, the heap and the fire times of the stored schedules are equal,
  and no schedule is in it twice.
\<close>

theorem reload_entries:
  assumes "schema_ok d" "fst (reload_all_schedules X clk d) = Inr heap"
  shows "sorted heap \<and> distinct (map entry_schedule_id heap) \<and>
    mset heap = mset (List.map_filter (\<lambda>row.
      case fst (next_fire X clk (schedule_info X row) d) of Inr (Some t) \<Rightarrow> Some (ScheduleEntry t (sr_schedule_id row)) | _ \<Rightarrow> None)
      (schedules d))"
proof -
  let ?infos = "map (schedule_info X) (schedules d)" and ?entry = "\<lambda>(i, t). ScheduleEntry t i"
  have key: "in_schedule_id (schedule_info X row) = sr_schedule_id row" for row
    by (simp add: schedule_info_def)
  obtain m d' where m: "collect_fires X clk ?infos [] d = (Inr m, d')" and heap: "heap = heap_of_fires m"
    using assms(2) by (auto simp: reload_all_schedules_def exec_simps split: prod.splits sum.splits)
  have distinct: "distinct (map sr_schedule_id (schedules d))" using assms(1) by (simp add: schema_ok_def)
  then have entries: "m = List.map_filter (fire_entry X clk d) ?infos"
    using collect_fires_entries [OF m] by (simp add: key o_def)
  have listed: "map ?entry m = List.map_filter (\<lambda>row.
      case fst (next_fire X clk (schedule_info X row) d) of Inr (Some t) \<Rightarrow> Some (ScheduleEntry t (sr_schedule_id row)) | _ \<Rightarrow> None)
      (schedules d)" (is "_ = List.map_filter ?g _")
    unfolding entries map_filter_compose
    by (rule arg_cong [where f = "\<lambda>g. List.map_filter g (schedules d)"])
      (auto simp: fun_eq_iff fire_entry_def key split: sum.split option.split)
  have "distinct (map entry_schedule_id (List.map_filter ?g (schedules d)))"
    by (rule distinct_map_filter_key [OF distinct]) (auto split: sum.splits option.splits)
  moreover have "mset heap = mset (List.map_filter ?g (schedules d))"
    by (simp add: heap mset_heap_of_fires listed)
  moreover from this have "mset (map entry_schedule_id heap) = mset (map entry_schedule_id (List.map_filter ?g (schedules d)))"
    by simp
  ultimately show ?thesis
    using mset_eq_imp_distinct_iff sorted_heap_of_fires [of m] unfolding heap by blast
qed

theorem reload_entries_witness:
  "fst (reload_all_schedules ref_ext sample_clock (srv_db (sample_active ''skip''))) = Inr [ScheduleEntry (1000 * nanos_per_sec) ''n'']"
proof -
  let ?d = "srv_db (sample_active ''skip'')" let ?row = "sample_schedule ''n'' ''interval'' None (Some 60) ''skip''"
  have started: "max_started ''n'' ?d = None"
    using sample_active_matches
    by (simp add: max_started_def map_filter_def schedule_workflows_def sample_active_def sample_db_def schedule_active_def)
      (simp add: sample_workflow_def)
  then have nf: "next_fire ref_ext sample_clock (schedule_info ref_ext ?row) ?d = (Inr (Some (1000 * nanos_per_sec)), ?d)"
    by (simp add: next_fire_def schedule_info_def sample_schedule_def calculate_next_interval_fire_def get_last_started_def
        exec_simps i64_as_u64_def sample_clock_def)
  have rows: "schedules ?d = [?row]" by (simp add: sample_active_def sample_db_def)
  obtain heap where heap: "fst (reload_all_schedules ref_ext sample_clock ?d) = Inr heap"
    by (simp add: reload_all_schedules_def exec_simps rows nf)
  have "mset heap = {#ScheduleEntry (1000 * nanos_per_sec) ''n''#}"
    using reload_entries [OF sample_active_schema heap] nf rows
    by (simp add: sample_schedule_def map_filter_simps)
  with heap show ?thesis by simp
qed

text \<open>
  The scheduler sleeps at least half a second, and never wakes before its first entry is due:
  the time of the entry has come when the sleep ends.
\<close>

lemma sleep_long_enough:
  assumes "heap_peek heap = Some e" "next_fire_time e - utc_now clk \<le> i64_max"
  shows "500000000 \<le> sleep_duration clk heap \<and> next_fire_time e \<le> utc_now clk + int (sleep_duration clk heap)"
proof (cases "utc_now clk \<le> next_fire_time e")
  case True
  define diff where "diff = next_fire_time e - utc_now clk"
  have diff: "0 \<le> diff" "diff \<le> i64_max" "i64_min \<le> diff"
    using True assms(2) by (simp_all add: diff_def i64_min_def)
  have secs: "num_seconds_between (next_fire_time e) (utc_now clk) = diff div nanos_per_sec"
    using diff by (cases "diff = 0") (simp_all add: num_seconds_between_def Let_def flip: diff_def)
  have rem: "max 0 (sgn diff * (diff mod nanos_per_sec)) = diff mod nanos_per_sec"
    using diff by (cases "diff = 0") simp_all
  have total: "diff div nanos_per_sec * nanos_per_sec + diff mod nanos_per_sec = diff" by simp
  have "sleep_duration clk heap = max 500000000 (nat diff)"
    using diff by (simp add: sleep_duration_def assms(1) secs rem total Let_def pos_imp_zdiv_nonneg_iff flip: diff_def)
  moreover have "int (max 500000000 (nat diff)) = max 500000000 diff" using diff(1) by simp
  ultimately show ?thesis by (simp add: diff_def)
next
  case False
  then show ?thesis by (simp add: sleep_duration_def)
qed

end
