(* ===== verification/Temporal_Stubs.thy ===== *)
theory Temporal_Stubs
  imports Server_State
begin

text \<open>
  The calls of Temporal's \<open>WorkflowService\<close> that \<open>server/src/grpc.rs\<close> has only because the trait requires them: they
  do not look at the request, touch neither the database nor the engine's channel, and answer with the
  default value of their response. They are grouped as the comments of the source group them, one
  constructor for each of the 110 functions, in their order. \<open>get_system_info\<close> tells the version of the package and nothing else.
\<close>

section \<open>The calls\<close>

datatype workflow_task_call =
    GetWorkflowExecutionHistory | PollWorkflowTaskQueue | RespondWorkflowTaskCompleted | RespondWorkflowTaskFailed

datatype schedule_call =
    PatchSchedule | ListSchedules

datatype workflow_execution_call =
    DescribeWorkflowExecution | ListNamespaces | UpdateNamespace | DeprecateNamespace | ExecuteMultiOperation
  | GetWorkflowExecutionHistoryReverse | RequestCancelWorkflowExecution | SignalWorkflowExecution
  | SignalWithStartWorkflowExecution | ResetWorkflowExecution | TerminateWorkflowExecution
  | DeleteWorkflowExecution | ListOpenWorkflowExecutions | ListClosedWorkflowExecutions | ListWorkflowExecutions
  | ListArchivedWorkflowExecutions | ScanWorkflowExecutions | CountWorkflowExecutions

datatype task_call =
    RecordActivityTaskHeartbeat | RecordActivityTaskHeartbeatById | RespondActivityTaskCompletedById
  | RespondActivityTaskFailedById | RespondActivityTaskCanceled | RespondActivityTaskCanceledById
  | RespondQueryTaskCompleted | ResetStickyTaskQueue | DescribeTaskQueue | ListTaskQueuePartitions
  | GetClusterInfo | GetSearchAttributes | ListScheduleMatchingTimes | CountSchedules

datatype worker_versioning_call =
    UpdateWorkerBuildIdCompatibility | GetWorkerBuildIdCompatibility | UpdateWorkerVersioningRules
  | GetWorkerVersioningRules | GetWorkerTaskReachability

datatype worker_deployment_call =
    DescribeDeployment | DescribeWorkerDeploymentVersion | ListDeployments | GetDeploymentReachability
  | GetCurrentDeployment | SetCurrentDeployment | SetWorkerDeploymentCurrentVersion | DescribeWorkerDeployment
  | DeleteWorkerDeployment | DeleteWorkerDeploymentVersion | SetWorkerDeploymentRampingVersion
  | ListWorkerDeployments | CreateWorkerDeployment | CreateWorkerDeploymentVersion
  | UpdateWorkerDeploymentVersionComputeConfig | ValidateWorkerDeploymentVersionComputeConfig
  | UpdateWorkerDeploymentVersionMetadata | SetWorkerDeploymentManager

datatype operation_call =
    UpdateWorkflowExecution | PollWorkflowExecutionUpdate | StartBatchOperation | StopBatchOperation
  | DescribeBatchOperation | ListBatchOperations | PollNexusTaskQueue | RespondNexusTaskCompleted
  | RespondNexusTaskFailed | UpdateActivityOptions | UpdateWorkflowExecutionOptions | PauseActivity
  | UnpauseActivity | ResetActivity | CreateWorkflowRule | DescribeWorkflowRule | DeleteWorkflowRule
  | ListWorkflowRules | TriggerWorkflowRule

datatype worker_call =
    RecordWorkerHeartbeat | ListWorkers | UpdateTaskQueueConfig | FetchWorkerConfig | UpdateWorkerConfig
  | DescribeWorker | PauseWorkflowExecution | UnpauseWorkflowExecution

datatype execution_call =
    StartActivityExecution | StartNexusOperationExecution | DescribeActivityExecution
  | DescribeNexusOperationExecution | PollActivityExecution | PollNexusOperationExecution | ListActivityExecutions
  | ListNexusOperationExecutions | CountActivityExecutions | CountNexusOperationExecutions
  | RequestCancelActivityExecution | RequestCancelNexusOperationExecution | TerminateActivityExecution
  | DeleteActivityExecution | PauseActivityExecution | ResetActivityExecution | UnpauseActivityExecution
  | UpdateActivityExecutionOptions | TerminateNexusOperationExecution | DeleteNexusOperationExecution

datatype query_call =
    ShutdownWorker | QueryWorkflow

datatype stub_call =
    WorkflowTaskStub workflow_task_call
  | ScheduleStub schedule_call
  | WorkflowExecutionStub workflow_execution_call
  | TaskStub task_call
  | WorkerVersioningStub worker_versioning_call
  | WorkerDeploymentStub worker_deployment_call
  | OperationStub operation_call
  | WorkerStub worker_call
  | ExecutionStub execution_call
  | QueryStub query_call

section \<open>Their answers\<close>

text \<open>The default value of the response that belongs to the call.\<close>

datatype stub_response = DefaultResponse stub_call

definition temporal_stub :: "stub_call \<Rightarrow> (server, status, stub_response) exec" where
  "temporal_stub c = okE (DefaultResponse c)"

text \<open>The version is that of the package \<open>khronos-server\<close> in its \<open>Cargo.toml\<close>.\<close>

definition cargo_pkg_version :: string where
  "cargo_pkg_version = ''0.1.0''"

definition get_system_info :: "(server, status, string) exec" where
  "get_system_info = okE cargo_pkg_version"

end
