(* ===== verification/Grpc_Temporal.thy ===== *)
theory Grpc_Temporal
  imports Grpc_Workflow Temporal_Stubs
begin

text \<open>
  The part of Temporal's \<open>WorkflowService\<close> that \<open>server/src/grpc.rs\<close> implements: namespaces,
  starting workflows, activity tasks and schedules. The remaining calls of the trait, which answer with
  an empty message, are in \<open>Temporal_Stubs\<close>. \<open>update_schedule\<close>, which splices the texts of the
  request into an SQL statement, is in \<open>Temporal_Update\<close>.

  Messages are records of the fields the code reads or writes. A \<open>prost_types::Duration\<close> is
  its seconds, a payload its bytes, an answered payload or token its text.
\<close>

type_synonym bytes = "8 word list"

record TStartWorkflowRequest =
  tsr_namespace :: string
  tsr_workflow_id :: string
  tsr_workflow_type :: "string option"
  tsr_task_queue :: "string option"
  tsr_input :: "bytes list option"
  tsr_execution_timeout :: "i64 option"
  tsr_run_timeout :: "i64 option"
  tsr_task_timeout :: "i64 option"

record TActivityTask =
  ttk_task_token :: string
  ttk_workflow_namespace :: string
  ttk_run_id :: string
  ttk_activity_type :: string
  ttk_input :: "string list"
  ttk_heartbeat_timeout :: i64
  ttk_close_timeout :: i64

record TStartWorkflowAction =
  tsw_workflow_type :: "string option"
  tsw_task_queue :: "string option"
  tsw_workflow_id :: string
  tsw_input :: "bytes list option"

record TScheduleSpec =
  tsp_cron_string :: "string list"
  tsp_interval :: "i64 option list"

record TSchedule =
  tsc_spec :: "TScheduleSpec option"
  tsc_action :: "TStartWorkflowAction option option"
  tsc_policies :: "int option"

record TCreateScheduleRequest =
  tcr_schedule_id :: string
  tcr_namespace :: string
  tcr_schedule :: "TSchedule option"

section \<open>Namespaces\<close>

text \<open>
  The columns \<open>migrate\<close> gives the table \<open>namespaces\<close>; an INSERT that names another one is refused
  when it is prepared.
\<close>

definition namespaces_columns :: "string list" where
  "namespaces_columns = [''name'', ''created_at'']"

definition exec_insert_namespace :: "string list \<Rightarrow> ns_row \<Rightarrow> (db, err, unit) exec" where
  "exec_insert_namespace cols r d =
     (case find (\<lambda>c. c \<notin> set namespaces_columns) cols of
        Some c \<Rightarrow> (Inl (SqlErr (NoSuchColumn c)), d)
      | None \<Rightarrow>
          (if ns_name r \<in> ns_name ` set (namespaces d) then (Inl (SqlErr UniqueConstraint), d)
           else (Inr (), d\<lparr>namespaces := namespaces d @ [r]\<rparr>)))"

definition register_namespace :: "sqltext \<Rightarrow> string \<Rightarrow> (server, status, unit) exec" where
  "register_namespace epoch_secs namespace =
     andThen (with_db (readE (\<lambda>d. Inr (count_where (\<lambda>r. ns_name r = namespace) (namespaces d))))) (\<lambda>cnt.
       if cnt = 0 then
         mapErr (Internal ''Failed to create namespace'')
           (with_db (exec_insert_namespace [''name'', ''created_at'', ''updated_at'']
              \<lparr>ns_name = namespace, ns_created_at = epoch_secs\<rparr>))
       else okE ())"

definition describe_namespace :: "string \<Rightarrow> (server, status, string) exec" where
  "describe_namespace namespace =
     andThen (with_db (readE (\<lambda>d. Inr (count_where (\<lambda>r. ns_name r = namespace) (namespaces d))))) (\<lambda>cnt.
       if cnt = 0 then errE (NotFoundStatus (''Namespace '' @ namespace @ '' not found''))
       else okE namespace)"

section \<open>Workflows and activity tasks\<close>

definition args_of_payloads :: "ext \<Rightarrow> bytes list option \<Rightarrow> json" where
  "args_of_payloads X input =
     (case input of
        Some payloads \<Rightarrow>
          (if payloads = [] then JObject [] else JArray (map (\<lambda>p. JString (utf8_lossy X p)) payloads))
      | None \<Rightarrow> JObject [])"

definition start_workflow_execution ::
  "ext \<Rightarrow> clock \<Rightarrow> uuid \<Rightarrow> (nat \<Rightarrow> uuid) \<Rightarrow> TStartWorkflowRequest \<Rightarrow> (server, status, string) exec" where
  "start_workflow_execution X clk run_id step_ids req =
     (let workflow_name = (case tsr_workflow_type req of None \<Rightarrow> [] | Some n \<Rightarrow> n);
          args = args_of_payloads X (tsr_input req) in
      andThen (mapErr (Internal ''Failed to create workflow'') (with_db (insert_workflow X
         \<lparr>wi_run_id = run_id,
          wi_workflow_id = tsr_workflow_id req,
          wi_name = workflow_name,
          wi_task_queue = (case tsr_task_queue req of None \<Rightarrow> ''default'' | Some q \<Rightarrow> q),
          wi_state = Pending,
          wi_args_json = args,
          wi_result_json = None,
          wi_timeouts = \<lparr>execution_timeout_secs = map_option i64_as_u64 (tsr_execution_timeout req),
                         run_timeout_secs = map_option i64_as_u64 (tsr_run_timeout req),
                         task_timeout_secs = map_option i64_as_u64 (tsr_task_timeout req)\<rparr>,
          wi_started_at = None,
          wi_completed_at = None,
          wi_namespace = default_namespace (tsr_namespace req)\<rparr>))) (\<lambda>_.
      andThen (forE (\<lambda>(index, step_def).
                 mapErr (Internal ''Failed to create step'')
                   (with_db (insert_workflow_step X clk (new_step run_id step_ids index step_def args))))
               (enumerate 0 (get_workflow_definition workflow_name))) (\<lambda>_.
      okE run_id)))"

text \<open>\<open>unwrap_or_default\<close> on the column of the workflow's row.\<close>

definition workflow_column :: "(wf_row \<Rightarrow> string) \<Rightarrow> string \<Rightarrow> sqltext \<Rightarrow> db \<Rightarrow> string" where
  "workflow_column col dflt run_id d =
     (case find (\<lambda>r. wf_run_id r = run_id) (workflows d) of Some r \<Rightarrow> col r | None \<Rightarrow> dflt)"

definition task_input :: "ext \<Rightarrow> json \<Rightarrow> string list" where
  "task_input X args =
     (case args of
        JString job_id \<Rightarrow> (if job_id = [] then [] else [json_to_string X (JString job_id)])
      | _ \<Rightarrow> [])"

definition temporal_task_of :: "ext \<Rightarrow> uuid \<Rightarrow> WorkflowStepInstance \<Rightarrow> string \<Rightarrow> TActivityTask" where
  "temporal_task_of X activity_id s namespace = \<lparr>
     ttk_task_token = activity_id,
     ttk_workflow_namespace = namespace,
     ttk_run_id = si_workflow_run_id s,
     ttk_activity_type = si_activity_name s,
     ttk_input = task_input X (si_args_json s),
     ttk_heartbeat_timeout = u64_as_i64 (case si_heartbeat_timeout_secs s of None \<Rightarrow> 30 | Some n \<Rightarrow> n),
     ttk_close_timeout = u64_as_i64 (si_timeout_secs s)\<rparr>"

definition poll_activity_task_queue ::
  "ext \<Rightarrow> clock \<Rightarrow> uuid \<Rightarrow> string option \<Rightarrow> (server, status, TActivityTask option) exec" where
  "poll_activity_task_queue X clk activity_id queue =
     (let task_queue = (case queue of None \<Rightarrow> [] | Some q \<Rightarrow> q) in
      andThen (mapErr (Internal ''Failed to get pending steps'') (with_db (get_pending_steps X clk))) (\<lambda>pending_steps.
      andThen (with_db (readE (\<lambda>d. Inr (find (\<lambda>s. workflow_column wf_task_queue [] (si_workflow_run_id s) d = task_queue)
                 pending_steps)))) (\<lambda>found.
        case found of
          Some s \<Rightarrow>
            andThen (with_db (assign_step X clk activity_id s)) (\<lambda>_.
            andThen (with_db (readE (\<lambda>d. Inr (workflow_column wf_namespace ''default'' (si_workflow_run_id s) d)))) (\<lambda>ns.
            okE (Some (temporal_task_of X activity_id s ns))))
        | None \<Rightarrow> okE None)))"

text \<open>The result payload: JSON if it parses, else the text itself.\<close>

definition result_of_payloads :: "ext \<Rightarrow> bytes list option \<Rightarrow> json" where
  "result_of_payloads X result =
     (case result of
        Some (payload # _) \<Rightarrow>
          (case json_from_slice X payload of Some v \<Rightarrow> v | None \<Rightarrow> JString (utf8_lossy X payload))
      | _ \<Rightarrow> JObject [])"

definition respond_activity_task_completed ::
  "ext \<Rightarrow> clock \<Rightarrow> bytes \<Rightarrow> bytes list option \<Rightarrow> (server, status, unit) exec" where
  "respond_activity_task_completed X clk task_token result =
     (let activity_id = utf8_lossy X task_token;
          result_json = result_of_payloads X result in
      andThen (mapErr (Internal ''Failed to update activity'')
                 (with_db (update_activity_state X clk activity_id Activity_Completed (Some result_json) None))) (\<lambda>_.
      andThen (mapErr (Internal ''Failed to find activity'')
                 (with_db (query_row activities (\<lambda>r. ac_id r = activity_id) ac_step_id))) (\<lambda>step_id.
      andThen (mapErr (Internal ''Failed to update step'')
                 (with_db (update_step_state X step_id Completed None (Some result_json) None))) (\<lambda>_.
      andThen (mapErr (Internal ''Failed to find workflow_run_id'')
                 (with_db (query_row workflow_steps (\<lambda>r. st_id r = step_id) st_workflow_run_id))) (\<lambda>workflow_run_id.
      notify_engine (StepCompleted workflow_run_id))))))"

definition respond_activity_task_failed ::
  "ext \<Rightarrow> clock \<Rightarrow> bytes \<Rightarrow> string option \<Rightarrow> (server, status, unit) exec" where
  "respond_activity_task_failed X clk task_token failure =
     (let activity_id = utf8_lossy X task_token in
      andThen (mapErr (Internal ''Failed to find activity'')
                 (with_db (query_row activities (\<lambda>r. ac_id r = activity_id)
                    (\<lambda>r. (ac_step_id r, i64_as_u32 (ac_attempt r)))))) (\<lambda>(step_id, attempt).
      andThen (mapErr (Internal ''Failed to get retry policy'')
                 (with_db (query_row workflow_steps (\<lambda>r. st_id r = step_id) st_retry_policy_json))) (\<lambda>retry_policy_json.
      andThen (case retry_from_str X retry_policy_json of
                 Some p \<Rightarrow> okE p
               | None \<Rightarrow> errE (Internal ''Invalid retry policy JSON'' SerdeErr)) (\<lambda>retry_policy.
      andThen (mapErr (Internal ''Failed to update activity'')
                 (with_db (update_activity_state X clk activity_id Activity_Failed None
                    (Some (case failure of None \<Rightarrow> [] | Some m \<Rightarrow> m))))) (\<lambda>_.
      andThen (with_db (retry_or_fail X clk step_id retry_policy (attempt + 1))) (\<lambda>will_retry.
        if will_retry then okE ()
        else
          andThen (mapErr (Internal ''Failed to find workflow_run_id'')
                     (with_db (query_row workflow_steps (\<lambda>r. st_id r = step_id) st_workflow_run_id))) (\<lambda>workflow_run_id.
          notify_engine (StepCompleted workflow_run_id))))))))"

section \<open>Schedules\<close>

fun join_comma :: "string list \<Rightarrow> string" where
  "join_comma [] = []"
| "join_comma [x] = x"
| "join_comma (x # y # xs) = x @ '','' @ join_comma (y # xs)"

text \<open>\<open>(spec_type, cron_expressions, interval_seconds)\<close> of the row.\<close>

definition temporal_spec_columns :: "TScheduleSpec \<Rightarrow> status + sqltext \<times> sqltext \<times> i64" where
  "temporal_spec_columns spec =
     (if tsp_cron_string spec \<noteq> [] then Inr (''cron'', join_comma (tsp_cron_string spec), 0)
      else
        (case tsp_interval spec of
           iv # _ \<Rightarrow> Inr (''interval'', [], case iv of None \<Rightarrow> 0 | Some secs \<Rightarrow> secs)
         | [] \<Rightarrow> Inl (InvalidArgument ''schedule spec must have cron_string or interval'')))"

definition lycus_prefix :: string where
  "lycus_prefix = ''lycus-cron-''"

definition temporal_job_id :: "ext \<Rightarrow> string \<Rightarrow> bytes list option \<Rightarrow> string" where
  "temporal_job_id X schedule_id input =
     (case input of
        Some payloads \<Rightarrow> (case payloads of [] \<Rightarrow> [] | p # _ \<Rightarrow> utf8_lossy X p)
      | None \<Rightarrow>
          (if take (length lycus_prefix) schedule_id = lycus_prefix
           then drop (length lycus_prefix) schedule_id else []))"

definition temporal_overlap_policy :: "int option \<Rightarrow> string" where
  "temporal_overlap_policy p =
     (case p of
        None \<Rightarrow> ''skip''
      | Some n \<Rightarrow> (if n \<in> {0, 1} then ''skip'' else if n \<in> {2, 3} then ''buffer''
                   else if n \<in> {4, 5} then ''terminate'' else ''skip''))"

definition temporal_schedule_row ::
  "ext \<Rightarrow> clock \<Rightarrow> TCreateScheduleRequest \<Rightarrow> (sqltext \<times> sqltext \<times> i64) \<Rightarrow> TStartWorkflowAction \<Rightarrow> int option \<Rightarrow> sched_row" where
  "temporal_schedule_row X clk req cols sw policies =
     (case cols of (spec_type, cron_expressions, interval_seconds) \<Rightarrow> \<lparr>
        sr_schedule_id = tcr_schedule_id req,
        sr_namespace = default_namespace (tcr_namespace req),
        sr_spec_type = spec_type,
        sr_cron_expressions = Some cron_expressions,
        sr_interval_seconds = Some interval_seconds,
        sr_overlap_policy = temporal_overlap_policy policies,
        sr_action_workflow_name = (case tsw_workflow_type sw of None \<Rightarrow> [] | Some n \<Rightarrow> n),
        sr_action_task_queue = (case tsw_task_queue sw of None \<Rightarrow> [] | Some q \<Rightarrow> q),
        sr_action_args_json = temporal_job_id X (tcr_schedule_id req) (tsw_input sw),
        sr_action_id = Some (tsw_workflow_id sw),
        sr_timeouts_json = ''{}'',
        sr_created_at = sql_now clk,
        sr_updated_at = sql_now clk\<rparr>)"

definition temporal_create_schedule :: "ext \<Rightarrow> clock \<Rightarrow> TCreateScheduleRequest \<Rightarrow> (server, status, unit) exec" where
  "temporal_create_schedule X clk req =
     andThen (readE (\<lambda>_. option_to_sum (InvalidArgument ''schedule is required'') (tcr_schedule req))) (\<lambda>sched.
     andThen (readE (\<lambda>_. option_to_sum (InvalidArgument ''schedule spec is required'') (tsc_spec sched))) (\<lambda>spec.
     andThen (readE (\<lambda>_. option_to_sum (InvalidArgument ''schedule action is required'') (tsc_action sched))) (\<lambda>action.
     andThen (readE (\<lambda>_. temporal_spec_columns spec)) (\<lambda>cols.
     andThen (readE (\<lambda>_. option_to_sum (InvalidArgument ''schedule action start_workflow is required'') action)) (\<lambda>sw.
     mapErr (Internal ''Failed to create schedule'')
       (with_db (exec_insert_schedule (temporal_schedule_row X clk req cols sw (tsc_policies sched)))))))))"

definition describe_overlap_policy :: "string \<Rightarrow> int" where
  "describe_overlap_policy p =
     (if p = ''skip'' then 1 else if p = ''buffer'' then 2 else if p = ''terminate'' then 4 else 1)"

definition describe_spec :: "ext \<Rightarrow> sched_row \<Rightarrow> TScheduleSpec" where
  "describe_spec X row =
     (if sr_spec_type row = ''cron'' then
        \<lparr>tsp_cron_string = (case Option.bind (sr_cron_expressions row) (strs_from_str X) of None \<Rightarrow> [] | Some l \<Rightarrow> l),
         tsp_interval = []\<rparr>
      else if sr_spec_type row = ''interval'' then
        (let secs = (case sr_interval_seconds row of None \<Rightarrow> 0 | Some n \<Rightarrow> n) in
         \<lparr>tsp_cron_string = [], tsp_interval = (if 0 < secs then [Some secs] else [])\<rparr>)
      else \<lparr>tsp_cron_string = [], tsp_interval = []\<rparr>)"

definition describe_schedule :: "ext \<Rightarrow> string \<Rightarrow> string \<Rightarrow> (server, status, TSchedule) exec" where
  "describe_schedule X schedule_id namespace =
     andThen (with_db (readE (\<lambda>d. Inr (find (\<lambda>r. sr_schedule_id r = schedule_id \<and>
                sr_namespace r = default_namespace namespace) (schedules d))))) (\<lambda>found.
       case found of
         None \<Rightarrow> errE (NotFoundStatus ''Schedule not found'')
       | Some row \<Rightarrow> okE \<lparr>
           tsc_spec = Some (describe_spec X row),
           tsc_action = Some (Some \<lparr>
             tsw_workflow_type = Some (sr_action_workflow_name row),
             tsw_task_queue = Some (sr_action_task_queue row),
             tsw_workflow_id = (case sr_action_id row of None \<Rightarrow> [] | Some i \<Rightarrow> i),
             tsw_input = None\<rparr>),
           tsc_policies = Some (describe_overlap_policy (sr_overlap_policy row))\<rparr>)"

definition temporal_delete_schedule :: "string \<Rightarrow> string \<Rightarrow> (server, status, unit) exec" where
  "temporal_delete_schedule schedule_id namespace =
     andThen (mapErr (Internal ''Failed to delete schedule'') (with_db (exec_delete_schedules
        (\<lambda>r. sr_schedule_id r = schedule_id \<and> sr_namespace r = default_namespace namespace)))) (\<lambda>_. okE ())"

section \<open>What the calls keep of the database\<close>

lemma register_namespace_no_column:
  "exec_insert_namespace [''name'', ''created_at'', ''updated_at''] r d = (Inl (SqlErr (NoSuchColumn ''updated_at'')), d)"
  by (simp add: exec_insert_namespace_def namespaces_columns_def)

lemma keeps_insert_namespace [inv_rules]:
  "keeps J (exec_insert_namespace [''name'', ''created_at'', ''updated_at''] r)"
  by (simp add: keeps_def register_namespace_no_column)

context db_client
begin

lemma keeps_register_namespace: "keeps (on_db I) (register_namespace e ns)"
  unfolding register_namespace_def by (intro inv_rules)

lemma keeps_describe_namespace: "keeps (on_db I) (describe_namespace ns)"
  unfolding describe_namespace_def by (intro inv_rules)

lemma keeps_start_workflow_execution: "keeps (on_db I) (start_workflow_execution X clk run_id ids treq)"
  unfolding start_workflow_execution_def by (intro inv_rules client_rules)

lemma keeps_poll_activity_task_queue: "keeps (on_db I) (poll_activity_task_queue X clk aid q)"
  unfolding poll_activity_task_queue_def by (intro inv_rules keeps_assign_step)

lemma keeps_respond_completed: "keeps (on_db I) (respond_activity_task_completed X clk tok res)"
  unfolding respond_activity_task_completed_def by (intro inv_rules client_rules)

lemma keeps_respond_failed: "keeps (on_db I) (respond_activity_task_failed X clk tok f)"
  unfolding respond_activity_task_failed_def by (intro inv_rules client_rules keeps_retry_or_fail)

lemma keeps_temporal_create_schedule: "keeps (on_db I) (temporal_create_schedule X clk creq)"
  unfolding temporal_create_schedule_def by (intro inv_rules client_rules)

lemma keeps_temporal_delete_schedule: "keeps (on_db I) (temporal_delete_schedule sid ns)"
  unfolding temporal_delete_schedule_def by (intro inv_rules client_rules)

lemma keeps_describe_schedule: "keeps (on_db I) (describe_schedule X sid ns)"
  unfolding describe_schedule_def by (intro inv_rules)

end

section \<open>The Temporal reports and the native ones\<close>

text \<open>The run of a step that has no attempt left when the activity is reported as failed.\<close>

definition fails_for_good :: "ext \<Rightarrow> db \<Rightarrow> sqltext \<Rightarrow> sqltext option" where
  "fails_for_good X d aid =
     Option.bind (find (\<lambda>r. ac_id r = aid) (activities d)) (\<lambda>a.
     Option.bind (find (\<lambda>r. st_id r = ac_step_id a) (workflow_steps d)) (\<lambda>st.
     Option.bind (retry_from_str X (st_retry_policy_json st)) (\<lambda>p.
       if i64_as_u32 (ac_attempt a) + 1 < maximum_attempts p then None else Some (st_workflow_run_id st))))"

lemma failed_step_run:
  "find (\<lambda>r. st_id r = sid) rows = Some st \<Longrightarrow>
   find (\<lambda>r. st_id r = sid) (update_where P (step_update X state att res nxt) rows) =
     Some (if P st then step_update X state att res nxt st else st)"
  by (induction rows) (auto simp: update_where_def)

lemma respond_failed_eq:
  "snd (respond_activity_task_failed X clk tok (Some msg) s) =
     (let s' = snd (report_activity_failure X clk (utf8_lossy X tok) msg s) in
      case fails_for_good X (srv_db s) (utf8_lossy X tok) of
        Some run_id \<Rightarrow> if srv_engine_tx s then s'\<lparr>srv_events := srv_events s' @ [StepCompleted run_id]\<rparr> else s'
      | None \<Rightarrow> s')"
proof (cases "find (\<lambda>r. ac_id r = utf8_lossy X tok) (activities (srv_db s))")
  case None
  then show ?thesis
    by (simp add: respond_activity_task_failed_def report_activity_failure_def fails_for_good_def exec_simps query_row_def Let_def)
next
  case act: (Some a)
  show ?thesis
  proof (cases "find (\<lambda>r. st_id r = ac_step_id a) (workflow_steps (srv_db s))")
    case None
    with act show ?thesis
      by (simp add: respond_activity_task_failed_def report_activity_failure_def fails_for_good_def exec_simps query_row_def Let_def)
  next
    case (Some st)
    with act failed_step_run [OF Some] show ?thesis
      by (simp add: respond_activity_task_failed_def report_activity_failure_def fails_for_good_def exec_simps query_row_def
          retry_or_fail_def update_activity_state_eq update_step_state_eq step_update_def Let_def split: option.split)
  qed
qed

text \<open>
  C27: a worker may report through either service. \<open>RespondActivityTaskCompleted\<close> with a payload and
  \<open>ReportActivityResult\<close> with a text that stand for the same JSON value fail in the same states and
  leave the same server behind. \<open>RespondActivityTaskFailed\<close> and \<open>ReportActivityFailure\<close> with the same message do the same
  too, with one difference: when the step has no attempt left, the Temporal call tells the engine that the step has ended, and
  the native one does not.
\<close>

theorem temporal_reports_agree:
  assumes "json_from_slice X payload = Some v" "txt \<noteq> []" "json_from_str X txt = Some v"
  shows "snd (respond_activity_task_completed X clk tok (Some (payload # ps)) s) =
      snd (report_activity_result X clk (utf8_lossy X tok) txt s) \<and>
    isl (fst (respond_activity_task_completed X clk tok (Some (payload # ps)) s)) =
      isl (fst (report_activity_result X clk (utf8_lossy X tok) txt s)) \<and>
    snd (respond_activity_task_failed X clk tok (Some msg) s) =
      (let s' = snd (report_activity_failure X clk (utf8_lossy X tok) msg s) in
       case fails_for_good X (srv_db s) (utf8_lossy X tok) of
         Some run_id \<Rightarrow> if srv_engine_tx s then s'\<lparr>srv_events := srv_events s' @ [StepCompleted run_id]\<rparr> else s'
       | None \<Rightarrow> s') \<and>
    srv_events (snd (report_activity_failure X clk (utf8_lossy X tok) msg s)) = srv_events s"
proof (intro conjI)
  have v: "result_of_payloads X (Some (payload # ps)) = v"
    using assms(1) by (simp add: result_of_payloads_def)
  show "snd (respond_activity_task_completed X clk tok (Some (payload # ps)) s) =
      snd (report_activity_result X clk (utf8_lossy X tok) txt s)"
    "isl (fst (respond_activity_task_completed X clk tok (Some (payload # ps)) s)) =
      isl (fst (report_activity_result X clk (utf8_lossy X tok) txt s))"
    using assms(2,3)
    by (auto simp: respond_activity_task_completed_def report_activity_result_def v Let_def exec_simps
        split: sum.split prod.split)
  show "srv_events (snd (report_activity_failure X clk (utf8_lossy X tok) msg s)) = srv_events s"
    by (auto simp: report_activity_failure_def exec_simps split: sum.split prod.split option.split)
qed (rule respond_failed_eq)

text \<open>A step at the last of its three attempts.\<close>

definition sample_last :: server where
  "sample_last = init_server\<lparr>srv_db := sample_db [] [sample_workflow ''r'' ''w'' ''running'']
     [sample_step ''s'' ''r'' 0 ''running'' 2] [sample_activity ''a'' ''s'' 2 ''running'']\<rparr>"

theorem temporal_reports_agree_witness:
  "snd (respond_activity_task_completed ref_ext sample_clock [97] (Some [[111, 107]]) sample_last) =
     snd (report_activity_result ref_ext sample_clock ''a'' ''ok'' sample_last) \<and>
   srv_events (snd (respond_activity_task_failed ref_ext sample_clock [97] (Some ''no'') sample_last)) = [StepCompleted ''r''] \<and>
   srv_events (snd (report_activity_failure ref_ext sample_clock ''a'' ''no'' sample_last)) = []"
proof -
  have "char_of (97 :: nat) = CHR ''a''" "char_of (111 :: nat) = CHR ''o''" "char_of (107 :: nat) = CHR ''k''"
    by code_simp+
  then have "utf8_lossy ref_ext [97] = ''a''" "json_from_slice ref_ext [111, 107] = Some (JString ''ok'')"
    "json_from_str ref_ext ''ok'' = Some (JString ''ok'')"
    by (simp_all add: ref_ext_def)
  moreover have "fails_for_good ref_ext (srv_db sample_last) ''a'' = Some ''r''"
    by (simp add: fails_for_good_def sample_last_def sample_defs i64_as_u32_def) (simp add: ref_ext_def digits_val_def)
  moreover have "srv_engine_tx sample_last" "srv_events sample_last = []" by (simp_all add: sample_last_def init_server_def)
  ultimately show ?thesis
    using temporal_reports_agree [of ref_ext "[111, 107]" "JString ''ok''" "''ok''" sample_clock "[97]" "[]" sample_last "''no''"]
    by (simp add: Let_def)
qed

section \<open>Temporal schedules and the native service\<close>

definition valid_create :: "TCreateScheduleRequest \<Rightarrow> TSchedule \<Rightarrow> (sqltext \<times> sqltext \<times> i64) \<Rightarrow> TStartWorkflowAction \<Rightarrow> bool" where
  "valid_create req sched cols sw \<longleftrightarrow>
     tcr_schedule req = Some sched \<and> tsc_action sched = Some (Some sw) \<and>
     (\<exists>spec. tsc_spec sched = Some spec \<and> temporal_spec_columns spec = Inr cols)"

lemma temporal_row_check:
  assumes "temporal_spec_columns spec = Inr cols"
  shows "sched_check (temporal_schedule_row X clk req cols sw p)"
  using assms
  by (auto simp: sched_check_def temporal_schedule_row_def temporal_spec_columns_def temporal_overlap_policy_def
      split: if_splits list.splits option.splits)

lemma temporal_row_key [simp]:
  "sr_schedule_id (temporal_schedule_row X clk req cols sw p) = tcr_schedule_id req"
  "sr_namespace (temporal_schedule_row X clk req cols sw p) = default_namespace (tcr_namespace req)"
  "sr_action_args_json (temporal_schedule_row X clk req cols sw p) = temporal_job_id X (tcr_schedule_id req) (tsw_input sw)"
  by (simp_all add: temporal_schedule_row_def split: prod.split)

lemma temporal_create_eq:
  assumes "valid_create req sched cols sw" "tcr_schedule_id req \<notin> sr_schedule_id ` set (schedules (srv_db s))"
  shows "temporal_create_schedule X clk req s =
    (Inr (), s\<lparr>srv_db := (srv_db s)\<lparr>schedules := schedules (srv_db s) @ [temporal_schedule_row X clk req cols sw (tsc_policies sched)]\<rparr>\<rparr>)"
  using assms
  by (auto simp: valid_create_def temporal_create_schedule_def exec_simps exec_insert_schedule_def intro: temporal_row_check)

text \<open>
  A schedule created through the Temporal service without input makes the native
  \<open>ListSchedules\<close> fail for its namespace: the arguments are stored as plain text, here the empty
  text, which is not the JSON that reading a schedule expects.
\<close>

lemma temporal_schedule_breaks_list:
  assumes "valid_create req sched cols sw" "tcr_schedule_id req \<notin> sr_schedule_id ` set (schedules (srv_db s))"
    and "tsw_input sw = None" "take (length lycus_prefix) (tcr_schedule_id req) \<noteq> lycus_prefix"
    and "smap_from_str X [] = None"
  shows "\<exists>e. fst (list_schedules_rpc X (tcr_namespace req) (snd (temporal_create_schedule X clk req s))) =
    Inl (Internal ''Failed to list schedules'' e)"
proof -
  let ?row = "temporal_schedule_row X clk req cols sw (tsc_policies sched)"
  let ?rows = "order_by_asc sr_created_at (filter (\<lambda>r. sr_namespace r = default_namespace (tcr_namespace req)) (schedules (srv_db s) @ [?row]))"
  have "sr_action_args_json ?row = []" using assms(3,4) by (simp add: temporal_job_id_def)
  then obtain e where "row_to_schedule X ?row = Inl e"
    using assms(5) row_to_schedule_bad_args [of X ?row] by auto
  moreover have "?row \<in> set ?rows" by simp
  ultimately obtain e' where "mapM_sum (row_to_schedule X) ?rows = Inl e'"
    using mapM_sum_Inl [of ?row ?rows "row_to_schedule X"] by blast
  then show ?thesis
    by (simp add: temporal_create_eq [OF assms(1,2)] list_schedules_rpc_def list_schedules_def exec_simps)
qed

end
