(* ===== verification/Temporal_Update.thy ===== *)
theory Temporal_Update
  imports Grpc_Temporal
begin

text \<open>
  \<open>update_schedule\<close> of the Temporal service (\<open>server/src/grpc.rs\<close>). It builds the text of an UPDATE
  statement from the strings of the request. A string without a quote character is read back by
  SQLite as it is, so the statement does what its assignments say; what SQLite does with any other
  text is the argument \<open>run_text\<close>.
\<close>

section \<open>The statement\<close>

record TUpdateScheduleRequest =
  tur_schedule_id :: string
  tur_namespace :: string
  tur_schedule :: "TSchedule option"

text \<open>A string between quotes, as the format strings put it.\<close>

definition quoted :: "string \<Rightarrow> string" where
  "quoted v = CHR 0x27 # v @ [CHR 0x27]"

text \<open>An assignment of the SET clause: its text, and what the text means to SQLite.\<close>

type_synonym set_item = "string \<times> (sched_row \<Rightarrow> sched_row)"

definition spec_items :: "TScheduleSpec \<Rightarrow> set_item list" where
  "spec_items spec =
     (if tsp_cron_string spec \<noteq> [] then
        (let exprs = join_comma (tsp_cron_string spec) in
         [(''spec_type = '' @ quoted ''cron'' @ '', cron_expressions = '' @ quoted exprs,
           \<lambda>r. r\<lparr>sr_spec_type := ''cron'', sr_cron_expressions := Some exprs\<rparr>)])
      else
        (case tsp_interval spec of
           iv # _ \<Rightarrow>
             (let secs = (case iv of None \<Rightarrow> 0 | Some n \<Rightarrow> n) in
              [(''spec_type = '' @ quoted ''interval'' @ '', interval_seconds = '' @ show_int secs,
                \<lambda>r. r\<lparr>sr_spec_type := ''interval'', sr_interval_seconds := Some secs\<rparr>)])
         | [] \<Rightarrow> []))"

definition action_items :: "TStartWorkflowAction \<Rightarrow> set_item list" where
  "action_items sw =
     (case tsw_workflow_type sw of
        None \<Rightarrow> []
      | Some n \<Rightarrow> [(''action_workflow_name = '' @ quoted n, \<lambda>r. r\<lparr>sr_action_workflow_name := n\<rparr>)]) @
     (case tsw_task_queue sw of
        None \<Rightarrow> []
      | Some q \<Rightarrow> [(''action_task_queue = '' @ quoted q, \<lambda>r. r\<lparr>sr_action_task_queue := q\<rparr>)]) @
     (if tsw_workflow_id sw = [] then []
      else [(''action_id = '' @ quoted (tsw_workflow_id sw), \<lambda>r. r\<lparr>sr_action_id := Some (tsw_workflow_id sw)\<rparr>)])"

definition update_items :: "clock \<Rightarrow> TSchedule \<Rightarrow> set_item list" where
  "update_items clk sched =
     (''updated_at = datetime('' @ quoted ''now'' @ '')'', \<lambda>r. r\<lparr>sr_updated_at := sql_now clk\<rparr>) #
     (case tsc_spec sched of None \<Rightarrow> [] | Some spec \<Rightarrow> spec_items spec) @
     (case tsc_action sched of Some (Some sw) \<Rightarrow> action_items sw | _ \<Rightarrow> []) @
     (case tsc_policies sched of
        None \<Rightarrow> []
      | Some p \<Rightarrow> [(''overlap_policy = '' @ quoted (temporal_overlap_policy (Some p)),
                     \<lambda>r. r\<lparr>sr_overlap_policy := temporal_overlap_policy (Some p)\<rparr>)])"

fun join_sets :: "string list \<Rightarrow> string" where
  "join_sets [] = []"
| "join_sets [x] = x"
| "join_sets (x # y # xs) = x @ '', '' @ join_sets (y # xs)"

definition update_sql :: "set_item list \<Rightarrow> string" where
  "update_sql items =
     ''UPDATE schedules SET '' @ join_sets (map fst items) @ '' WHERE schedule_id = ?1 AND namespace = ?2''"

text \<open>The strings of the request that end up between quotes, and when they stay there.\<close>

definition spliced :: "TSchedule \<Rightarrow> string list" where
  "spliced sched =
     (case tsc_spec sched of None \<Rightarrow> [] | Some spec \<Rightarrow> [join_comma (tsp_cron_string spec)]) @
     (case tsc_action sched of
        Some (Some sw) \<Rightarrow> map (\<lambda>v. case v of None \<Rightarrow> [] | Some t \<Rightarrow> t) [tsw_workflow_type sw, tsw_task_queue sw] @ [tsw_workflow_id sw]
      | _ \<Rightarrow> [])"

definition sql_clean :: "string \<Rightarrow> bool" where
  "sql_clean v \<longleftrightarrow> list_all (\<lambda>c. c \<noteq> CHR 0x27 \<and> c \<noteq> CHR 0x00) v"

definition update_clean :: "TSchedule \<Rightarrow> bool" where
  "update_clean sched \<longleftrightarrow> list_all sql_clean (spliced sched)"

type_synonym run_text = "string \<Rightarrow> string list \<Rightarrow> (db, err, nat) exec"

definition exec_update_text :: "run_text \<Rightarrow> clock \<Rightarrow> TSchedule \<Rightarrow> string \<Rightarrow> string \<Rightarrow> (db, err, nat) exec" where
  "exec_update_text run clk sched schedule_id namespace =
     (let items = update_items clk sched in
      if update_clean sched
      then exec_update_schedules (\<lambda>r. sr_schedule_id r = schedule_id \<and> sr_namespace r = namespace)
             (\<lambda>r. foldl (\<lambda>r (_, f). f r) r items)
      else run (update_sql items) [schedule_id, namespace])"

definition temporal_update_schedule :: "run_text \<Rightarrow> clock \<Rightarrow> TUpdateScheduleRequest \<Rightarrow> (server, status, unit) exec" where
  "temporal_update_schedule run clk req =
     (let schedule_id = tur_schedule_id req; namespace = default_namespace (tur_namespace req) in
      andThen (with_db (readE (\<lambda>d. Inr (list_ex (\<lambda>r. sr_schedule_id r = schedule_id \<and> sr_namespace r = namespace) (schedules d)))))
        (\<lambda>found.
           if \<not> found then errE (NotFoundStatus ''Schedule not found'')
           else
             andThen (readE (\<lambda>_. option_to_sum (InvalidArgument ''schedule is required'') (tur_schedule req))) (\<lambda>new_schedule.
             andThen (mapErr (Internal ''Failed to update schedule'')
                        (with_db (exec_update_text run clk new_schedule schedule_id namespace))) (\<lambda>_. okE ()))))"

section \<open>What the assignments do\<close>

text \<open>The row after an update, field by field.\<close>

definition updated_row :: "clock \<Rightarrow> TSchedule \<Rightarrow> sched_row \<Rightarrow> sched_row" where
  "updated_row clk sched r =
     (let spec = (case tsc_spec sched of None \<Rightarrow> \<lparr>tsp_cron_string = [], tsp_interval = []\<rparr> | Some sp \<Rightarrow> sp);
          crons = tsp_cron_string spec;
          sw = (case tsc_action sched of Some (Some sw) \<Rightarrow> sw
                | _ \<Rightarrow> \<lparr>tsw_workflow_type = None, tsw_task_queue = None, tsw_workflow_id = [], tsw_input = None\<rparr>) in
      r\<lparr>sr_updated_at := sql_now clk,
        sr_spec_type := (if crons \<noteq> [] then ''cron'' else if tsp_interval spec \<noteq> [] then ''interval'' else sr_spec_type r),
        sr_cron_expressions := (if crons \<noteq> [] then Some (join_comma crons) else sr_cron_expressions r),
        sr_interval_seconds := (if crons = [] \<and> tsp_interval spec \<noteq> []
          then Some (case hd (tsp_interval spec) of None \<Rightarrow> 0 | Some n \<Rightarrow> n) else sr_interval_seconds r),
        sr_action_workflow_name := (case tsw_workflow_type sw of None \<Rightarrow> sr_action_workflow_name r | Some n \<Rightarrow> n),
        sr_action_task_queue := (case tsw_task_queue sw of None \<Rightarrow> sr_action_task_queue r | Some q \<Rightarrow> q),
        sr_action_id := (if tsw_workflow_id sw = [] then sr_action_id r else Some (tsw_workflow_id sw)),
        sr_overlap_policy := (case tsc_policies sched of None \<Rightarrow> sr_overlap_policy r | Some p \<Rightarrow> temporal_overlap_policy (Some p))\<rparr>)"

lemma foldl_update_items: "foldl (\<lambda>r (_, f). f r) r (update_items clk sched) = updated_row clk sched r"
proof -
  have spec: "foldl (\<lambda>r (_, f). f r) r (spec_items sp) =
      (if tsp_cron_string sp \<noteq> [] then r\<lparr>sr_spec_type := ''cron'', sr_cron_expressions := Some (join_comma (tsp_cron_string sp))\<rparr>
       else case tsp_interval sp of [] \<Rightarrow> r
         | iv # _ \<Rightarrow> r\<lparr>sr_spec_type := ''interval'', sr_interval_seconds := Some (case iv of None \<Rightarrow> 0 | Some n \<Rightarrow> n)\<rparr>)" for r sp
    by (simp add: spec_items_def Let_def split: list.split)
  have action: "foldl (\<lambda>r (_, f). f r) r (action_items sw) = r\<lparr>
      sr_action_workflow_name := (case tsw_workflow_type sw of None \<Rightarrow> sr_action_workflow_name r | Some n \<Rightarrow> n),
      sr_action_task_queue := (case tsw_task_queue sw of None \<Rightarrow> sr_action_task_queue r | Some q \<Rightarrow> q),
      sr_action_id := (if tsw_workflow_id sw = [] then sr_action_id r else Some (tsw_workflow_id sw))\<rparr>" for r sw
    by (simp add: action_items_def split: option.split)
  show ?thesis
    by (cases "tsc_spec sched"; cases "tsc_action sched"; cases "tsc_policies sched")
      (auto simp: update_items_def updated_row_def spec action Let_def split: option.split list.split)
qed

lemma updated_row_key [simp]:
  "sr_schedule_id (updated_row clk sched r) = sr_schedule_id r"
  "sr_namespace (updated_row clk sched r) = sr_namespace r"
  by (simp_all add: updated_row_def Let_def)

lemma temporal_overlap_policy_check: "temporal_overlap_policy p \<in> {''skip'', ''buffer'', ''terminate''}"
  by (simp add: temporal_overlap_policy_def split: option.split)

lemma updated_row_check: "sched_check r \<Longrightarrow> sched_check (updated_row clk sched r)"
  using temporal_overlap_policy_check
  by (auto simp: sched_check_def updated_row_def Let_def split: option.split)

context db_client
begin

lemma keeps_temporal_update_schedule:
  assumes "pred_option update_clean (tur_schedule req)"
  shows "keeps (on_db I) (temporal_update_schedule run clk req)"
proof (cases "tur_schedule req")
  case None
  then show ?thesis
    unfolding temporal_update_schedule_def Let_def by (auto simp: keeps_def exec_simps with_db_def)
next
  case (Some sched)
  have "keeps I (exec_update_schedules P (updated_row clk sched))" for P
    by (rule update_schedule_rows) simp
  then have stmt: "keeps I (exec_update_text run clk sched sid ns)" for sid ns
    using assms Some by (simp add: exec_update_text_def foldl_update_items)
  show ?thesis
    unfolding temporal_update_schedule_def Let_def Some option_to_sum_simps andThen_readE_const
    by (intro inv_rules stmt)
qed

end

text \<open>
  C26: \<open>UpdateSchedule\<close> with strings that have no quote character does what it means to: it refuses
  an unknown schedule and an empty request, and otherwise changes in that schedule exactly the
  fields that the request gives, the time of the update included. No other row changes.
\<close>

theorem temporal_update_schedule_spec:
  assumes "pred_option update_clean (tur_schedule req)" "schema_ok (srv_db s)"
  shows "temporal_update_schedule run clk req s =
    (let P = (\<lambda>r. sr_schedule_id r = tur_schedule_id req \<and> sr_namespace r = default_namespace (tur_namespace req)) in
     if \<not> (\<exists>r \<in> set (schedules (srv_db s)). P r) then (Inl (NotFoundStatus ''Schedule not found''), s)
     else case tur_schedule req of
        None \<Rightarrow> (Inl (InvalidArgument ''schedule is required''), s)
      | Some sched \<Rightarrow> (Inr (), s\<lparr>srv_db := (srv_db s)\<lparr>schedules :=
          update_where P (updated_row clk sched) (schedules (srv_db s))\<rparr>\<rparr>))"
proof (cases "tur_schedule req")
  case None
  then show ?thesis
    by (auto simp: temporal_update_schedule_def exec_simps with_db_def Let_def list_ex_iff)
next
  case (Some sched)
  let ?P = "\<lambda>r. sr_schedule_id r = tur_schedule_id req \<and> sr_namespace r = default_namespace (tur_namespace req)"
  have "list_all (\<lambda>r. sched_check (updated_row clk sched r)) (filter ?P (schedules (srv_db s)))"
    using assms(2) by (auto simp: list_all_iff schema_ok_def updated_row_check)
  then have "exec_update_schedules ?P (updated_row clk sched) (srv_db s) =
      (Inr (count_where ?P (schedules (srv_db s))), (srv_db s)\<lparr>schedules := update_where ?P (updated_row clk sched) (schedules (srv_db s))\<rparr>)"
    by (simp add: exec_update_schedules_def sql_update_def)
  with Some assms(1) show ?thesis
    by (auto simp: temporal_update_schedule_def exec_simps with_db_def Let_def list_ex_iff exec_update_text_def foldl_update_items)
qed

definition sample_update :: TUpdateScheduleRequest where
  "sample_update = \<lparr>tur_schedule_id = ''t'', tur_namespace = [], tur_schedule = Some \<lparr>
     tsc_spec = Some \<lparr>tsp_cron_string = [], tsp_interval = [Some 60]\<rparr>, tsc_action = None, tsc_policies = Some 4\<rparr>\<rparr>"

theorem temporal_update_schedule_spec_witness:
  "\<exists>s'. temporal_update_schedule (\<lambda>q ps d. (Inl (SqlErr SqlSyntax), d)) sample_clock sample_update
      (init_server\<lparr>srv_db := sample_db [sample_schedule ''t'' ''cron'' (Some []) None ''skip''] [] [] []\<rparr>) = (Inr (), s') \<and>
    map sr_interval_seconds (schedules (srv_db s')) = [Some 60] \<and> map sr_overlap_policy (schedules (srv_db s')) = [''terminate'']"
proof -
  let ?s = "init_server\<lparr>srv_db := sample_db [sample_schedule ''t'' ''cron'' (Some []) None ''skip''] [] [] []\<rparr>"
  have "pred_option update_clean (tur_schedule sample_update)"
    by (simp add: sample_update_def update_clean_def spliced_def sql_clean_def)
  moreover have "schema_ok (srv_db ?s)"
    by (simp add: schema_ok_def sample_defs sched_check_def)
  ultimately show ?thesis
    using temporal_update_schedule_spec [of sample_update ?s]
    by (simp add: sample_update_def sample_defs default_namespace_def updated_row_def temporal_overlap_policy_def)
qed

section \<open>Strings with quotes\<close>

text \<open>
  The quotes of a string are not escaped: the statement of a request whose workflow name contains
  another assignment is the statement of a request that makes both.
\<close>

lemma update_text_splices:
  "update_sql (action_items \<lparr>tsw_workflow_type = Some (a @ [CHR 0x27] @ '', action_task_queue = '' @ [CHR 0x27] @ b),
      tsw_task_queue = None, tsw_workflow_id = [], tsw_input = None\<rparr>) =
   update_sql (action_items \<lparr>tsw_workflow_type = Some a, tsw_task_queue = Some b, tsw_workflow_id = [], tsw_input = None\<rparr>)"
  by (simp add: update_sql_def action_items_def quoted_def)

end
