(* ===== verification/Floats.thy ===== *)
theory Floats
  imports Prelude "HOL-Library.Log_Nat"
begin

text \<open>
  Binary floating point numbers with \<open>p\<close> digits as rational numbers: \<open>round_fp 24\<close> rounds to the
  nearest \<open>f32\<close> and \<open>round_fp 53\<close> to the nearest \<open>f64\<close>, ties to even, as every operation of Rust
  does. The code that uses them computes with 0 and with numbers between \<open>1 / 2 ^ 200\<close> and \<open>2 ^ 64\<close> only,
  where neither format overflows or loses digits. \<open>Duration\<close>'s conversions are at the end.
\<close>

section \<open>Rounding\<close>

definition round_even :: "rat \<Rightarrow> int" where
  "round_even x =
     (let f = \<lfloor>x\<rfloor>; r = x - of_int f in
      if r < 1 / 2 then f else if 1 / 2 < r then f + 1 else if even f then f else f + 1)"

text \<open>The exponent of the smallest number that is computed with, as a constant of its own.\<close>

definition fp_low :: nat where
  "fp_low = 200"

text \<open>The unit in the last place of the numbers with \<open>p\<close> digits around \<open>x\<close>.\<close>

definition fp_ulp :: "nat \<Rightarrow> rat \<Rightarrow> rat" where
  "fp_ulp p x = 2 ^ floorlog 2 (nat \<lfloor>x * 2 ^ fp_low\<rfloor>) / 2 ^ (fp_low + p)"

definition round_fp :: "nat \<Rightarrow> rat \<Rightarrow> rat" where
  "round_fp p x = fp_ulp p x * of_int (round_even (x / fp_ulp p x))"

lemma round_even_near: "\<bar>of_int (round_even x) - x\<bar> \<le> 1 / 2"
  using of_int_floor_le [of x] floor_correct [of x]
  by (auto simp: round_even_def Let_def abs_le_iff)

lemma round_even_ge: "of_int n - 1 / 2 < x \<Longrightarrow> n \<le> round_even x"
proof -
  assume "of_int n - 1 / 2 < x"
  then have "of_int n < of_int (round_even x) + (1 :: rat)"
    using round_even_near [of x] unfolding abs_le_iff by linarith
  then show ?thesis by linarith
qed

lemma round_even_le: "x < of_int n + 1 / 2 \<Longrightarrow> round_even x \<le> n"
proof -
  assume "x < of_int n + 1 / 2"
  then have "of_int (round_even x) < of_int n + (1 :: rat)"
    using round_even_near [of x] unfolding abs_le_iff by linarith
  then show ?thesis by linarith
qed

lemma fp_ulp_pos: "0 < fp_ulp p x"
  by (simp add: fp_ulp_def)

text \<open>The numbers the code computes with.\<close>

definition fp_range :: "rat \<Rightarrow> bool" where
  "fp_range x \<longleftrightarrow> x = 0 \<or> 1 / 2 ^ fp_low \<le> x"

text \<open>The quotient by the unit has exactly \<open>p\<close> binary digits before the point.\<close>

lemma fp_digits:
  assumes "1 / 2 ^ fp_low \<le> x" "0 < p"
  shows "2 ^ (p - 1) \<le> x / fp_ulp p x \<and> x / fp_ulp p x < 2 ^ p"
proof -
  define n where "n = nat \<lfloor>x * 2 ^ fp_low\<rfloor>"
  define l where "l = floorlog 2 n"
  have one: "1 \<le> x * 2 ^ fp_low" using assms(1) by (simp add: field_simps)
  then have pos: "0 < n" by (simp add: n_def le_floor_iff)
  have n: "of_nat n \<le> x * 2 ^ fp_low" "x * 2 ^ fp_low < of_nat n + 1"
    using one floor_correct [of "x * 2 ^ fp_low"] by (simp_all add: n_def of_nat_nat)
  have b: "2 ^ (l - 1) \<le> n" "n < 2 ^ l" using floorlog_bounds [of n 2] pos by (auto simp: l_def)
  have low: "2 ^ (l - 1) \<le> x * 2 ^ fp_low"
    using of_nat_mono [OF b(1), where ?'a = rat] n(1) unfolding of_nat_power of_nat_numeral by (rule order.trans)
  have "Suc n \<le> 2 ^ l" using b(2) by simp
  then have high: "x * 2 ^ fp_low < 2 ^ l"
    using of_nat_mono [of "Suc n" "2 ^ l", where ?'a = rat] n(2) unfolding of_nat_power of_nat_numeral of_nat_Suc by linarith
  have quot: "x / fp_ulp p x = x * 2 ^ fp_low * (2 ^ p / 2 ^ l)"
    by (simp add: fp_ulp_def n_def l_def power_add)
  have "0 < l" using pos by (simp add: l_def floorlog_def)
  then have "2 ^ (p - 1) = 2 ^ (l - 1) * (2 ^ p / 2 ^ l :: rat)"
    using assms(2) by (cases p; cases l) simp_all
  then show ?thesis
    unfolding quot using mult_right_mono [OF low, of "2 ^ p / 2 ^ l"] mult_strict_right_mono [OF high, of "2 ^ p / 2 ^ l"] by simp
qed

lemma round_fp_near:
  assumes "fp_range x" "0 < p"
  shows "\<bar>round_fp p x - x\<bar> \<le> x / 2 ^ p"
proof (cases "x = 0")
  case True
  then show ?thesis by (simp add: round_fp_def round_even_def)
next
  case False
  let ?u = "fp_ulp p x"
  have "1 / 2 ^ fp_low \<le> x" using False assms(1) by (simp add: fp_range_def)
  then have "2 ^ (p - 1) \<le> x / ?u" using fp_digits assms(2) by blast
  then have "2 ^ (p - 1) * ?u \<le> x" using fp_ulp_pos [of p x] by (simp add: pos_le_divide_eq)
  then have u: "?u / 2 \<le> x / 2 ^ p" using assms(2) by (cases p) (simp_all add: field_simps)
  have "round_fp p x - x = ?u * (of_int (round_even (x / ?u)) - x / ?u)"
    using fp_ulp_pos [of p x] by (simp add: round_fp_def field_simps)
  then have "\<bar>round_fp p x - x\<bar> = ?u * \<bar>of_int (round_even (x / ?u)) - x / ?u\<bar>"
    using fp_ulp_pos [of p x] by (simp add: abs_mult)
  also have "\<dots> \<le> ?u * (1 / 2)"
    using round_even_near [of "x / ?u"] fp_ulp_pos [of p x] by (intro mult_left_mono) simp_all
  finally show ?thesis using u by linarith
qed

lemma round_fp_bounds:
  assumes "fp_range x" "0 < p"
  shows "x * (1 - 1 / 2 ^ p) \<le> round_fp p x" "round_fp p x \<le> x * (1 + 1 / 2 ^ p)"
  using round_fp_near [OF assms] by (auto simp: abs_le_iff algebra_simps)

section \<open>Durations\<close>

text \<open>
  \<open>as_secs_f32\<close> and \<open>as_secs_f64\<close> add the seconds and the quotient of the nanoseconds by a billion, each
  rounded; \<open>from_secs_f32\<close> and \<open>from_secs_f64\<close> round to the nearest nanosecond.
\<close>

definition as_secs :: "nat \<Rightarrow> duration \<Rightarrow> rat" where
  "as_secs p d = round_fp p (round_fp p (of_nat (d div 1000000000)) +
     round_fp p (round_fp p (of_nat (d mod 1000000000)) / 1000000000))"

definition from_secs :: "rat \<Rightarrow> duration" where
  "from_secs x = nat (round_even (x * 1000000000))"

lemma fp_range_of_nat: "fp_range (of_nat n)"
proof (cases n)
  case (Suc m)
  have "(1 :: rat) / 2 ^ fp_low \<le> 1" by simp
  also have "(1 :: rat) \<le> of_nat n" using Suc by simp
  finally show ?thesis by (simp add: fp_range_def)
qed (simp add: fp_range_def)

lemma fp_rangeI: "1 / 2 ^ 64 \<le> x \<Longrightarrow> fp_range x"
proof -
  assume "1 / 2 ^ 64 \<le> x"
  moreover have "(1 :: rat) / 2 ^ fp_low \<le> 1 / 2 ^ 64" by (simp add: fp_low_def)
  ultimately show ?thesis unfolding fp_range_def by (blast intro: order.trans)
qed

lemma half_eps: "0 < p \<Longrightarrow> (1 :: rat) / 2 ^ p \<le> 1 / 2"
  by (cases p) (simp_all add: field_simps)

subsection \<open>Errors of several roundings\<close>

text \<open>\<open>approx p k x y\<close>: \<open>y\<close> is \<open>x\<close> up to the relative error of \<open>k\<close> roundings to \<open>p\<close> bits.\<close>

definition approx :: "nat \<Rightarrow> nat \<Rightarrow> rat \<Rightarrow> rat \<Rightarrow> bool" where
  "approx p k x y \<longleftrightarrow> x * (1 - 1 / 2 ^ p) ^ k \<le> y \<and> y \<le> x * (1 + 1 / 2 ^ p) ^ k"

lemma approx_add: "approx p k x y \<Longrightarrow> approx p k x' y' \<Longrightarrow> approx p k (x + x') (y + y')"
  unfolding approx_def by (simp add: distrib_right add_mono)

lemma approx_divide: "approx p k x y \<Longrightarrow> 0 < c \<Longrightarrow> approx p k (x / c) (y / c)"
  unfolding approx_def by (simp add: divide_right_mono)

lemma approx_Suc:
  assumes "approx p k x y" "0 < p" "0 \<le> x"
  shows "approx p (Suc k) x y"
proof -
  have e: "0 \<le> 1 - (1 :: rat) / 2 ^ p" "1 - (1 :: rat) / 2 ^ p \<le> 1" using half_eps [OF assms(2)] by simp_all
  have "x * (1 - 1 / 2 ^ p) ^ Suc k \<le> x * (1 - 1 / 2 ^ p) ^ k"
    using e assms(3) by (intro mult_left_mono power_decreasing) simp_all
  moreover have "x * (1 + 1 / 2 ^ p) ^ k \<le> x * (1 + 1 / 2 ^ p) ^ Suc k"
    using assms(3) by (intro mult_left_mono power_increasing) simp_all
  ultimately show ?thesis using assms(1) unfolding approx_def by linarith
qed

lemma approx_round:
  assumes "approx p k x y" "fp_range y" "0 < p"
  shows "approx p (Suc k) x (round_fp p y)"
proof -
  have e: "0 \<le> 1 - (1 :: rat) / 2 ^ p" using half_eps [OF assms(3)] by simp
  have "x * (1 - 1 / 2 ^ p) ^ Suc k \<le> y * (1 - 1 / 2 ^ p)" "y * (1 + 1 / 2 ^ p) \<le> x * (1 + 1 / 2 ^ p) ^ Suc k"
    using assms(1) e mult_right_mono [of "x * (1 - 1 / 2 ^ p) ^ k" y "1 - 1 / 2 ^ p"]
      mult_right_mono [of y "x * (1 + 1 / 2 ^ p) ^ k" "1 + 1 / 2 ^ p"]
    unfolding approx_def by (simp_all add: mult_ac)
  then show ?thesis
    using round_fp_bounds [OF assms(2,3)] unfolding approx_def by linarith
qed

text \<open>A multiple of a nanosecond stays in the range of the rounding.\<close>

lemma approx_range:
  assumes "approx p k x y" "0 < p" "k \<le> 2" "x = 0 \<or> 1 / 1000000000 \<le> x"
  shows "fp_range y"
proof (cases "x = 0")
  case True
  with assms(1) show ?thesis by (simp add: approx_def fp_range_def)
next
  case False
  have e: "1 / 2 \<le> 1 - (1 :: rat) / 2 ^ p" using half_eps [OF assms(2)] by simp
  have "(1 / 2) ^ 2 \<le> (1 / 2 :: rat) ^ k" using assms(3) by (intro power_decreasing) simp_all
  also have "\<dots> \<le> (1 - 1 / 2 ^ p) ^ k" using e by (intro power_mono) simp_all
  finally have "1 / 1000000000 * (1 / 2) ^ 2 \<le> x * (1 - 1 / 2 ^ p) ^ k"
    using False assms(4) by (intro mult_mono) simp_all
  then have "1 / 4000000000 \<le> y" using assms(1) by (simp add: approx_def power2_eq_square)
  then show ?thesis by (intro fp_rangeI) simp
qed

lemma approx_as_secs:
  assumes "0 < p"
  shows "approx p 3 (of_nat d / 1000000000) (as_secs p d)"
proof -
  define s n :: rat where "s = of_nat (d div 1000000000)" and "n = of_nat (d mod 1000000000)"
  have "(of_nat k :: rat) = 0 \<or> 1 \<le> (of_nat k :: rat)" for k by (cases k) simp_all
  then have nn: "0 \<le> s" "0 \<le> n" "n = 0 \<or> 1 \<le> n" "s = 0 \<or> 1 \<le> s"
    unfolding s_def n_def by (simp_all only: of_nat_0_le_iff)
  have "of_nat d = s * 1000000000 + n"
    unfolding s_def n_def by (metis div_mult_mod_eq of_nat_add of_nat_mult of_nat_numeral)
  then have sum: "of_nat d / 1000000000 = s + n / 1000000000" by simp
  have exact: "approx p 0 x x" for x by (simp add: approx_def)
  have "fp_range s" "fp_range n" by (simp_all add: s_def n_def fp_range_of_nat)
  then have one: "approx p 1 s (round_fp p s)" "approx p 1 n (round_fp p n)"
    using approx_round [OF exact _ assms] by simp_all
  have secs: "approx p 2 s (round_fp p s)"
    using approx_Suc [OF one(1) assms nn(1)] by (simp add: numeral_2_eq_2)
  have frac: "approx p 1 (n / 1000000000) (round_fp p n / 1000000000)"
    by (rule approx_divide [OF one(2)]) simp
  then have "fp_range (round_fp p n / 1000000000)"
    by (rule approx_range [OF _ assms]) (use nn(3) in auto)
  then have "approx p 2 (n / 1000000000) (round_fp p (round_fp p n / 1000000000))"
    using approx_round [OF frac _ assms] by (simp add: numeral_2_eq_2)
  then have two: "approx p 2 (of_nat d / 1000000000) (round_fp p s + round_fp p (round_fp p n / 1000000000))"
    unfolding sum by (rule approx_add [OF secs])
  then have "fp_range (round_fp p s + round_fp p (round_fp p n / 1000000000))"
    by (rule approx_range [OF _ assms]) (use nn in \<open>auto simp: sum\<close>)
  then show ?thesis
    using approx_round [OF two _ assms] by (simp add: as_secs_def s_def n_def numeral_3_eq_3 numeral_2_eq_2)
qed

lemma as_secs_bounds:
  assumes "0 < p"
  shows "of_nat d / 1000000000 * (1 - 1 / 2 ^ p) ^ 3 \<le> as_secs p d"
    and "as_secs p d \<le> of_nat d / 1000000000 * (1 + 1 / 2 ^ p) ^ 3"
  using approx_as_secs [OF assms] by (simp_all only: approx_def)

end
