(* ===== verification/Backoff.thy ===== *)
theory Backoff
  imports Floats Core_Types
begin

unbundle bit_operations_syntax

text \<open>
  The reconnection delays of the worker (\<open>worker/src/poller.rs\<close>): \<open>BackoffConfig\<close> and the
  pseudo-random numbers of its jitter. The delay doubles in \<open>f32\<close>, the jitter is computed in \<open>f64\<close>;
  both are the rounded operations of \<open>Floats\<close>.
\<close>

section \<open>Pseudo-random numbers\<close>

text \<open>\<open>n\<close> is the counter after the call.\<close>

definition rand_bits :: "u64 \<Rightarrow> u64" where
  "rand_bits n = drop_bit 33 (n * 6364136223846793005 + 1)"

definition rand_f64 :: "u64 \<Rightarrow> f64" where
  "rand_f64 n = round_fp 53 (of_nat (unat (rand_bits n)) / of_nat (2 ^ 32 - 1))"

lemma rand_bits_bound: "unat (rand_bits n) < 2 ^ 31"
proof -
  have "unat (rand_bits n) = unat (n * 6364136223846793005 + 1) div 2 ^ 33"
    by (simp only: rand_bits_def unat_drop_bit_eq) (simp only: drop_bit_eq_div)
  moreover have "unat (n * 6364136223846793005 + 1) < 2 ^ 64"
    using unsigned_less [of "n * 6364136223846793005 + 1"] by simp
  ultimately show ?thesis by (simp add: less_mult_imp_div_less)
qed

section \<open>The delay\<close>

record BackoffConfig =
  bc_initial :: duration
  bc_max :: duration
  bc_jitter_factor :: f64

definition default_config :: BackoffConfig where
  "default_config = \<lparr>bc_initial = 100000000, bc_max = 30000000000, bc_jitter_factor = round_fp 53 (3 / 10)\<rparr>"

text \<open>\<open>delay.mul_f32(2.0).min(self.max)\<close>, and the loop around it.\<close>

definition mul_f32 :: "duration \<Rightarrow> rat \<Rightarrow> duration" where
  "mul_f32 d k = from_secs (round_fp 24 (k * as_secs 24 d))"

fun double_delay :: "BackoffConfig \<Rightarrow> nat \<Rightarrow> duration" where
  "double_delay c 0 = bc_initial c"
| "double_delay c (Suc n) = min (mul_f32 (double_delay c n) 2) (bc_max c)"

definition compute :: "BackoffConfig \<Rightarrow> u64 \<Rightarrow> u32 \<Rightarrow> duration" where
  "compute c counter attempt =
     (let delay = double_delay c (unat (min attempt 16));
          jitter_range = round_fp 53 (as_secs 53 delay * bc_jitter_factor c);
          jittered = round_fp 53 (as_secs 53 delay - round_fp 53 (jitter_range * rand_f64 counter)) in
      from_secs (max jittered (as_secs 53 (bc_initial c))))"

section \<open>Its bounds\<close>

lemma from_secs_ge: "of_nat n - 1 / 2 < x * 1000000000 \<Longrightarrow> n \<le> from_secs x"
  using round_even_ge [of "int n" "x * 1000000000"] by (simp add: from_secs_def)

lemma from_secs_le: "x * 1000000000 < of_nat n + 1 / 2 \<Longrightarrow> from_secs x \<le> n"
  using round_even_le [of "x * 1000000000" "int n"] by (simp add: from_secs_def)

text \<open>Each operation changes a number by a relative error that is far below one in a million.\<close>

lemma round_fp_within:
  assumes "1 / 2 ^ 64 \<le> x" "p \<in> {24, 53}"
  shows "999999 / 1000000 * x \<le> round_fp p x" "round_fp p x \<le> 1000001 / 1000000 * x"
proof -
  have "fp_range x" using assms(1) by (rule fp_rangeI)
  moreover have "0 < p" "(1 :: rat) / 2 ^ p \<le> 1 / 1000000" using assms(2) by auto
  moreover have "0 \<le> x" using assms(1) by (rule order.trans [rotated]) simp
  ultimately have "x * (1 - 1 / 2 ^ p) \<le> round_fp p x" "round_fp p x \<le> x * (1 + 1 / 2 ^ p)" "x * (1 / 2 ^ p) \<le> x * (1 / 1000000)"
    by (simp_all only: round_fp_bounds mult_left_mono)
  then show "999999 / 1000000 * x \<le> round_fp p x" "round_fp p x \<le> 1000001 / 1000000 * x"
    unfolding right_diff_distrib distrib_left by linarith+
qed

lemma mul_f32_ge: "100000000 \<le> d \<Longrightarrow> 100000000 \<le> mul_f32 d 2"
proof -
  assume d: "100000000 \<le> d"
  have "(1 / 10 :: rat) * (1 - 1 / 2 ^ 24) ^ 3 \<le> of_nat d / 1000000000 * (1 - 1 / 2 ^ 24) ^ 3"
    using d by (intro mult_right_mono) simp_all
  also have "\<dots> \<le> as_secs 24 d" by (rule as_secs_bounds) simp
  finally have "(1 / 10 :: rat) * (1 - 1 / 2 ^ 24) ^ 3 \<le> as_secs 24 d" .
  then have secs: "9 / 100 \<le> as_secs 24 d" by (simp add: power3_eq_cube)
  then have "1 / 2 ^ 64 \<le> 2 * as_secs 24 d" by simp
  then have "999999 / 1000000 * (2 * as_secs 24 d) \<le> round_fp 24 (2 * as_secs 24 d)" by (rule round_fp_within) simp
  then have "17 / 100 \<le> round_fp 24 (2 * as_secs 24 d)" using secs by simp
  then show ?thesis unfolding mul_f32_def by (intro from_secs_ge) simp
qed

lemma double_delay_bounds:
  "100000000 \<le> double_delay default_config n \<and> double_delay default_config n \<le> 30000000000"
proof (induction n)
  case (Suc n)
  then have "100000000 \<le> mul_f32 (double_delay default_config n) 2" by (intro mul_f32_ge) simp
  then show ?case by (simp add: default_config_def)
qed (simp add: default_config_def)

lemma rand_f64_bounds: "rand_f64 n \<le> 2 / 3 \<and> (rand_f64 n = 0 \<or> 1 / 2 ^ 40 \<le> rand_f64 n)"
proof -
  let ?x = "of_nat (unat (rand_bits n)) / of_nat (2 ^ 32 - 1) :: rat"
  have "rat_of_nat (unat (rand_bits n)) \<le> of_nat (2 ^ 31)"
    using rand_bits_bound [of n] by (intro of_nat_mono) simp
  then have le: "?x \<le> 6 / 10" by simp
  show ?thesis
  proof (cases "unat (rand_bits n) = 0")
    case True
    then have "?x = 0" by simp
    then show ?thesis unfolding rand_f64_def by (simp add: round_fp_def round_even_def)
  next
    case False
    then have "rat_of_nat 1 \<le> of_nat (unat (rand_bits n))" by (intro of_nat_mono) simp
    then have ge: "1 / of_nat (2 ^ 32 - 1) \<le> ?x" by (intro divide_right_mono) simp_all
    then have "1 / 2 ^ 64 \<le> ?x" by (rule order.trans [rotated]) simp
    then have "999999 / 1000000 * ?x \<le> rand_f64 n" "rand_f64 n \<le> 1000001 / 1000000 * ?x"
      unfolding rand_f64_def by (simp_all only: round_fp_within insertI1 insert_iff simp_thms)
    with le ge show ?thesis by (auto simp: field_simps)
  qed
qed

lemma jitter_bounds:
  assumes "9 / 100 \<le> s"
  shows "round_fp 53 (s - round_fp 53 (round_fp 53 (s * bc_jitter_factor default_config) * rand_f64 n)) \<le> s * (1 + 1 / 2 ^ 53)"
proof -
  define f where "f = bc_jitter_factor default_config"
  define j where "j = round_fp 53 (s * f)"
  define q where "q = round_fp 53 (j * rand_f64 n)"
  have f: "29 / 100 \<le> f" "f \<le> 31 / 100"
    using round_fp_within [of "3 / 10" 53] by (simp_all add: f_def default_config_def)
  have sf: "s * (29 / 100) \<le> s * f" "s * f \<le> s * (31 / 100)" using f assms by (auto intro: mult_left_mono)
  then have "1 / 100 \<le> s * f" using assms by linarith
  then have "1 / 2 ^ 64 \<le> s * f" by (rule order.trans [rotated]) simp
  then have "999999 / 1000000 * (s * f) \<le> j" "j \<le> 1000001 / 1000000 * (s * f)"
    unfolding j_def by (simp_all only: round_fp_within insertI1 insert_iff simp_thms)
  then have j: "1 / 100 \<le> j" "j \<le> s * (32 / 100)" using sf assms by linarith+
  have q: "0 \<le> q" "q \<le> s / 2"
  proof (atomize (full), cases "rand_f64 n = 0")
    case True
    then show "0 \<le> q \<and> q \<le> s / 2" using assms by (simp add: q_def round_fp_def round_even_def)
  next
    case False
    then have r: "1 / 2 ^ 40 \<le> rand_f64 n" "rand_f64 n \<le> 2 / 3" using rand_f64_bounds [of n] by auto
    have prod: "1 / 100 * (1 / 2 ^ 40) \<le> j * rand_f64 n" "j * rand_f64 n \<le> s * (32 / 100) * (2 / 3)"
      using j r assms by (intro mult_mono; simp)+
    then have "1 / 2 ^ 64 \<le> j * rand_f64 n" by simp
    then have "999999 / 1000000 * (j * rand_f64 n) \<le> q" "q \<le> 1000001 / 1000000 * (j * rand_f64 n)"
      unfolding q_def by (simp_all only: round_fp_within insertI1 insert_iff simp_thms)
    with prod assms show "0 \<le> q \<and> q \<le> s / 2" by simp
  qed
  then have "fp_range (s - q)" using assms by (intro fp_rangeI) simp
  then have "round_fp 53 (s - q) \<le> (s - q) * (1 + 1 / 2 ^ 53)" by (rule round_fp_bounds) simp
  also have "\<dots> \<le> s * (1 + 1 / 2 ^ 53)" using q by (intro mult_right_mono) simp_all
  finally show ?thesis by (simp add: q_def j_def f_def)
qed

text \<open>
  C39: whatever the attempt and the pseudo-random number, the delay before the worker tries to
  reconnect is at least the initial 100 milliseconds and at most the maximum of 30 seconds, in spite
  of the rounding in single and double precision.
\<close>

theorem compute_bounds:
  "bc_initial default_config \<le> compute default_config counter attempt \<and>
   compute default_config counter attempt \<le> bc_max default_config"
proof -
  define d where "d = double_delay default_config (unat (min attempt 16))"
  define x :: rat where "x = of_nat d / 1000000000"
  define s where "s = as_secs 53 d"
  define i where "i = as_secs 53 (bc_initial default_config)"
  have d: "100000000 \<le> d" "d \<le> 30000000000" using double_delay_bounds by (simp_all add: d_def)
  then have "rat_of_nat 100000000 \<le> of_nat d" "rat_of_nat d \<le> of_nat 30000000000" by (simp_all only: of_nat_mono)
  then have x: "1 / 10 \<le> x" "x \<le> 30" by (simp_all add: x_def)
  have s: "x * (1 - 1 / 2 ^ 53) ^ 3 \<le> s" "s \<le> x * (1 + 1 / 2 ^ 53) ^ 3"
    using as_secs_bounds [of 53 d] by (simp_all add: x_def s_def)
  have i: "1 / 10 * (1 - 1 / 2 ^ 53) ^ 3 \<le> i" "i \<le> 1 / 10 * (1 + 1 / 2 ^ 53) ^ 3"
    using as_secs_bounds [of 53 "bc_initial default_config"] by (simp_all add: i_def default_config_def)
  have "1 / 10 * (1 - 1 / 2 ^ 53) ^ 3 \<le> x * (1 - 1 / 2 ^ 53) ^ 3" using x by (intro mult_right_mono) simp_all
  then have s_low: "9 / 100 \<le> s" using s(1) by (simp add: power3_eq_cube)
  have "x * (1 + 1 / 2 ^ 53) ^ 3 \<le> 30 * (1 + 1 / 2 ^ 53) ^ 3" using x by (intro mult_right_mono) simp_all
  then have s_high: "s * (1 + 1 / 2 ^ 53) \<le> 30 * (1 + 1 / 2 ^ 53) ^ 3 * (1 + 1 / 2 ^ 53)"
    using s(2) by (intro mult_right_mono) (rule order.trans, simp_all only: zero_le_divide_1_iff zero_le_power zero_le_numeral add_nonneg_nonneg zero_le_one)
  define y where "y = round_fp 53 (s - round_fp 53 (round_fp 53 (s * bc_jitter_factor default_config) * rand_f64 counter))"
  have y: "y \<le> 30 * (1 + 1 / 2 ^ 53) ^ 3 * (1 + 1 / 2 ^ 53)"
    using jitter_bounds [OF s_low, of counter] s_high by (simp add: y_def)
  have eq: "compute default_config counter attempt = from_secs (max y i)"
    by (simp add: compute_def Let_def d_def s_def i_def y_def)
  have "i \<le> max y i" by simp
  with i(1) have "of_nat 100000000 - 1 / 2 < max y i * 1000000000" by (simp add: power3_eq_cube)
  then have "100000000 \<le> from_secs (max y i)" by (rule from_secs_ge)
  moreover have "max y i * 1000000000 < of_nat 30000000000 + 1 / 2"
  proof -
    have "max y i \<le> 30 * (1 + 1 / 2 ^ 53) ^ 3 * (1 + 1 / 2 ^ 53)"
      using y i(2) by (simp add: power3_eq_cube)
    then show ?thesis by (simp add: power3_eq_cube)
  qed
  then have "from_secs (max y i) \<le> 30000000000" by (rule from_secs_le)
  ultimately show ?thesis unfolding eq by (simp add: default_config_def)
qed

end
