(* ===== verification/Task_Queue.thy ===== *)
theory Task_Queue
  imports Core_Types "HOL-Library.AList"
begin

text \<open>
  \<open>core/src/task_queue.rs\<close>: the in-memory table of workers, and the contract of a keyed table,
  which the worker's activity registry shares. A \<open>HashMap\<close> is an association list with
  distinct keys; the order of its entries stands for the unspecified order of \<open>values()\<close>.
\<close>

section \<open>The contract of a keyed table\<close>

locale keyed_store =
  fixes inv :: "'s \<Rightarrow> bool"
    and get :: "'s \<Rightarrow> string \<Rightarrow> 'v option"
    and put :: "string \<Rightarrow> 'v \<Rightarrow> 's \<Rightarrow> 's"
    and entries :: "'s \<Rightarrow> (string \<times> 'v) list"
  assumes put_inv: "inv s \<Longrightarrow> inv (put k v s)"
    and get_put: "inv s \<Longrightarrow> get (put k v s) k' = (if k' = k then Some v else get s k')"
    and entries_get: "inv s \<Longrightarrow> (k, v) \<in> set (entries s) \<longleftrightarrow> get s k = Some v"
    and entries_distinct: "inv s \<Longrightarrow> distinct (map fst (entries s))"
begin

lemma entry_count: "inv s \<Longrightarrow> length (entries s) = card (dom (get s))"
proof -
  assume inv: "inv s"
  have "fst ` set (entries s) = dom (get s)"
    using entries_get [OF inv] by (force simp: dom_def image_iff)
  then show ?thesis
    using distinct_card [OF entries_distinct [OF inv]] by simp
qed

lemma finite_keys: "inv s \<Longrightarrow> finite (dom (get s))"
proof -
  assume inv: "inv s"
  have "dom (get s) \<subseteq> fst ` set (entries s)"
    using entries_get [OF inv] by (force simp: dom_def image_iff)
  then show ?thesis by (rule finite_subset) simp
qed

text \<open>Putting a value adds an entry exactly when its key is new.\<close>

lemma put_count:
  assumes "inv s"
  shows "length (entries (put k v s)) = (if get s k = None then Suc (length (entries s)) else length (entries s))"
proof -
  have "dom (get (put k v s)) = insert k (dom (get s))"
    using get_put [OF assms] by (auto simp: dom_def)
  then show ?thesis
    using entry_count [OF assms] entry_count [OF put_inv [OF assms]] finite_keys [OF assms]
    by (auto simp: card_insert_if dom_def)
qed

lemma some_entry:
  assumes "inv s"
  shows "(\<exists>p \<in> set (entries s). P (snd p)) \<longleftrightarrow> (\<exists>k v. get s k = Some v \<and> P v)"
  using entries_get [OF assms] by force

end

locale removable_store = keyed_store +
  fixes remove :: "string \<Rightarrow> 's \<Rightarrow> 's"
  assumes remove_inv: "inv s \<Longrightarrow> inv (remove k s)"
    and get_remove: "inv s \<Longrightarrow> get (remove k s) k' = (if k' = k then None else get s k')"
begin

lemma remove_put: "inv s \<Longrightarrow> get (remove k (put k v s)) = get (remove k s)"
  by (rule ext) (simp add: get_remove get_put put_inv)

end

section \<open>Task queues\<close>

record RegisteredWorker =
  rw_worker_id :: string
  rw_activity_types :: "string list"
  rw_last_heartbeat :: time

record TaskQueue =
  tq_name :: string
  tq_workers :: "(string \<times> RegisteredWorker) list"

definition tq_new :: "string \<Rightarrow> TaskQueue" where
  "tq_new name = \<lparr>tq_name = name, tq_workers = []\<rparr>"

definition tq_insert :: "string \<Rightarrow> RegisteredWorker \<Rightarrow> TaskQueue \<Rightarrow> TaskQueue" where
  "tq_insert k w q = q\<lparr>tq_workers := AList.update k w (tq_workers q)\<rparr>"

definition register_worker :: "time \<Rightarrow> string \<Rightarrow> string list \<Rightarrow> TaskQueue \<Rightarrow> TaskQueue" where
  "register_worker now worker_id activity_types q =
     tq_insert worker_id
       \<lparr>rw_worker_id = worker_id, rw_activity_types = activity_types, rw_last_heartbeat = now\<rparr> q"

definition get_worker :: "TaskQueue \<Rightarrow> string \<Rightarrow> RegisteredWorker option" where
  "get_worker q worker_id = map_of (tq_workers q) worker_id"

definition tq_remove :: "string \<Rightarrow> TaskQueue \<Rightarrow> TaskQueue" where
  "tq_remove k q = q\<lparr>tq_workers := AList.delete k (tq_workers q)\<rparr>"

definition unregister_worker :: "string \<Rightarrow> TaskQueue \<Rightarrow> RegisteredWorker option \<times> TaskQueue" where
  "unregister_worker worker_id q = (get_worker q worker_id, tq_remove worker_id q)"

definition update_heartbeat :: "time \<Rightarrow> string \<Rightarrow> TaskQueue \<Rightarrow> bool \<times> TaskQueue" where
  "update_heartbeat now worker_id q =
     (case get_worker q worker_id of
        Some w \<Rightarrow> (True, tq_insert worker_id (w\<lparr>rw_last_heartbeat := now\<rparr>) q)
      | None \<Rightarrow> (False, q))"

definition get_handlers :: "TaskQueue \<Rightarrow> string \<Rightarrow> RegisteredWorker list" where
  "get_handlers q activity_type = filter (\<lambda>w. activity_type \<in> set (rw_activity_types w)) (map snd (tq_workers q))"

definition has_handler :: "TaskQueue \<Rightarrow> string \<Rightarrow> bool" where
  "has_handler q activity_type = list_ex (\<lambda>w. activity_type \<in> set (rw_activity_types w)) (map snd (tq_workers q))"

definition worker_count :: "TaskQueue \<Rightarrow> nat" where
  "worker_count q = length (tq_workers q)"

definition tq_ok :: "TaskQueue \<Rightarrow> bool" where
  "tq_ok q \<longleftrightarrow> distinct (map fst (tq_workers q))"

interpretation workers: removable_store tq_ok get_worker tq_insert tq_workers tq_remove
proof unfold_locales
  fix q k k' w
  show "tq_ok q \<Longrightarrow> tq_ok (tq_insert k w q)"
    by (simp add: tq_ok_def tq_insert_def distinct_update)
  show "tq_ok q \<Longrightarrow> get_worker (tq_insert k w q) k' = (if k' = k then Some w else get_worker q k')"
    by (simp add: get_worker_def tq_insert_def update_conv')
  show "tq_ok q \<Longrightarrow> (k, w) \<in> set (tq_workers q) \<longleftrightarrow> get_worker q k = Some w"
    by (simp add: tq_ok_def get_worker_def map_of_eq_Some_iff)
  show "tq_ok q \<Longrightarrow> distinct (map fst (tq_workers q))"
    by (simp add: tq_ok_def)
  show "tq_ok q \<Longrightarrow> tq_ok (tq_remove k q)"
    by (simp add: tq_ok_def tq_remove_def distinct_delete)
  show "tq_ok q \<Longrightarrow> get_worker (tq_remove k q) k' = (if k' = k then None else get_worker q k')"
    by (simp add: get_worker_def tq_remove_def delete_conv')
qed

lemma has_handler_iff: "tq_ok q \<Longrightarrow> has_handler q a \<longleftrightarrow> (\<exists>k w. get_worker q k = Some w \<and> a \<in> set (rw_activity_types w))"
  using workers.some_entry [of q "\<lambda>w. a \<in> set (rw_activity_types w)"]
  by (simp add: has_handler_def list_ex_iff)

text \<open>
  Registering a worker makes it findable by its name and by every activity type it was registered
  with, adds to the count only if the name is new, and unregistering returns it and forgets it.
\<close>

lemma register_worker_spec:
  assumes "tq_ok q"
  shows "tq_ok (register_worker now w types q) \<and>
    (a \<in> set types \<longrightarrow> has_handler (register_worker now w types q) a) \<and>
    worker_count (register_worker now w types q) = (if get_worker q w = None then Suc (worker_count q) else worker_count q) \<and>
    fst (unregister_worker w (register_worker now w types q)) =
      Some \<lparr>rw_worker_id = w, rw_activity_types = types, rw_last_heartbeat = now\<rparr> \<and>
    get_worker (snd (unregister_worker w (register_worker now w types q))) = (get_worker q)(w := None)"
proof -
  let ?r = "\<lparr>rw_worker_id = w, rw_activity_types = types, rw_last_heartbeat = now\<rparr>"
  have reg: "register_worker now w types q = tq_insert w ?r q" by (simp add: register_worker_def)
  have ok: "tq_ok (tq_insert w ?r q)" by (rule workers.put_inv [OF assms])
  have "a \<in> set types \<longrightarrow> has_handler (tq_insert w ?r q) a"
    using has_handler_iff [OF ok] workers.get_put [OF assms, of w ?r w] by force
  moreover have "worker_count (tq_insert w ?r q) = (if get_worker q w = None then Suc (worker_count q) else worker_count q)"
    using workers.put_count [OF assms, of w ?r] by (simp add: worker_count_def)
  moreover have "get_worker (tq_remove w (tq_insert w ?r q)) = (get_worker q)(w := None)"
    using workers.get_remove [OF assms] by (auto simp: workers.remove_put [OF assms])
  ultimately show ?thesis
    using ok workers.get_put [OF assms, of w ?r w] by (simp add: reg unregister_worker_def)
qed

end
