(* ===== verification/Worker.thy ===== *)
theory Worker
  imports Backoff Task_Queue Grpc_Worker
begin

text \<open>
  The worker process, \<open>src/crates/worker/src\<close>: the registry of activity handlers, the handlers,
  what the executor reports for a task, and the poller's loop. Running a subprocess is an
  argument. The backoff delay is computed in \<open>Backoff\<close>.
\<close>

section \<open>Handlers\<close>

record process_output =
  po_success :: bool
  po_code :: "int option"
  po_stdout :: "8 word list"
  po_stderr :: "8 word list"

text \<open>\<open>Command::new(program).args(args).current_dir(dir).output()\<close>; \<open>Inl\<close> is the spawn error's text.\<close>

type_synonym run_process = "string \<Rightarrow> string list \<Rightarrow> string \<Rightarrow> string + process_output"

datatype handler =
    ScriptHandler (script_path: string) (workdir: string)
  | PythonHandler (script_path: string) (workdir: string)
  | DummyHandler

definition debug_code :: "int option \<Rightarrow> string" where
  "debug_code c = (case c of None \<Rightarrow> ''None'' | Some n \<Rightarrow> ''Some('' @ show_int n @ '')'')"

definition process_result :: "ext \<Rightarrow> string + process_output \<Rightarrow> string + string" where
  "process_result X r =
     (case r of
        Inl e \<Rightarrow> Inl (''Failed to spawn: '' @ e)
      | Inr out \<Rightarrow>
          (let out_text = utf8_lossy X (po_stdout out); err_text = utf8_lossy X (po_stderr out) in
           if po_success out then Inr (if out_text = [] then err_text else out_text)
           else Inl (''Exit code '' @ debug_code (po_code out) @ '': '' @ err_text)))"

definition handler_execute :: "ext \<Rightarrow> run_process \<Rightarrow> handler \<Rightarrow> ActivityTask \<Rightarrow> string + string" where
  "handler_execute X run h task =
     (case h of
        ScriptHandler path dir \<Rightarrow> process_result X (run ''bash'' [''-c'', path] dir)
      | PythonHandler path dir \<Rightarrow> process_result X (run ''python3'' [path] dir)
      | DummyHandler \<Rightarrow> Inr (''Dummy result for activity '' @ at_name task))"

section \<open>The activity registry\<close>

record ActivityRegistry =
  rg_handlers :: "(string \<times> handler) list"

definition registry_new :: ActivityRegistry where
  "registry_new = \<lparr>rg_handlers = []\<rparr>"

definition registry_register :: "string \<Rightarrow> handler \<Rightarrow> ActivityRegistry \<Rightarrow> ActivityRegistry" where
  "registry_register name h r = r\<lparr>rg_handlers := AList.update name h (rg_handlers r)\<rparr>"

definition registry_get :: "ActivityRegistry \<Rightarrow> string \<Rightarrow> handler option" where
  "registry_get r name = map_of (rg_handlers r) name"

definition registry_has :: "ActivityRegistry \<Rightarrow> string \<Rightarrow> bool" where
  "registry_has r name \<longleftrightarrow> name \<in> fst ` set (rg_handlers r)"

definition registry_len :: "ActivityRegistry \<Rightarrow> nat" where
  "registry_len r = length (rg_handlers r)"

definition register_default_handlers :: "string \<Rightarrow> ActivityRegistry \<Rightarrow> ActivityRegistry" where
  "register_default_handlers home r =
     fold (\<lambda>(name, h). registry_register name h)
       [(''lycus-memory-condenser'', PythonHandler (home @ ''/scripts/memory_condenser.py'') home),
        (''lycus-cron-notifier'', ScriptHandler (home @ ''/scripts/cron_notifier.sh'') home),
        (''lycus-searxng-healthcheck'', ScriptHandler (home @ ''/scripts/searxng_health_check.sh'') home),
        (''lycus-searxng-error-reactive'', ScriptHandler (home @ ''/scripts/searxng_error_check.sh'') home),
        (''lycus-arxiv-factory'', ScriptHandler (home @ ''/scripts/arxiv_factory.sh'') home),
        (''lycus-mathnexus-extract'',
           PythonHandler (home @ ''/Documents/AI_researched_math/mathNEXUS/extract_mindmap.py'') home),
        (''lycus-mathlab-agent'',
           PythonHandler (home @ ''/Documents/AI_researched_math/mathLaboratory/laboratory_agent.py'') home),
        (''dummy-activity'', DummyHandler)] r"

definition registry_ok :: "ActivityRegistry \<Rightarrow> bool" where
  "registry_ok r \<longleftrightarrow> distinct (map fst (rg_handlers r))"

interpretation handlers: keyed_store registry_ok registry_get registry_register rg_handlers
proof unfold_locales
  fix r k k' h
  show "registry_ok r \<Longrightarrow> registry_ok (registry_register k h r)"
    by (simp add: registry_ok_def registry_register_def distinct_update)
  show "registry_ok r \<Longrightarrow> registry_get (registry_register k h r) k' = (if k' = k then Some h else registry_get r k')"
    by (simp add: registry_get_def registry_register_def update_conv')
  show "registry_ok r \<Longrightarrow> (k, h) \<in> set (rg_handlers r) \<longleftrightarrow> registry_get r k = Some h"
    by (simp add: registry_ok_def registry_get_def map_of_eq_Some_iff)
  show "registry_ok r \<Longrightarrow> distinct (map fst (rg_handlers r))"
    by (simp add: registry_ok_def)
qed

section \<open>The executor\<close>

text \<open>What the executor tells the server about a task: exactly one report.\<close>

datatype report = ReportResult string string | ReportFailure string string

definition is_whitespace :: "char \<Rightarrow> bool" where
  "is_whitespace c = (let n = of_char c :: nat in (9 \<le> n \<and> n \<le> 13) \<or> n \<in> {32, 133, 160})"

definition trim :: "string \<Rightarrow> string" where
  "trim s = rev (dropWhile is_whitespace (rev (dropWhile is_whitespace s)))"

definition execute_task :: "ext \<Rightarrow> run_process \<Rightarrow> ActivityRegistry \<Rightarrow> ActivityTask \<Rightarrow> report" where
  "execute_task X run r task =
     (case registry_get r (at_name task) of
        Some h \<Rightarrow>
          (case handler_execute X run h task of
             Inr output \<Rightarrow> ReportResult (at_activity_id task)
                 (json_to_string X (JObject [(''stdout'', JString (trim output))]))
           | Inl err_msg \<Rightarrow> ReportFailure (at_activity_id task) err_msg)
      | None \<Rightarrow> ReportFailure (at_activity_id task) (''No handler registered for activity: '' @ at_name task))"

text \<open>The client sends the report; the server's answer is dropped after logging.\<close>

definition send_report :: "ext \<Rightarrow> clock \<Rightarrow> report \<Rightarrow> (server, status, unit) exec" where
  "send_report X clk rep =
     ignoreErr (case rep of
        ReportResult aid txt \<Rightarrow> report_activity_result X clk aid txt
      | ReportFailure aid msg \<Rightarrow> report_activity_failure X clk aid msg)"

section \<open>The poller\<close>

datatype ConnectionState = Connected | Disconnected

record poller =
  pl_state :: ConnectionState
  pl_reconnect_attempt :: u32
  pl_counter :: u64

text \<open>The last field is the static \<open>COUNTER\<close> of \<open>rand_f64\<close>, which only the poller uses.\<close>

definition poller_init :: poller where
  "poller_init = \<lparr>pl_state = Disconnected, pl_reconnect_attempt = 0, pl_counter = 0\<rparr>"

text \<open>
  One pass of the loop, given what \<open>poll_once\<close> returned: the next state, the task sent into the
  channel, and after an error the number of the attempt and the delay that is slept.
\<close>

definition poller_step ::
  "status + ActivityTask option \<Rightarrow> poller \<Rightarrow> poller \<times> ActivityTask option \<times> (u32 \<times> duration) option" where
  "poller_step res p =
     (case res of
        Inr (Some task) \<Rightarrow> (p\<lparr>pl_state := Connected, pl_reconnect_attempt := 0\<rparr>, Some task, None)
      | Inr None \<Rightarrow> (p\<lparr>pl_state := Connected, pl_reconnect_attempt := 0\<rparr>, None, None)
      | Inl e \<Rightarrow>
          (let p' = (if pl_state p = Connected then p\<lparr>pl_state := Disconnected, pl_reconnect_attempt := 0\<rparr> else p);
               attempt = pl_reconnect_attempt p' + 1;
               counter = pl_counter p' + 1 in
           (p'\<lparr>pl_reconnect_attempt := attempt, pl_counter := counter\<rparr>, None,
            Some (attempt, compute default_config counter attempt))))"

text \<open>\<open>poll_once\<close> asks with an empty list of activity types.\<close>

definition poll_once ::
  "ext \<Rightarrow> clock \<Rightarrow> uuid \<Rightarrow> string \<Rightarrow> (server, status, ActivityTask option) exec" where
  "poll_once X clk activity_id task_queue =
     andThen (poll_activity X clk activity_id \<lparr>pa_task_queue = task_queue, pa_activity_types = []\<rparr>)
       (\<lambda>resp. okE (pr_task resp))"

text \<open>Errors in a row: the attempts for which the delays are computed count up from 1.\<close>

fun poller_errors :: "status list \<Rightarrow> poller \<Rightarrow> poller \<times> (u32 \<times> duration) list" where
  "poller_errors [] p = (p, [])"
| "poller_errors (e # es) p =
     (case poller_step (Inl e) p of
        (p', _, a) \<Rightarrow> (case poller_errors es p' of (p'', as) \<Rightarrow> (p'', (case a of None \<Rightarrow> [] | Some x \<Rightarrow> [x]) @ as)))"

lemma poller_errors_disconnected:
  "pl_state p = Disconnected \<Longrightarrow>
   map fst (snd (poller_errors es p)) = map (\<lambda>i. pl_reconnect_attempt p + of_nat (Suc i)) [0..<length es]"
proof (induction es arbitrary: p)
  case (Cons e es)
  let ?p = "p\<lparr>pl_reconnect_attempt := pl_reconnect_attempt p + 1, pl_counter := pl_counter p + 1\<rparr>"
  have step: "poller_step (Inl e) p =
      (?p, None, Some (pl_reconnect_attempt p + 1, compute default_config (pl_counter p + 1) (pl_reconnect_attempt p + 1)))"
    using Cons.prems by (simp add: poller_step_def Let_def)
  have shift: "[0..<length (e # es)] = 0 # map Suc [0..<length es]"
    by (simp add: upt_conv_Cons map_Suc_upt del: upt_Suc)
  show ?case
    using Cons.IH [of ?p] Cons.prems unfolding shift by (simp add: step add.assoc o_def case_prod_unfold)
qed simp

lemma poller_counts_errors:
  assumes "pl_state p = Connected \<or> pl_reconnect_attempt p = 0"
  shows "map fst (snd (poller_errors es p)) = map (\<lambda>i. of_nat (Suc i)) [0..<length es]"
proof (cases es)
  case (Cons e es')
  obtain q x where step: "poller_step (Inl e) p = (q, None, Some (1, x))" and q: "pl_state q = Disconnected" "pl_reconnect_attempt q = 1"
    using assms by (cases "pl_state p") (auto simp: poller_step_def Let_def)
  have shift: "[0..<length es] = 0 # map Suc [0..<length es']"
    by (simp add: Cons upt_conv_Cons map_Suc_upt del: upt_Suc)
  show ?thesis
    unfolding shift using poller_errors_disconnected [OF q(1), of es'] by (simp add: Cons step q o_def case_prod_unfold)
qed simp

lemma poller_reconnected:
  "pl_reconnect_attempt (fst (poller_step (Inr t) p)) = 0" "pl_state (fst (poller_step (Inr t) p)) = Connected"
  by (simp_all add: poller_step_def split: option.split)

section \<open>Properties of the worker\<close>

text \<open>
  The worker never gets a task: its poll names no activity types, so the server hands out
  nothing and changes nothing.
\<close>

lemma worker_never_receives:
  "snd (poll_once X clk aid queue s) = s \<and>
   (case fst (poll_once X clk aid queue s) of Inl _ \<Rightarrow> True | Inr task \<Rightarrow> task = None)"
proof -
  have "find (\<lambda>p. si_activity_name p \<in> set []) steps = None" for steps :: "WorkflowStepInstance list"
    by (induction steps) simp_all
  then show ?thesis
    by (simp add: poll_once_def poll_activity_def get_pending_steps_def exec_simps split: sum.split)
qed

end
