(* ===== verification/History.thy ===== *)
theory History
  imports Server_State
begin

text \<open>
  What the database remembers. The tables of workflows, steps and activities only grow, a stored row
  keeps the columns that say what it is, and its state moves in one direction where the program
  relies on it. The relation \<open>extends\<close> says this of two databases. It is a preorder, so \<open>extends d\<close>
  is a property that the operations of \<open>db/src\<close> keep, and with it every handler of the server.
\<close>

section \<open>Rows\<close>

definition wf_fixed :: "wf_row \<Rightarrow> sqltext list \<times> i64 option list" where
  "wf_fixed r = ([wf_run_id r, wf_workflow_id r, wf_name r, wf_task_queue r, wf_args_json r, wf_namespace r],
     [wf_execution_timeout_secs r, wf_run_timeout_secs r, wf_task_timeout_secs r])"

definition st_fixed :: "step_row \<Rightarrow> sqltext list \<times> i64 list \<times> i64 option" where
  "st_fixed r = ([st_id r, st_workflow_run_id r, st_activity_name r, st_args_json r, st_retry_policy_json r, st_created_at r],
     [st_step_index r, st_timeout_secs r], st_heartbeat_timeout_secs r)"

definition ac_fixed :: "act_row \<Rightarrow> sqltext list \<times> i64 \<times> sqltext option" where
  "ac_fixed r = ([ac_id r, ac_step_id r], ac_attempt r, ac_started_at r)"

text \<open>
  A workflow that has left \<open>pending\<close> does not come back to it, and its starting time, once set, stays.
  An activity that has ended does not run again.
\<close>

definition wf_evolves :: "wf_row \<Rightarrow> wf_row \<Rightarrow> bool" where
  "wf_evolves r r' \<longleftrightarrow> wf_fixed r' = wf_fixed r \<and> (wf_state r' = ''pending'' \<longrightarrow> wf_state r = ''pending'') \<and>
     (wf_started_at r = None \<or> wf_started_at r' = wf_started_at r)"

definition st_evolves :: "step_row \<Rightarrow> step_row \<Rightarrow> bool" where
  "st_evolves r r' \<longleftrightarrow> st_fixed r' = st_fixed r"

definition ac_evolves :: "act_row \<Rightarrow> act_row \<Rightarrow> bool" where
  "ac_evolves r r' \<longleftrightarrow> ac_fixed r' = ac_fixed r \<and> (ac_state r' = ''running'' \<longrightarrow> ac_state r = ''running'')"

section \<open>Tables\<close>

definition rows_evolve :: "('r \<Rightarrow> 'r \<Rightarrow> bool) \<Rightarrow> 'r list \<Rightarrow> 'r list \<Rightarrow> bool" where
  "rows_evolve E xs ys \<longleftrightarrow> length xs \<le> length ys \<and> list_all2 E xs (take (length xs) ys)"

text \<open>The contract of an order on rows, and what it gives for tables.\<close>

locale row_order =
  fixes E :: "'r \<Rightarrow> 'r \<Rightarrow> bool"
  assumes refl: "E r r"
    and trans: "E r s \<Longrightarrow> E s t \<Longrightarrow> E r t"
begin

lemma nth_iff: "rows_evolve E xs ys \<longleftrightarrow> length xs \<le> length ys \<and> (\<forall>i < length xs. E (xs ! i) (ys ! i))"
  by (auto simp: rows_evolve_def list_all2_conv_all_nth)

lemma rows_refl: "rows_evolve E xs xs"
  by (simp add: nth_iff refl)

lemma rows_trans: "rows_evolve E xs ys \<Longrightarrow> rows_evolve E ys zs \<Longrightarrow> rows_evolve E xs zs"
  by (auto simp: nth_iff intro: trans)

lemma rows_append: "rows_evolve E xs ys \<Longrightarrow> rows_evolve E xs (ys @ zs)"
  by (simp add: nth_iff nth_append)

lemma rows_update: "(\<And>r. P r \<Longrightarrow> E r (f r)) \<Longrightarrow> rows_evolve E xs ys \<Longrightarrow> rows_evolve E xs (update_where P f ys)"
  by (auto simp: nth_iff update_where_def intro: trans)

lemma row_later:
  assumes "rows_evolve E xs ys" "r \<in> set xs"
  shows "\<exists>r' \<in> set ys. E r r'"
proof -
  obtain i where "i < length xs" "xs ! i = r" using assms(2) by (auto simp: in_set_conv_nth)
  with assms(1) show ?thesis by (auto simp: nth_iff intro!: bexI [of _ "ys ! i"])
qed

end

interpretation wf_rows: row_order wf_evolves
  by unfold_locales (auto simp: wf_evolves_def)

interpretation st_rows: row_order st_evolves
  by unfold_locales (auto simp: st_evolves_def)

interpretation ac_rows: row_order ac_evolves
  by unfold_locales (auto simp: ac_evolves_def)

section \<open>Databases\<close>

definition extends :: "db \<Rightarrow> db \<Rightarrow> bool" where
  "extends d d' \<longleftrightarrow> rows_evolve wf_evolves (workflows d) (workflows d') \<and>
     rows_evolve st_evolves (workflow_steps d) (workflow_steps d') \<and>
     rows_evolve ac_evolves (activities d) (activities d')"

lemma extends_refl: "extends d d"
  by (simp add: extends_def wf_rows.rows_refl st_rows.rows_refl ac_rows.rows_refl)

lemma extends_trans: "extends d d' \<Longrightarrow> extends d' d'' \<Longrightarrow> extends d d''"
  unfolding extends_def by (blast intro: wf_rows.rows_trans st_rows.rows_trans ac_rows.rows_trans)

text \<open>The statements, once for all clients.\<close>

lemma extends_inserts:
  "keeps (extends d0) (exec_insert_workflow w)" "keeps (extends d0) (exec_insert_step r)"
  "keeps (extends d0) (exec_insert_activity a)" "keeps (extends d0) (exec_insert_schedule sr)"
  "keeps (extends d0) (exec_update_schedules P g)" "keeps (extends d0) (exec_delete_schedules P)"
  by (rule keepsI; simp add: extends_def exec_insert_workflow_def exec_insert_step_def exec_insert_activity_def
      exec_insert_schedule_def exec_update_schedules_def exec_delete_schedules_def
      wf_rows.rows_append st_rows.rows_append ac_rows.rows_append split: sum.split prod.split)+

lemma extends_update_workflows:
  "(\<And>r. P r \<Longrightarrow> wf_evolves r (f r)) \<Longrightarrow> keeps (extends d0) (exec_update_workflows P f)"
  by (rule keepsI) (auto simp: extends_def exec_update_workflows_def dest!: sql_update_Inr split: sum.split
      intro: wf_rows.rows_update)

lemma extends_update_steps:
  "(\<And>r. P r \<Longrightarrow> st_evolves r (f r)) \<Longrightarrow> keeps (extends d0) (exec_update_steps P f)"
  by (rule keepsI) (auto simp: extends_def exec_update_steps_def dest!: sql_update_Inr split: sum.split
      intro: st_rows.rows_update)

lemma extends_update_activities:
  "(\<And>r. P r \<Longrightarrow> ac_evolves r (f r)) \<Longrightarrow> keeps (extends d0) (exec_update_activities P f)"
  by (rule keepsI) (auto simp: extends_def exec_update_activities_def dest!: sql_update_Inr split: sum.split
      intro: ac_rows.rows_update)

lemma workflow_state_not_pending [simp]: "workflow_state_to_str st = ''pending'' \<longleftrightarrow> st = Pending"
  by (cases st) (simp_all add: workflow_state_to_str_def)

lemma activity_state_not_running [simp]: "activity_state_to_str st = ''running'' \<longleftrightarrow> st = Activity_Running"
  by (cases st) (simp_all add: activity_state_to_str_def)

lemmas extends_statements = extends_inserts extends_update_workflows extends_update_steps extends_update_activities

lemmas evolves_defs = wf_evolves_def wf_fixed_def st_evolves_def st_fixed_def ac_evolves_def ac_fixed_def

interpretation history: db_client "extends d" for d
  by unfold_locales
    (auto simp: insert_workflow_def update_workflow_state_def cancel_workflow_def stmt_start_workflow_def
      insert_workflow_step_def update_step_state_def stmt_reset_step_def
      insert_activity_attempt_def update_activity_state_def heartbeat_update_def evolves_defs
      split: option.split intro!: keeps_andThen keeps_if keeps_okE keeps_errE extends_statements)

end
