(* ===== verification/System.thy ===== *)
theory System
  imports Scheduler_Loop Temporal_Update Worker History
begin

text \<open>
  The running server: \<open>run_server\<close> starts the engine, the scheduler and the gRPC services, which
  share the database and the engine's channel. A step of the system is one gRPC call, one turn
  of the engine's loop, one timer that ends, one pass of the scheduler's loop, or a restart of the
  process, in any order.
  The gRPC calls exclude one another by their mutex; the engine and the scheduler have
  connections of their own, so their statements can also fall between those of a call: that grain
  is the subject of \<open>Interference\<close>.
  A call of the Temporal \<open>update_schedule\<close> is a step if its strings have no quote character; with one,
  the client writes the statement.
\<close>

section \<open>Requests\<close>

datatype rpc =
    CreateScheduleCall CreateScheduleRequest
  | UpdateScheduleCall UpdateScheduleRequest
  | DeleteScheduleCall string string
  | ListSchedulesCall string
  | StartWorkflowCall StartWorkflowRequest
  | GetWorkflowCall string
  | ListWorkflowsCall string
  | CancelWorkflowCall string
  | PollActivityCall PollActivityRequest
  | ReportActivityResultCall string string
  | ReportActivityFailureCall string string
  | HeartbeatCall string
  | RegisterNamespaceCall string
  | DescribeNamespaceCall string
  | StartWorkflowExecutionCall TStartWorkflowRequest
  | PollActivityTaskQueueCall "string option"
  | RespondActivityTaskCompletedCall bytes "bytes list option"
  | RespondActivityTaskFailedCall bytes "string option"
  | TemporalCreateScheduleCall TCreateScheduleRequest
  | DescribeScheduleCall string string
  | TemporalDeleteScheduleCall string string
  | GetSystemInfoCall
  | StubCall stub_call

text \<open>What a call does to the server's state; \<open>new_id\<close> and \<open>step_ids\<close> are the UUIDs it draws.\<close>

definition rpc_effect :: "ext \<Rightarrow> clock \<Rightarrow> uuid \<Rightarrow> (nat \<Rightarrow> uuid) \<Rightarrow> rpc \<Rightarrow> server \<Rightarrow> server" where
  "rpc_effect X clk new_id step_ids r s =
     (case r of
        CreateScheduleCall req \<Rightarrow> snd (create_schedule X clk req s)
      | UpdateScheduleCall req \<Rightarrow> snd (update_schedule X clk req s)
      | DeleteScheduleCall sid ns \<Rightarrow> snd (delete_schedule_rpc sid ns s)
      | ListSchedulesCall ns \<Rightarrow> snd (list_schedules_rpc X ns s)
      | StartWorkflowCall req \<Rightarrow> snd (start_workflow X clk new_id step_ids req s)
      | GetWorkflowCall run_id \<Rightarrow> snd (get_workflow_rpc X run_id s)
      | ListWorkflowsCall ns \<Rightarrow> snd (list_workflows_rpc X ns s)
      | CancelWorkflowCall run_id \<Rightarrow> snd (cancel_workflow_rpc clk run_id s)
      | PollActivityCall req \<Rightarrow> snd (poll_activity X clk new_id req s)
      | ReportActivityResultCall aid txt \<Rightarrow> snd (report_activity_result X clk aid txt s)
      | ReportActivityFailureCall aid msg \<Rightarrow> snd (report_activity_failure X clk aid msg s)
      | HeartbeatCall aid \<Rightarrow> snd (heartbeat clk aid s)
      | RegisterNamespaceCall ns \<Rightarrow> snd (register_namespace (sql_now clk) ns s)
      | DescribeNamespaceCall ns \<Rightarrow> snd (describe_namespace ns s)
      | StartWorkflowExecutionCall req \<Rightarrow> snd (start_workflow_execution X clk new_id step_ids req s)
      | PollActivityTaskQueueCall q \<Rightarrow> snd (poll_activity_task_queue X clk new_id q s)
      | RespondActivityTaskCompletedCall tok res \<Rightarrow> snd (respond_activity_task_completed X clk tok res s)
      | RespondActivityTaskFailedCall tok f \<Rightarrow> snd (respond_activity_task_failed X clk tok f s)
      | TemporalCreateScheduleCall req \<Rightarrow> snd (temporal_create_schedule X clk req s)
      | DescribeScheduleCall sid ns \<Rightarrow> snd (describe_schedule X sid ns s)
      | TemporalDeleteScheduleCall sid ns \<Rightarrow> snd (temporal_delete_schedule sid ns s)
      | GetSystemInfoCall \<Rightarrow> snd (get_system_info s)
      | StubCall c \<Rightarrow> snd (temporal_stub c s))"

section \<open>Steps\<close>

datatype task_state = NotStarted | Up | Down

text \<open>
  \<open>sys_changes\<close> is the number of messages in the scheduler's own channel, whose sender
  \<open>Scheduler::schedule_change_sender\<close> hands out.
\<close>

record system =
  sys_server :: server
  sys_heap :: heap
  sys_engine :: task_state
  sys_scheduler :: task_state
  sys_changes :: nat

definition sys_init :: system where
  "sys_init = \<lparr>sys_server = init_server, sys_heap = [], sys_engine = Up, sys_scheduler = NotStarted, sys_changes = 0\<rparr>"

text \<open>
  \<open>run_server\<close> creates the engine's channel, gives its sender to the services and spawns the tasks. When the process is
  stopped and started again, the database file stays; the events in the channel, the timers and the heap are gone.
\<close>

definition run_server :: "db \<Rightarrow> system" where
  "run_server d = \<lparr>sys_server = \<lparr>srv_db = d, srv_events = [], srv_timers = [], srv_engine_tx = True\<rparr>,
     sys_heap = [], sys_engine = Up, sys_scheduler = NotStarted, sys_changes = 0\<rparr>"

definition restarted :: "system \<Rightarrow> system" where
  "restarted s = run_server (database_new (Some (file_of (srv_db (sys_server s)))))"

lemma restarted_simps [simp]:
  "srv_db (sys_server (restarted s)) = srv_db (sys_server s)" "srv_events (sys_server (restarted s)) = []"
  "srv_timers (sys_server (restarted s)) = []" "sys_heap (restarted s) = []"
  "sys_engine (restarted s) = Up" "sys_scheduler (restarted s) = NotStarted" "sys_changes (restarted s) = 0"
  by (simp_all add: restarted_def run_server_def)

text \<open>The capacity of the engine's broadcast channel; a receiver that lags loses the oldest events.\<close>

definition engine_capacity :: nat where
  "engine_capacity = 256"

definition after_task :: "err + 'a \<Rightarrow> task_state" where
  "after_task res = (case res of Inl _ \<Rightarrow> Down | Inr _ \<Rightarrow> Up)"

inductive sys_step :: "ext \<Rightarrow> system \<Rightarrow> system \<Rightarrow> bool" for X :: ext where
  call: "sys_step X s (s\<lparr>sys_server := rpc_effect X clk new_id step_ids r (sys_server s)\<rparr>)"
| temporal_update: "pred_option update_clean (tur_schedule req) \<Longrightarrow>
    sys_step X s (s\<lparr>sys_server := snd (temporal_update_schedule run clk req (sys_server s))\<rparr>)"
| lagged: "\<lbrakk>sys_engine s = Up; engine_capacity < length (srv_events (sys_server s))\<rbrakk> \<Longrightarrow>
    sys_step X s (s\<lparr>sys_server := (sys_server s)\<lparr>srv_events :=
       drop (length (srv_events (sys_server s)) - engine_capacity) (srv_events (sys_server s))\<rparr>\<rparr>)"
| event: "\<lbrakk>sys_engine s = Up; srv_events (sys_server s) = ev # evs; length evs < engine_capacity;
    handle_event X clk ev ((sys_server s)\<lparr>srv_events := evs\<rparr>) = (res, srv)\<rbrakk> \<Longrightarrow>
    sys_step X s (s\<lparr>sys_server := srv, sys_engine := after_task res\<rparr>)"
| timer: "\<lbrakk>srv_timers (sys_server s) = before @ (t, ev) # after; t \<le> utc_now (clk :: clock)\<rbrakk> \<Longrightarrow>
    sys_step X s (s\<lparr>sys_server := (sys_server s)\<lparr>srv_timers := before @ after,
       srv_events := srv_events (sys_server s) @ [ev]\<rparr>\<rparr>)"
| start_scheduler: "\<lbrakk>sys_scheduler s = NotStarted; scheduler_reload X clk [] (sys_server s) = (res, srv)\<rbrakk> \<Longrightarrow>
    sys_step X s (s\<lparr>sys_server := srv, sys_heap := (case res of Inl _ \<Rightarrow> [] | Inr h \<Rightarrow> h), sys_scheduler := after_task res\<rparr>)"
| wake: "\<lbrakk>sys_scheduler s = Up; scheduler_wake X env clk (sys_heap s) (sys_server s) = (res, srv)\<rbrakk> \<Longrightarrow>
    sys_step X s (s\<lparr>sys_server := srv, sys_heap := (case res of Inl _ \<Rightarrow> [] | Inr h \<Rightarrow> h), sys_scheduler := after_task res\<rparr>)"
| changed: "\<lbrakk>sys_scheduler s = Up; sys_changes s = Suc n; scheduler_reload X clk (sys_heap s) (sys_server s) = (res, srv)\<rbrakk> \<Longrightarrow>
    sys_step X s (s\<lparr>sys_server := srv, sys_heap := (case res of Inl _ \<Rightarrow> [] | Inr h \<Rightarrow> h), sys_scheduler := after_task res,
       sys_changes := n\<rparr>)"
| restart: "sys_step X s (restarted s)"

definition reachable :: "ext \<Rightarrow> system \<Rightarrow> bool" where
  "reachable X s \<longleftrightarrow> (sys_step X)\<^sup>*\<^sup>* sys_init s"

lemma reachable_init: "reachable X sys_init"
  by (simp add: reachable_def)

lemma reachable_step: "reachable X s \<Longrightarrow> sys_step X s s' \<Longrightarrow> reachable X s'"
  by (simp add: reachable_def rtranclp.rtrancl_into_rtrancl)

section \<open>Invariants\<close>

text \<open>Whatever all operations of the database keep, every step of the system keeps.\<close>

context db_client
begin

lemma rpc_effect_keeps: "on_db I s \<Longrightarrow> on_db I (rpc_effect X clk nid ids r s)"
proof -
  assume s: "on_db I s"
  have "keeps (on_db I) (temporal_stub c)" "keeps (on_db I) get_system_info" for c
    by (simp_all add: temporal_stub_def get_system_info_def inv_rules)
  note rules = this keeps_create_schedule keeps_update_schedule keeps_delete_schedule_rpc keeps_list_schedules_rpc
    keeps_start_workflow keeps_get_workflow_rpc keeps_list_workflows_rpc keeps_cancel_workflow_rpc
    keeps_poll_activity keeps_report_activity_result keeps_report_activity_failure keeps_heartbeat
    keeps_register_namespace keeps_describe_namespace keeps_start_workflow_execution
    keeps_poll_activity_task_queue keeps_respond_completed keeps_respond_failed
    keeps_temporal_create_schedule keeps_describe_schedule keeps_temporal_delete_schedule
  show ?thesis
    unfolding rpc_effect_def by (cases r) (simp_all add: rules [THEN keepsD] s)
qed

lemma sys_step_keeps:
  assumes "sys_step X s s'" "on_db I (sys_server s)"
  shows "on_db I (sys_server s')"
  using assms
proof (cases rule: sys_step.cases)
  case (temporal_update req run clk)
  then show ?thesis
    using keepsD [OF keeps_temporal_update_schedule assms(2)] by simp
next
  case (event ev evs clk res srv)
  have "on_db I (snd (handle_event X clk ev ((sys_server s)\<lparr>srv_events := evs\<rparr>)))"
    using assms(2) by (intro keepsD [OF keeps_handle_event]) (simp add: on_db_def)
  with event show ?thesis by simp
next
  case (start_scheduler clk res srv)
  have "on_db I (snd (scheduler_reload X clk [] (sys_server s)))"
    using assms(2) by (rule keepsD [OF keeps_scheduler_reload])
  with start_scheduler show ?thesis by simp
next
  case (wake env clk res srv)
  have "on_db I (snd (scheduler_wake X env clk (sys_heap s) (sys_server s)))"
    using assms(2) by (rule keepsD [OF keeps_scheduler_wake])
  with wake show ?thesis by simp
next
  case (changed n clk res srv)
  have "on_db I (snd (scheduler_reload X clk (sys_heap s) (sys_server s)))"
    using assms(2) by (rule keepsD [OF keeps_scheduler_reload])
  with changed show ?thesis by simp
qed (auto simp: on_db_def rpc_effect_keeps [unfolded on_db_def])

end

interpretation sys_schema: step_invariant sys_init "sys_step X" "\<lambda>s. on_db schema_ok (sys_server s)" for X
  by unfold_locales
    (auto simp: sys_init_def init_server_def on_db_def schema_ok_migrate [unfolded on_db_def]
      dest: schema.sys_step_keeps [unfolded on_db_def])

interpretation sys_retried: step_invariant sys_init "sys_step X" "\<lambda>s. on_db no_retried (sys_server s)" for X
  by unfold_locales
    (auto simp: sys_init_def init_server_def on_db_def no_retried_def migrate_def
      dest: retried.sys_step_keeps [unfolded on_db_def no_retried_def])

subsection \<open>Namespaces\<close>

definition no_namespaces :: "db \<Rightarrow> bool" where
  "no_namespaces d \<longleftrightarrow> namespaces d = []"

lemma namespaces_frame:
  "namespaces (snd (exec_insert_workflow w d)) = namespaces d"
  "namespaces (snd (exec_update_workflows P f d)) = namespaces d"
  "namespaces (snd (exec_insert_step r d)) = namespaces d"
  "namespaces (snd (exec_update_steps P1 f1 d)) = namespaces d"
  "namespaces (snd (exec_insert_activity a d)) = namespaces d"
  "namespaces (snd (exec_update_activities P2 f2 d)) = namespaces d"
  "namespaces (snd (exec_insert_schedule sr d)) = namespaces d"
  "namespaces (snd (exec_update_schedules P3 f3 d)) = namespaces d"
  "namespaces (snd (exec_delete_schedules P3 d)) = namespaces d"
  by (simp_all add: exec_insert_workflow_def exec_update_workflows_def exec_insert_step_def
      exec_update_steps_def exec_insert_activity_def exec_update_activities_def
      exec_insert_schedule_def exec_update_schedules_def exec_delete_schedules_def split: sum.split prod.split)

lemma no_namespaces_frame: "(\<And>d. namespaces (snd (m d)) = namespaces d) \<Longrightarrow> keeps no_namespaces m"
  by (simp add: keeps_def no_namespaces_def)

lemmas no_namespaces_statements = namespaces_frame [THEN no_namespaces_frame]

interpretation unnamed: db_client no_namespaces
  by unfold_locales
    (auto simp: insert_workflow_def update_workflow_state_def cancel_workflow_def stmt_start_workflow_def
      insert_workflow_step_def update_step_state_def stmt_reset_step_def
      insert_activity_attempt_def update_activity_state_def heartbeat_update_def
      intro!: keeps_andThen keeps_if keeps_okE keeps_errE no_namespaces_statements)

interpretation sys_unnamed: step_invariant sys_init "sys_step X" "\<lambda>s. on_db no_namespaces (sys_server s)" for X
  by unfold_locales
    (auto simp: sys_init_def init_server_def on_db_def no_namespaces_def migrate_def
      dest: unnamed.sys_step_keeps [unfolded on_db_def no_namespaces_def])

subsection \<open>The scheduler's heap\<close>

lemma rearm_fired_sorted:
  "sorted h \<Longrightarrow> rearm_fired X clk ids h d = (Inr h', d') \<Longrightarrow> sorted h'"
proof (induction ids arbitrary: h d)
  case (Cons i ids)
  have "update_schedule_next_fire X clk i h d = (Inr g, e) \<Longrightarrow> sorted g" for g e
    using Cons.prems(1)
    by (auto simp: update_schedule_next_fire_def exec_simps sched_heap.push_inv
        split: prod.splits sum.splits option.splits if_splits)
  with Cons show ?case
    by (auto split: prod.splits sum.splits if_splits)
qed simp

lemma scheduler_wake_sorted:
  assumes "sorted h" "scheduler_wake X env clk h s = (Inr h', s')"
  shows "sorted h'"
proof -
  obtain ids g s1 where fired: "fire_due X env (utc_now clk) 0 h s = (Inr (ids, g), s1)"
    and rearm: "with_db (rearm_fired X clk ids g) s1 = (Inr h', s')"
    using assms(2) by (auto simp: scheduler_wake_def exec_simps split: prod.splits sum.splits)
  have "sorted g" using fire_due_heap [OF assms(1) fired] assms(1) by (simp add: sorted_wrt_filter)
  with rearm show ?thesis
    by (auto simp: with_db_def split: prod.splits dest: rearm_fired_sorted)
qed

lemma scheduler_reload_sorted: "sorted h \<Longrightarrow> scheduler_reload X clk h s = (Inr h', s') \<Longrightarrow> sorted h'"
  by (auto simp: scheduler_reload_def reload_all_schedules_def exec_simps sorted_heap_of_fires
      split: prod.splits sum.splits if_splits)

interpretation sys_sorted: step_invariant sys_init "sys_step X" "\<lambda>s. sorted (sys_heap s)" for X
proof unfold_locales
  show "sorted (sys_heap sys_init)" by (simp add: sys_init_def)
next
  fix s s' assume sorted: "sorted (sys_heap s)" and step: "sys_step X s s'"
  have start: "scheduler_reload X clk [] srv = (Inr h, srv') \<Longrightarrow> sorted h" for clk srv h srv'
    using scheduler_reload_sorted [of "[]"] by simp
  from step show "sorted (sys_heap s')"
    by cases (use sorted in \<open>auto split: sum.split intro: scheduler_wake_sorted start scheduler_reload_sorted\<close>)
qed

text \<open>
  No call sends to the scheduler's channel: the schedule services tell the engine of a change. So the
  scheduler never loads the schedules again.
\<close>

interpretation sys_unchanged: step_invariant sys_init "sys_step X" "\<lambda>s. sys_changes s = 0" for X
proof unfold_locales
  show "sys_changes sys_init = 0" by (simp add: sys_init_def)
next
  fix s s' assume "sys_changes s = 0" "sys_step X s s'"
  then show "sys_changes s' = 0" by (auto elim: sys_step.cases)
qed

text \<open>One step of the process: entries leave the heap and none joins.\<close>

lemma heap_shrinks:
  assumes "sys_step X s s'" "s' \<noteq> restarted s" "sys_scheduler s \<noteq> NotStarted" "sys_changes s = 0"
    and "sorted (sys_heap s)" "\<not> sql_accepts X next_fire_sql"
  shows "mset (sys_heap s') \<subseteq># mset (sys_heap s) \<and> sys_scheduler s' \<noteq> NotStarted"
  using assms(1)
proof (cases rule: sys_step.cases)
  case (wake env clk res srv)
  then show ?thesis
    using wake_never_rearms [OF assms(5,6), of env clk "sys_server s"]
    by (cases res) (auto simp: after_task_def multiset_filter_subset)
qed (use assms(2-4) in \<open>simp_all\<close>)

subsection \<open>No heartbeat timeout\<close>

text \<open>
  The engine reads the reference time of a heartbeat with \<open>DateTime::parse_from_str\<close> and a format
  that has no offset. chrono refuses such a format for every text, so no heartbeat timer is set
  and no \<open>HeartbeatTimeout\<close> event is sent.
\<close>

fun heartbeat_event :: "EngineEvent \<Rightarrow> bool" where
  "heartbeat_event (HeartbeatTimeout a) = True"
| "heartbeat_event _ = False"

definition quiet :: "server \<Rightarrow> bool" where
  "quiet s \<longleftrightarrow> \<not> list_ex heartbeat_event (srv_events s) \<and> \<not> list_ex heartbeat_event (map snd (srv_timers s))"

lemma quiet_with_db: "keeps quiet (with_db m)"
  by (simp add: keeps_def quiet_def with_db_def split: prod.split)

lemma quiet_notify:
  "keeps quiet (notify_engine (WorkflowCreated r))" "keeps quiet (notify_engine (StepCompleted r))"
  "keeps quiet (notify_engine ScheduleChange)"
  by (simp_all add: keeps_def quiet_def notify_engine_def)

lemma quiet_send: "keeps quiet (send_event (WorkflowCreated r))"
  by (simp add: keeps_def quiet_def send_event_def)

lemma quiet_retry_timer: "keeps quiet (schedule_retry_timer clk sid t)"
  by (simp add: keeps_def quiet_def schedule_retry_timer_def spawn_timer_def)

lemmas quiet_rules = inv_rules quiet_with_db quiet_notify quiet_send quiet_retry_timer

lemma quiet_schedule_timers:
  assumes "no_offset_refused X"
  shows "keeps quiet (schedule_timers_for_workflow X clk run_id)"
proof -
  have "keeps quiet (schedule_retry_timers_for_workflow X clk run_id)"
    unfolding schedule_retry_timers_for_workflow_def by (intro quiet_rules)
  moreover have "keeps quiet (schedule_heartbeat_timers_for_workflow X clk run_id)"
    using assms unfolding schedule_heartbeat_timers_for_workflow_def no_offset_refused_def
    by (simp only: option.case) (intro quiet_rules)
  ultimately show ?thesis
    unfolding schedule_timers_for_workflow_def by (intro quiet_rules)
qed

lemma quiet_handle_event:
  assumes "no_offset_refused X"
  shows "keeps quiet (handle_event X clk ev)"
proof -
  note timers = quiet_schedule_timers [OF assms]
  have "keeps quiet (handle_workflow_created X clk r)" "keeps quiet (handle_step_completed X clk r)"
    "keeps quiet (process_workflows X clk)" "keeps quiet (handle_retry_due X clk r)" for r
    unfolding handle_workflow_created_def handle_step_completed_def process_workflows_def handle_retry_due_def
    by (intro quiet_rules timers)+
  moreover have "keeps quiet (handle_heartbeat_timeout X clk r)" for r
    unfolding handle_heartbeat_timeout_def by (intro quiet_rules)
  ultimately show ?thesis
    unfolding handle_event_def by (intro keeps_logErr) (cases ev; simp)
qed

lemma quiet_rpc: "quiet s \<Longrightarrow> quiet (rpc_effect X clk nid ids r s)"
proof -
  assume s: "quiet s"
  have rules: "keeps quiet (create_schedule X clk a1)" "keeps quiet (update_schedule X clk a2)"
    "keeps quiet (delete_schedule_rpc b1 b2)" "keeps quiet (list_schedules_rpc X b1)"
    "keeps quiet (start_workflow X clk nid ids a3)" "keeps quiet (get_workflow_rpc X b1)"
    "keeps quiet (list_workflows_rpc X b1)" "keeps quiet (cancel_workflow_rpc clk b1)"
    "keeps quiet (poll_activity X clk nid a4)" "keeps quiet (report_activity_result X clk b1 b2)"
    "keeps quiet (report_activity_failure X clk b1 b2)" "keeps quiet (heartbeat clk b1)"
    "keeps quiet (register_namespace b1 b2)" "keeps quiet (describe_namespace b1)"
    "keeps quiet (start_workflow_execution X clk nid ids a5)" "keeps quiet (poll_activity_task_queue X clk nid a6)"
    "keeps quiet (respond_activity_task_completed X clk a7 a8)" "keeps quiet (respond_activity_task_failed X clk a7 a6)"
    "keeps quiet (temporal_create_schedule X clk a9)" "keeps quiet (describe_schedule X b1 b2)"
    "keeps quiet (temporal_delete_schedule b1 b2)" "keeps quiet (temporal_stub c)" "keeps quiet get_system_info"
    for c a1 a2 a3 a4 a5 a6 a7 a8 a9 b1 b2
    unfolding create_schedule_def update_schedule_def delete_schedule_rpc_def list_schedules_rpc_def
      start_workflow_def get_workflow_rpc_def list_workflows_rpc_def cancel_workflow_rpc_def
      poll_activity_def report_activity_result_def report_activity_failure_def heartbeat_def
      register_namespace_def describe_namespace_def start_workflow_execution_def poll_activity_task_queue_def
      respond_activity_task_completed_def respond_activity_task_failed_def temporal_create_schedule_def
      describe_schedule_def temporal_delete_schedule_def temporal_stub_def get_system_info_def
    by (intro quiet_rules)+
  then show ?thesis
    unfolding rpc_effect_def by (cases r) (simp_all add: rules [THEN keepsD] s)
qed

lemma quiet_process_schedule: "keeps quiet (process_schedule X clk run_id ids sid)"
  unfolding process_schedule_def start_schedule_workflow_def by (intro quiet_rules)

lemma quiet_fire_due: "keeps quiet (fire_due X env now n heap)"
proof (rule keepsI)
  fix s assume "quiet s"
  then show "quiet (snd (fire_due X env now n heap s))"
    by (rule fire_due_keeps [OF keeps_logErr [OF quiet_process_schedule]])
qed

lemma quiet_scheduler: "keeps quiet (scheduler_wake X env clk heap)" "keeps quiet (scheduler_reload X clk heap)"
proof -
  show "keeps quiet (scheduler_wake X env clk heap)"
    unfolding scheduler_wake_def by (intro quiet_rules quiet_fire_due)
  have "keeps quiet (with_db (reload_all_schedules X clk))" by (rule quiet_with_db)
  then show "keeps quiet (scheduler_reload X clk heap)"
    unfolding keeps_def scheduler_reload_def by (fastforce split: prod.splits sum.splits)
qed

lemma quiet_sys_step:
  assumes "no_offset_refused X" "sys_step X s s'" "quiet (sys_server s)"
  shows "quiet (sys_server s')"
  using assms(2)
proof (cases rule: sys_step.cases)
  case (call clk new_id step_ids r)
  with assms(3) show ?thesis by (simp add: quiet_rpc)
next
  case (temporal_update req run clk)
  have "keeps quiet (temporal_update_schedule run clk req)"
    unfolding temporal_update_schedule_def by (intro quiet_rules)
  with temporal_update assms(3) show ?thesis by (simp add: keepsD)
next
  case lagged
  with assms(3) show ?thesis by (auto simp: quiet_def list_ex_iff dest: in_set_dropD)
next
  case (event ev evs clk res srv)
  have "quiet (snd (handle_event X clk ev ((sys_server s)\<lparr>srv_events := evs\<rparr>)))"
    using assms(3) event by (intro keepsD [OF quiet_handle_event [OF assms(1)]]) (simp add: quiet_def)
  with event show ?thesis by simp
next
  case (timer before t ev after clk)
  with assms(3) show ?thesis by (auto simp: quiet_def list_ex_iff)
next
  case (start_scheduler clk res srv)
  with keepsD [OF quiet_scheduler(2) assms(3), of X clk "[]"] show ?thesis by simp
next
  case (wake env clk res srv)
  with keepsD [OF quiet_scheduler(1) assms(3), of X env clk "sys_heap s"] show ?thesis by simp
next
  case (changed n clk res srv)
  with keepsD [OF quiet_scheduler(2) assms(3), of X clk "sys_heap s"] show ?thesis by simp
next
  case restart
  then show ?thesis by (simp add: quiet_def)
qed

interpretation sys_quiet: step_invariant sys_init "sys_step X" "\<lambda>s. no_offset_refused X \<longrightarrow> quiet (sys_server s)" for X
proof unfold_locales
  show "no_offset_refused X \<longrightarrow> quiet (sys_server sys_init)"
    by (simp add: sys_init_def init_server_def quiet_def)
qed (blast intro: quiet_sys_step)

end
