(* ===== verification/Worker_Runtime.thy ===== *)
theory Worker_Runtime
  imports Worker "HOL-Library.Multiset"
begin

text \<open>
  The tasks of a running worker (\<open>worker/src/worker.rs\<close>, \<open>executor.rs\<close>, \<open>poller.rs\<close>) as a step
  relation: the poller puts tasks into a bounded channel, the main loop takes them out and hands them
  to the executor, which waits for a permit of its semaphore and spawns the execution; the execution runs the handler,
  then reports, then gives the permit back. What the server answers to a poll is open here, and whether a process that a
  handler starts ever ends is a parameter: the worker has no timeout for it. The semaphore is never closed, so that acquiring
  a permit does not fail. A signal ends the main loop, which looks at it only when it has no task to hand over; \<open>run\<close> and \<open>main\<close>
  return then, and with the runtime the poller, the channel and the executions are dropped. A report counts
  as made when its call has ended; the code logs an error of it and does not repeat it.
\<close>

section \<open>State and steps\<close>

record WorkerConfig =
  wc_server_url :: string
  wc_task_queue :: string
  wc_max_concurrent :: nat

definition worker_config_default :: WorkerConfig where
  "worker_config_default = \<lparr>wc_server_url = ''127.0.0.1:50053'', wc_task_queue = ''default'', wc_max_concurrent = 4\<rparr>"

text \<open>
  \<open>wr_held\<close> is the task the poller waits to send, \<open>wr_dispatch\<close> the task the main loop waits to
  hand over, \<open>wr_running\<close> are the tasks whose handlers run, \<open>wr_reporting\<close> the reports on their way. For the statements
  below, \<open>wr_received\<close> lists what the server has given and \<open>wr_dropped\<close> the activities that were dropped at the end.
\<close>

record worker_rt =
  wr_up :: bool
  wr_poller :: poller
  wr_held :: "ActivityTask option"
  wr_channel :: "ActivityTask list"
  wr_dispatch :: "ActivityTask option"
  wr_running :: "ActivityTask list"
  wr_reporting :: "report list"
  wr_reported :: "report list"
  wr_received :: "ActivityTask list"
  wr_dropped :: "uuid list"

definition channel_capacity :: nat where
  "channel_capacity = 32"

definition worker_start :: worker_rt where
  "worker_start = \<lparr>wr_up = True, wr_poller = poller_init, wr_held = None, wr_channel = [], wr_dispatch = None,
     wr_running = [], wr_reporting = [], wr_reported = [], wr_received = [], wr_dropped = []\<rparr>"

text \<open>Whether the handler of a task ever returns, given which processes end.\<close>

definition handler_ends :: "(string \<Rightarrow> string list \<Rightarrow> string \<Rightarrow> bool) \<Rightarrow> handler \<Rightarrow> bool" where
  "handler_ends halts h =
     (case h of
        ScriptHandler path dir \<Rightarrow> halts ''bash'' [''-c'', path] dir
      | PythonHandler path dir \<Rightarrow> halts ''python3'' [path] dir
      | DummyHandler \<Rightarrow> True)"

definition task_ends :: "(string \<Rightarrow> string list \<Rightarrow> string \<Rightarrow> bool) \<Rightarrow> ActivityRegistry \<Rightarrow> ActivityTask \<Rightarrow> bool" where
  "task_ends halts reg t = (case registry_get reg (at_name t) of None \<Rightarrow> True | Some h \<Rightarrow> handler_ends halts h)"

fun report_id :: "report \<Rightarrow> uuid" where
  "report_id (ReportResult aid _) = aid"
| "report_id (ReportFailure aid _) = aid"

lemma report_id_execute [simp]: "report_id (execute_task X run reg t) = at_activity_id t"
  by (simp add: execute_task_def split: option.split sum.split)

text \<open>The activities that are still on their way.\<close>

definition in_flight :: "worker_rt \<Rightarrow> uuid list" where
  "in_flight w = map at_activity_id
     (case_option [] (\<lambda>t. [t]) (wr_held w) @ wr_channel w @ case_option [] (\<lambda>t. [t]) (wr_dispatch w) @ wr_running w) @
     map report_id (wr_reporting w)"

text \<open>The steps that work on what was received; each is one \<open>await\<close> that ends.\<close>

inductive work_step ::
  "ext \<Rightarrow> run_process \<Rightarrow> (string \<Rightarrow> string list \<Rightarrow> string \<Rightarrow> bool) \<Rightarrow> ActivityRegistry \<Rightarrow> nat \<Rightarrow> worker_rt \<Rightarrow> worker_rt \<Rightarrow> bool"
  for X run halts reg max_concurrent where
  send: "\<lbrakk>wr_up w; wr_held w = Some t; length (wr_channel w) < channel_capacity\<rbrakk> \<Longrightarrow>
    work_step X run halts reg max_concurrent w (w\<lparr>wr_held := None, wr_channel := wr_channel w @ [t]\<rparr>)"
| recv: "\<lbrakk>wr_up w; wr_channel w = t # ts; wr_dispatch w = None\<rbrakk> \<Longrightarrow>
    work_step X run halts reg max_concurrent w (w\<lparr>wr_channel := ts, wr_dispatch := Some t\<rparr>)"
| acquire: "\<lbrakk>wr_up w; wr_dispatch w = Some t; length (wr_running w) + length (wr_reporting w) < max_concurrent\<rbrakk> \<Longrightarrow>
    work_step X run halts reg max_concurrent w (w\<lparr>wr_dispatch := None, wr_running := wr_running w @ [t]\<rparr>)"
| handled: "\<lbrakk>wr_up w; wr_running w = before @ t # after; task_ends halts reg t\<rbrakk> \<Longrightarrow>
    work_step X run halts reg max_concurrent w
      (w\<lparr>wr_running := before @ after, wr_reporting := wr_reporting w @ [execute_task X run reg t]\<rparr>)"
| report: "\<lbrakk>wr_up w; wr_reporting w = before @ r # after\<rbrakk> \<Longrightarrow>
    work_step X run halts reg max_concurrent w
      (w\<lparr>wr_reporting := before @ after, wr_reported := wr_reported w @ [r]\<rparr>)"

inductive worker_step ::
  "ext \<Rightarrow> run_process \<Rightarrow> (string \<Rightarrow> string list \<Rightarrow> string \<Rightarrow> bool) \<Rightarrow> ActivityRegistry \<Rightarrow> nat \<Rightarrow> worker_rt \<Rightarrow> worker_rt \<Rightarrow> bool"
  for X run halts reg max_concurrent where
  poll: "\<lbrakk>wr_up w; wr_held w = None; poller_step res (wr_poller w) = (p, t, slept)\<rbrakk> \<Longrightarrow>
    worker_step X run halts reg max_concurrent w
      (w\<lparr>wr_poller := p, wr_held := t, wr_received := wr_received w @ (case t of None \<Rightarrow> [] | Some x \<Rightarrow> [x])\<rparr>)"
| work: "work_step X run halts reg max_concurrent w w' \<Longrightarrow> worker_step X run halts reg max_concurrent w w'"
| shutdown: "\<lbrakk>wr_up w; wr_dispatch w = None\<rbrakk> \<Longrightarrow>
    worker_step X run halts reg max_concurrent w
      (w\<lparr>wr_up := False, wr_held := None, wr_channel := [], wr_running := [], wr_reporting := [], wr_dropped := in_flight w\<rparr>)"

inductive_simps work_step_simps: "work_step X run halts reg m w w'"

section \<open>Accounts\<close>

definition worker_inv :: "nat \<Rightarrow> worker_rt \<Rightarrow> bool" where
  "worker_inv m w \<longleftrightarrow>
     length (wr_running w) + length (wr_reporting w) \<le> m \<and> length (wr_channel w) \<le> channel_capacity \<and>
     (if wr_up w then wr_dropped w = [] else in_flight w = []) \<and>
     mset (map report_id (wr_reported w)) + mset (in_flight w) + mset (wr_dropped w) =
     mset (map at_activity_id (wr_received w))"

lemma work_step_inv: "work_step X run halts reg m w w' \<Longrightarrow> worker_inv m w \<Longrightarrow> worker_inv m w'"
  by (induction rule: work_step.induct) (auto simp: worker_inv_def in_flight_def)

lemma worker_step_inv: "worker_step X run halts reg m w w' \<Longrightarrow> worker_inv m w \<Longrightarrow> worker_inv m w'"
proof (induction rule: worker_step.induct)
  case (poll w res p t slept)
  then show ?case by (cases t) (auto simp: worker_inv_def in_flight_def)
next
  case (work w w')
  then show ?case by (blast intro: work_step_inv)
next
  case (shutdown w)
  then show ?case by (auto simp: worker_inv_def in_flight_def)
qed

lemma worker_start_inv: "worker_inv m worker_start"
  by (simp add: worker_inv_def worker_start_def in_flight_def)

interpretation accounts: step_invariant worker_start "worker_step X run halts reg m" "worker_inv m" for X run halts reg m
  by unfold_locales (blast intro: worker_start_inv worker_step_inv)+

text \<open>
  C28: at every moment of a worker's life, at most \<open>max_concurrent\<close> activities run or are being reported, at most 32 tasks wait
  in the channel, and the tasks received are exactly those that have been reported, those that are on their way and
  those that were dropped, each counted once: no task is reported twice. As long as the worker runs, none is dropped; once it has
  stopped, nothing is on its way any more, so every task received and not yet reported at the signal has been dropped.
\<close>

theorem worker_accounts:
  assumes "(worker_step X run halts reg m)\<^sup>*\<^sup>* worker_start w"
  shows "length (wr_running w) + length (wr_reporting w) \<le> m \<and> length (wr_channel w) \<le> 32 \<and>
    mset (map at_activity_id (wr_received w)) =
      mset (map report_id (wr_reported w)) + mset (in_flight w) + mset (wr_dropped w) \<and>
    (if wr_up w then wr_dropped w = [] else in_flight w = [])"
  using accounts.at_reachable [OF assms] by (simp add: worker_inv_def channel_capacity_def)

definition sample_task :: ActivityTask where
  "sample_task = \<lparr>at_activity_id = ''a'', at_step_id = ''s'', at_workflow_run_id = ''r'', at_name = ''dummy-activity'',
     at_args = [], at_retry_policy = retry_policy_default, at_heartbeat_timeout_secs = 30, at_start_to_close_timeout_secs = 300\<rparr>"

definition sample_worker :: worker_rt where
  "sample_worker = worker_start\<lparr>wr_poller := poller_init\<lparr>pl_state := Connected, pl_reconnect_attempt := 0\<rparr>,
     wr_held := Some sample_task, wr_received := [sample_task]\<rparr>"

lemma sample_worker_reached: "(worker_step X run halts reg m)\<^sup>*\<^sup>* worker_start sample_worker"
proof -
  have "worker_step X run halts reg m worker_start sample_worker"
    using worker_step.poll [of worker_start "Inr (Some sample_task)"]
    by (simp add: worker_start_def poller_step_def sample_worker_def)
  then show ?thesis by (rule r_into_rtranclp)
qed

text \<open>A worker that is stopped when it has received a task.\<close>

theorem worker_accounts_witness:
  "\<exists>w. (worker_step ref_ext (\<lambda>_ _ _. Inl []) (\<lambda>_ _ _. True) registry_new 4)\<^sup>*\<^sup>* worker_start w \<and>
     wr_reported w = [] \<and> in_flight w = [] \<and> wr_dropped w = [''a'']"
proof -
  let ?step = "worker_step ref_ext (\<lambda>_ _ _. Inl []) (\<lambda>_ _ _. True) registry_new 4"
  let ?w = "sample_worker\<lparr>wr_up := False, wr_held := None, wr_channel := [], wr_running := [], wr_reporting := [], wr_dropped := in_flight sample_worker\<rparr>"
  have "?step sample_worker ?w"
    by (rule worker_step.shutdown) (simp_all add: sample_worker_def worker_start_def)
  with sample_worker_reached have reached: "?step\<^sup>*\<^sup>* worker_start ?w" by (rule rtranclp.rtrancl_into_rtrancl)
  then have "in_flight ?w = []" using worker_accounts [OF reached] by simp
  moreover have "wr_reported ?w = []" "wr_dropped ?w = [''a'']"
    by (simp_all add: sample_worker_def worker_start_def in_flight_def sample_task_def)
  ultimately show ?thesis using reached by (intro exI [of _ ?w]) simp
qed

section \<open>Draining\<close>

text \<open>How many steps the tasks on their way still take at most.\<close>

definition load :: "worker_rt \<Rightarrow> nat" where
  "load w = (if wr_held w = None then 0 else 5) + 4 * length (wr_channel w) + (if wr_dispatch w = None then 0 else 3) +
     2 * length (wr_running w) + length (wr_reporting w)"

lemma work_step_load: "work_step X run halts reg m w w' \<Longrightarrow> load w' < load w"
  by (induction rule: work_step.induct) (simp_all add: load_def)

text \<open>The tasks whose handlers have not been run to their end.\<close>

definition unhandled :: "worker_rt \<Rightarrow> ActivityTask set" where
  "unhandled w = set_option (wr_held w) \<union> set (wr_channel w) \<union> set_option (wr_dispatch w) \<union> set (wr_running w)"

lemma work_step_keeps:
  "work_step X run halts reg m w w' \<Longrightarrow> wr_up w' = wr_up w \<and> wr_received w' = wr_received w \<and> unhandled w' \<subseteq> unhandled w"
  by (induction rule: work_step.induct) (auto simp: unhandled_def)

lemma work_step_enabled:
  assumes up: "wr_up w" and "in_flight w \<noteq> []" "0 < m" and ends: "\<forall>t \<in> unhandled w. task_ends halts reg t"
  shows "\<exists>w'. work_step X run halts reg m w w'"
proof -
  consider r rs where "wr_reporting w = r # rs" | t ts where "wr_running w = t # ts"
    | t where "wr_running w = []" "wr_reporting w = []" "wr_dispatch w = Some t"
    | t ts where "wr_dispatch w = None" "wr_channel w = t # ts"
    | t where "wr_channel w = []" "wr_held w = Some t"
    using assms(2) by (cases "wr_reporting w"; cases "wr_running w"; cases "wr_dispatch w"; cases "wr_channel w"; cases "wr_held w")
      (auto simp: in_flight_def)
  then show ?thesis
  proof cases
    case 1
    then show ?thesis using work_step.report [OF up, of "[]"] by fastforce
  next
    case 2
    then show ?thesis using work_step.handled [OF up, of "[]"] ends by (fastforce simp: unhandled_def)
  next
    case 3
    then show ?thesis using work_step.acquire [OF up, of _ m] assms(3) by fastforce
  next
    case 4
    then show ?thesis using work_step.recv [OF up] by blast
  next
    case 5
    then show ?thesis using work_step.send [OF up] by (fastforce simp: channel_capacity_def)
  qed
qed

text \<open>
  C29: a worker that is not stopped, has at least one permit and runs handlers that end drains: once no more tasks arrive, the
  tasks on their way need finitely many steps whatever the order of the steps is, a state with nothing on its way is
  always reached, and where no step is left every task received has been reported exactly once.
\<close>

theorem worker_drains:
  assumes "(worker_step X run halts reg m)\<^sup>*\<^sup>* worker_start w" "wr_up w" "0 < m" "\<forall>t \<in> unhandled w. task_ends halts reg t"
  shows "wfP (\<lambda>v' v. work_step X run halts reg m v v') \<and>
    (\<exists>v. (work_step X run halts reg m)\<^sup>*\<^sup>* w v \<and> in_flight v = []) \<and>
    (\<forall>v. (work_step X run halts reg m)\<^sup>*\<^sup>* w v \<and> (\<nexists>v'. work_step X run halts reg m v v') \<longrightarrow>
       mset (map report_id (wr_reported v)) = mset (map at_activity_id (wr_received w)))"
proof -
  let ?step = "work_step X run halts reg m"
  have wf: "wfP (\<lambda>v' v. ?step v v')"
    by (rule wfp_if_convertible_to_nat [where f = load]) (rule work_step_load)
  have inv: "worker_inv m v \<and> wr_up v \<and> wr_received v = wr_received w \<and> unhandled v \<subseteq> unhandled w" if "?step\<^sup>*\<^sup>* w v" for v
    using that
  proof (induction rule: rtranclp_induct)
    case (step u v)
    then show ?case using work_step_inv [OF step(2)] work_step_keeps [OF step(2)] by auto
  qed (simp add: accounts.at_reachable [OF assms(1)] assms(2))
  have stuck: "in_flight v = []" if "?step\<^sup>*\<^sup>* w v" "\<nexists>v'. ?step v v'" for v
    using work_step_enabled [of v m halts reg X run] inv [OF that(1)] assms(3,4) that(2) by blast
  obtain v where "?step\<^sup>*\<^sup>* w v" "\<nexists>v'. ?step v v'"
    using ex_terminal [of ?step load w] work_step_load by blast
  moreover have "mset (map report_id (wr_reported v)) = mset (map at_activity_id (wr_received w))"
    if v: "?step\<^sup>*\<^sup>* w v" "\<nexists>v'. ?step v v'" for v
    using stuck [OF v] inv [OF v(1)] by (auto simp: worker_inv_def)
  ultimately show ?thesis using wf stuck by blast
qed

theorem worker_drains_witness:
  "\<exists>v. (work_step ref_ext (\<lambda>_ _ _. Inl []) (\<lambda>_ _ _. False) (register_default_handlers [] registry_new) 4)\<^sup>*\<^sup>* sample_worker v \<and>
     in_flight v = []"
proof -
  have "\<forall>t \<in> unhandled sample_worker. task_ends (\<lambda>_ _ _. False) (register_default_handlers [] registry_new) t"
    by (simp add: unhandled_def sample_worker_def worker_start_def sample_task_def task_ends_def registry_get_def
        register_default_handlers_def registry_register_def registry_new_def handler_ends_def)
  then show ?thesis
    using worker_drains [OF sample_worker_reached, of 4 "\<lambda>_ _ _. False" "register_default_handlers [] registry_new" ref_ext "\<lambda>_ _ _. Inl []"]
    by (simp add: sample_worker_def worker_start_def)
qed

section \<open>Handlers that do not end\<close>

text \<open>All permits are held by handlers that never return, and the main loop waits for one.\<close>

definition wedged ::
  "(string \<Rightarrow> string list \<Rightarrow> string \<Rightarrow> bool) \<Rightarrow> ActivityRegistry \<Rightarrow> nat \<Rightarrow> worker_rt \<Rightarrow> bool" where
  "wedged halts reg m w \<longleftrightarrow> wr_up w \<and> wr_dispatch w \<noteq> None \<and> length (wr_running w) = m \<and> wr_reporting w = [] \<and>
     (\<forall>t \<in> set (wr_running w). \<not> task_ends halts reg t)"

lemma wedged_step:
  "worker_step X run halts reg m w w' \<Longrightarrow> wedged halts reg m w \<Longrightarrow>
     wedged halts reg m w' \<and> wr_running w' = wr_running w \<and> wr_reported w' = wr_reported w"
  by (induction rule: worker_step.induct) (auto simp: wedged_def work_step_simps)

text \<open>
  C30: handlers that hang stop the whole worker. There is no timeout for a handler, so if all permits are held by activities
  whose processes never end, and the main loop waits to hand over the next task, the worker stays as it is for ever: it
  reports nothing more, starts nothing more, and does not stop, as the main loop looks at no signal while it waits.
  With \<open>max_concurrent = 0\<close> the first task does this.
\<close>

theorem hung_handlers_wedge_worker:
  assumes "wr_up w" "wr_dispatch w = Some t" "length (wr_running w) = m" "wr_reporting w = []"
    and "\<forall>t \<in> set (wr_running w). \<not> task_ends halts reg t"
    and "(worker_step X run halts reg m)\<^sup>*\<^sup>* w w'"
  shows "wr_up w' \<and> wr_running w' = wr_running w \<and> wr_reported w' = wr_reported w"
proof -
  have "wedged halts reg m w" using assms(1-5) by (simp add: wedged_def)
  with assms(6) have "wedged halts reg m w' \<and> wr_running w' = wr_running w \<and> wr_reported w' = wr_reported w"
    by (induction rule: rtranclp_induct) (auto dest: wedged_step)
  then show ?thesis by (simp add: wedged_def)
qed

text \<open>A worker with one permit that has received a script that hangs and then another task.\<close>

definition sample_registry :: ActivityRegistry where
  "sample_registry = registry_register ''hang'' (ScriptHandler ''sleep infinity'' []) registry_new"

definition sample_wedged :: worker_rt where
  "sample_wedged = worker_start\<lparr>wr_poller := poller_init\<lparr>pl_state := Connected\<rparr>, wr_dispatch := Some sample_task,
     wr_running := [sample_task\<lparr>at_name := ''hang''\<rparr>], wr_received := [sample_task\<lparr>at_name := ''hang''\<rparr>, sample_task]\<rparr>"

theorem hung_handlers_wedge_worker_witness:
  "\<exists>w'. worker_step ref_ext (\<lambda>_ _ _. Inl []) (\<lambda>_ _ _. False) sample_registry 1 sample_wedged w' \<and>
     wr_received w' \<noteq> wr_received sample_wedged \<and> wr_up w' \<and> wr_reported w' = []"
proof -
  let ?step = "worker_step ref_ext (\<lambda>_ _ _. Inl []) (\<lambda>_ _ _. False) sample_registry 1"
  let ?w = "sample_wedged\<lparr>wr_held := Some sample_task, wr_received := wr_received sample_wedged @ [sample_task]\<rparr>"
  have step: "?step sample_wedged ?w"
    using worker_step.poll [of sample_wedged "Inr (Some sample_task)"]
    by (simp add: sample_wedged_def worker_start_def poller_step_def poller_init_def)
  have "wr_up ?w \<and> wr_running ?w = wr_running sample_wedged \<and> wr_reported ?w = wr_reported sample_wedged"
    by (rule hung_handlers_wedge_worker [OF _ _ _ _ _ r_into_rtranclp [of ?step, OF step]])
      (simp_all add: sample_wedged_def worker_start_def task_ends_def sample_registry_def registry_get_def registry_register_def
        registry_new_def handler_ends_def)
  with step show ?thesis by (intro exI [of _ ?w]) (simp add: sample_wedged_def worker_start_def)
qed

end
