(* ===== verification/Entry_Points.thy ===== *)
theory Entry_Points
  imports System Worker_Runtime
begin

text \<open>
  What the two \<open>main\<close> functions do before the tasks run: \<open>server/src/main.rs\<close> turns the command line into
  the path of the database and the address to listen on and starts the server, \<open>worker/src/main.rs\<close> turns it into
  the configuration of the worker. Parsing the command line is clap's work; the model starts with its
  result. \<open>worker/src/handlers.rs\<close>, an earlier version of the handlers that is in no module and so never
  compiled, is compared with the handlers in use.
\<close>

section \<open>The server\<close>

type_synonym u16 = "16 word"

record Cli =
  cli_port :: u16
  cli_data_dir :: string
  cli_log_level :: string

definition cli_default :: Cli where
  "cli_default = \<lparr>cli_port = 7233, cli_data_dir = ''./data'', cli_log_level = ''info''\<rparr>"

definition db_path :: "Cli \<Rightarrow> string" where
  "db_path cli = cli_data_dir cli @ ''/khronos.db''"

definition server_addr :: "Cli \<Rightarrow> string" where
  "server_addr cli = ''0.0.0.0:'' @ show_int (uint (cli_port cli))"

text \<open>
  The state in which the server starts to serve, given the database files of the machine: \<open>Database::new\<close>
  opens or creates the file and migrates it, then \<open>run_server\<close> starts on it.
\<close>

definition server_main :: "(string \<Rightarrow> db_file option) \<Rightarrow> Cli \<Rightarrow> system" where
  "server_main files cli = run_server (database_new (files (db_path cli)))"

text \<open>What a start can find at the place of the database: nothing, a file whose first migration was cut off, or the file of a run.\<close>

inductive found_file :: "ext \<Rightarrow> db_file option \<Rightarrow> db \<Rightarrow> bool" for X where
  new: "found_file X None migrate"
| cut_off: "found_file X (Some (fold (\<lambda>statement. statement) (take k schema_batch) no_tables)) migrate"
| run: "reachable X s \<Longrightarrow> found_file X (Some (file_of (srv_db (sys_server s)))) (srv_db (sys_server s))"

text \<open>
  C21: the server can be started again and again on the file \<open>khronos.db\<close> of its data directory. Whether there is none, whether the
  very first start was cut off after any of the statements that create the tables, or whether the file is the one of an earlier
  run, stopped in whatever state it had reached: the start completes the tables, loses no row, and is in a state that the step
  relation reaches, with no event and no timer.
\<close>

theorem server_main_reachable:
  assumes "found_file X (files (cli_data_dir cli @ ''/khronos.db'')) d"
  shows "reachable X (server_main files cli) \<and> srv_db (sys_server (server_main files cli)) = d \<and>
    srv_events (sys_server (server_main files cli)) = [] \<and> srv_timers (sys_server (server_main files cli)) = []"
proof -
  have start: "srv_db (sys_server (run_server d)) = d" "srv_events (sys_server (run_server d)) = []" "srv_timers (sys_server (run_server d)) = []"
    by (simp_all add: run_server_def)
  have first: "run_server migrate = sys_init" by (simp add: run_server_def sys_init_def init_server_def)
  from assms have "database_new (files (db_path cli)) = d \<and> reachable X (run_server d)"
  proof cases
    case new
    then show ?thesis by (simp add: db_path_def first reachable_init flip: migrate_new)
  next
    case (cut_off k)
    then show ?thesis by (simp add: db_path_def database_new_def [of "Some _"] migrate_resumes first reachable_init) (simp add: migrate_new database_new_def)
  next
    case (run s)
    have "reachable X (restarted s)" by (rule reachable_step [OF run(3) sys_step.restart])
    with run show ?thesis by (simp add: db_path_def restarted_def)
  qed
  with start show ?thesis by (simp add: server_main_def)
qed

text \<open>A first start that was cut off after two of the five tables.\<close>

theorem server_main_reachable_witness:
  "reachable ref_ext (server_main (\<lambda>path. if path = ''./data/khronos.db'' then Some (no_tables\<lparr>f_namespaces := Some [], f_schedules := Some []\<rparr>)
     else None) cli_default)"
proof -
  let ?file = "no_tables\<lparr>f_namespaces := Some [], f_schedules := Some []\<rparr>"
  have "fold (\<lambda>statement. statement) (take 2 schema_batch) no_tables = ?file"
    by (simp add: schema_batch_def create_if_not_exists_def no_tables_def numeral_eq_Suc)
  then have "found_file ref_ext (Some ?file) migrate" using found_file.cut_off [of ref_ext 2] by simp
  then show ?thesis
    using server_main_reachable [of ref_ext "\<lambda>path. if path = ''./data/khronos.db'' then Some ?file else None" cli_default]
    by (simp add: cli_default_def)
qed

section \<open>The worker\<close>

record Args =
  ar_server :: string
  ar_queue :: string
  ar_max_concurrent :: nat

definition args_default :: Args where
  "args_default = \<lparr>ar_server = ''127.0.0.1:50053'', ar_queue = ''default'', ar_max_concurrent = 4\<rparr>"

definition worker_config :: "Args \<Rightarrow> WorkerConfig" where
  "worker_config a = \<lparr>wc_server_url = ar_server a, wc_task_queue = ar_queue a, wc_max_concurrent = ar_max_concurrent a\<rparr>"

text \<open>The endpoint of \<open>GrpcClient::connect\<close>.\<close>

definition endpoint_url :: "WorkerConfig \<Rightarrow> string" where
  "endpoint_url c = ''http://'' @ wc_server_url c"

text \<open>The port of an address \<open>host:port\<close>.\<close>

definition addr_port :: "string \<Rightarrow> string" where
  "addr_port a = rev (takeWhile (\<lambda>c. c \<noteq> CHR '':'') (rev a))"

text \<open>The command line's defaults are those of \<open>WorkerConfig::default\<close>.\<close>

lemma worker_config_args_default: "worker_config args_default = worker_config_default"
  by (simp add: worker_config_def args_default_def worker_config_default_def)

lemma show_int_7233: "show_int 7233 = ''7233''"
  by (simp add: show_int_def show_nat_rev.simps [of 7233] show_nat_rev.simps [of 723] show_nat_rev.simps [of 72]
      show_nat_rev.simps [of 7]) code_simp

text \<open>Started with their defaults, the worker does not connect to the port the server listens on.\<close>

lemma default_ports_differ:
  "server_addr cli_default = ''0.0.0.0:7233'' \<and> endpoint_url (worker_config args_default) = ''http://127.0.0.1:50053'' \<and>
   addr_port (endpoint_url (worker_config args_default)) \<noteq> addr_port (server_addr cli_default)"
  by (simp add: server_addr_def cli_default_def show_int_7233 endpoint_url_def worker_config_def args_default_def addr_port_def)

section \<open>The handlers that are not compiled\<close>

datatype old_handler = OldScript string string | OldPython string string

definition old_result :: "ext \<Rightarrow> string \<Rightarrow> string + process_output \<Rightarrow> string + string" where
  "old_result X what r =
     (case r of
        Inl e \<Rightarrow> Inl e
      | Inr out \<Rightarrow>
          (let out_text = utf8_lossy X (po_stdout out); err_text = utf8_lossy X (po_stderr out) in
           if \<not> po_success out then Inl (what @ '' failed with exit code '' @ debug_code (po_code out) @ '': '' @ err_text)
           else Inr (if out_text = [] then err_text else out_text)))"

definition old_script_execute :: "ext \<Rightarrow> run_process \<Rightarrow> string \<Rightarrow> string \<Rightarrow> string + string" where
  "old_script_execute X run path dir = old_result X ''Script'' (run ''bash'' [''-c'', path] dir)"

definition old_python_execute :: "ext \<Rightarrow> run_process \<Rightarrow> string \<Rightarrow> string \<Rightarrow> string + string" where
  "old_python_execute X run path dir = old_result X ''Python script'' (run ''python3'' [path] dir)"

definition old_execute :: "ext \<Rightarrow> run_process \<Rightarrow> old_handler \<Rightarrow> string + string" where
  "old_execute X run h =
     (case h of OldScript path dir \<Rightarrow> old_script_execute X run path dir | OldPython path dir \<Rightarrow> old_python_execute X run path dir)"

definition old_default_handlers :: "string \<Rightarrow> (string \<times> old_handler) list \<Rightarrow> (string \<times> old_handler) list" where
  "old_default_handlers wd registry =
     fold (\<lambda>(name, h). AList.update name h)
       [(''lycus-memory-condenser'', OldPython ''/home/waymore/scripts/memory_condenser.py'' wd),
        (''lycus-cron-notifier'', OldScript ''/home/waymore/scripts/cron_notifier.sh'' wd),
        (''lycus-searxng-healthcheck'', OldScript ''/home/waymore/scripts/searxng_health_check.sh'' wd),
        (''lycus-searxng-error-reactive'', OldScript ''/home/waymore/scripts/searxng_error_check.sh'' wd),
        (''lycus-arxiv-factory'', OldScript ''/home/waymore/scripts/arxiv_factory.sh'' wd),
        (''lycus-mathnexus-extract'',
           OldPython ''/home/waymore/Documents/AI_researched_math/mathNEXUS/extract_mindmap.py'' wd),
        (''lycus-mathlab-agent'',
           OldPython ''/home/waymore/Documents/AI_researched_math/mathLaboratory/laboratory_agent.py'' wd)] registry"

fun same_script :: "old_handler \<Rightarrow> handler \<Rightarrow> bool" where
  "same_script (OldScript p d) h = (h = ScriptHandler p d)"
| "same_script (OldPython p d) h = (h = PythonHandler p d)"

lemma same_script_result:
  "same_script h h' \<Longrightarrow> old_execute X run h = Inr txt \<longleftrightarrow> handler_execute X run h' task = Inr txt"
  by (cases h) (auto simp: old_execute_def old_script_execute_def old_python_execute_def handler_execute_def old_result_def
      process_result_def Let_def split: sum.split)

lemma old_handlers_same:
  assumes "map_of (old_default_handlers ''/home/waymore'' []) name = Some h"
  shows "\<exists>h'. registry_get (register_default_handlers ''/home/waymore'' registry_new) name = Some h' \<and> same_script h h'"
  using assms
  by (simp add: old_default_handlers_def register_default_handlers_def registry_get_def registry_new_def registry_register_def
      split: if_splits) auto

text \<open>
  The handlers in use do what the earlier ones did: with the home directory that was written into these,
  every activity that had a handler has one, and a run of it succeeds with the same text exactly when it did before.
\<close>

lemma handlers_agree_with_earlier:
  assumes "map_of (old_default_handlers ''/home/waymore'' []) (at_name task) = Some h"
  shows "\<exists>h'. registry_get (register_default_handlers ''/home/waymore'' registry_new) (at_name task) = Some h' \<and>
    (\<forall>run txt. old_execute X run h = Inr txt \<longleftrightarrow> handler_execute X run h' task = Inr txt)"
  using old_handlers_same [OF assms] same_script_result [of h _ X] by blast

end
