(* ===== verification/Programs.thy ===== *)
theory Programs
  imports Prelude
begin

text \<open>
  A handler at the grain of its statements. The computations of \<open>Prelude\<close> run a handler as one piece;
  here it is a program of single statements, between which other tasks can run, and each of which
  the database can refuse because it is locked. The rules for interference are in the style
  of rely and guarantee: \<open>rg R G Q p s\<close> says that the program \<open>p\<close>, started in \<open>s\<close> among tasks whose
  steps are in \<open>R\<close>, does only steps in \<open>G\<close> and ends in \<open>Q\<close>.
\<close>

section \<open>Programs\<close>

text \<open>
  \<open>Stmt u k g\<close> executes a statement with the effect \<open>u\<close> and goes on with \<open>k\<close> of the state it
  saw, or with \<open>g\<close> if the database refuses it. \<open>Local u k\<close> is a step in memory, which does not fail.
\<close>

datatype ('s, 'a) prog =
    Return 'a
  | Stmt "'s \<Rightarrow> 's" "'s \<Rightarrow> ('s, 'a) prog" "('s, 'a) prog"
  | Local "'s \<Rightarrow> 's" "'s \<Rightarrow> ('s, 'a) prog"

primrec mapP :: "('a \<Rightarrow> 'b) \<Rightarrow> ('s, 'a) prog \<Rightarrow> ('s, 'b) prog" where
  "mapP h (Return a) = Return (h a)"
| "mapP h (Stmt u k g) = Stmt u (\<lambda>s. mapP h (k s)) (mapP h g)"
| "mapP h (Local u k) = Local u (\<lambda>s. mapP h (k s))"

text \<open>\<open>p?\<close> followed by the rest, \<open>p.map_err(h)\<close>, \<open>p.ok()\<close> and a loop, as for computations.\<close>

primrec bindP :: "('s, 'e + 'a) prog \<Rightarrow> ('a \<Rightarrow> ('s, 'e + 'b) prog) \<Rightarrow> ('s, 'e + 'b) prog" where
  "bindP (Return r) f = (case r of Inl e \<Rightarrow> Return (Inl e) | Inr a \<Rightarrow> f a)"
| "bindP (Stmt u k g) f = Stmt u (\<lambda>s. bindP (k s) f) (bindP g f)"
| "bindP (Local u k) f = Local u (\<lambda>s. bindP (k s) f)"

definition mapErrP :: "('e \<Rightarrow> 'f) \<Rightarrow> ('s, 'e + 'a) prog \<Rightarrow> ('s, 'f + 'a) prog" where
  "mapErrP h = mapP (map_sum h id)"

definition ignoreErrP :: "('s, 'e + 'a) prog \<Rightarrow> ('s, 'f + unit) prog" where
  "ignoreErrP = mapP (\<lambda>_. Inr ())"

fun forP :: "('a \<Rightarrow> ('s, 'e + unit) prog) \<Rightarrow> 'a list \<Rightarrow> ('s, 'e + unit) prog" where
  "forP f [] = Return (Inr ())"
| "forP f (x # xs) = bindP (f x) (\<lambda>_. forP f xs)"

text \<open>One statement, with the result it gives when the database refuses it, and one step in memory.\<close>

definition stmtP :: "'e + 'a \<Rightarrow> ('s, 'e, 'a) exec \<Rightarrow> ('s, 'e + 'a) prog" where
  "stmtP busy m = Stmt (\<lambda>s. snd (m s)) (\<lambda>s. Return (fst (m s))) (Return busy)"

definition localP :: "('s, 'e, 'a) exec \<Rightarrow> ('s, 'e + 'a) prog" where
  "localP m = Local (\<lambda>s. snd (m s)) (\<lambda>s. Return (fst (m s)))"

subsection \<open>A program that runs alone\<close>

primrec run :: "('s, 'a) prog \<Rightarrow> 's \<Rightarrow> 'a \<times> 's" where
  "run (Return a) s = (a, s)"
| "run (Stmt u k g) s = run (k s) (u s)"
| "run (Local u k) s = run (k s) (u s)"

lemma run_mapP: "run (mapP h p) s = (case run p s of (a, t) \<Rightarrow> (h a, t))"
  by (induction p arbitrary: s) simp_all

lemma run_bindP [simp]: "run (bindP p f) = andThen (run p) (\<lambda>a. run (f a))"
proof
  fix s show "run (bindP p f) s = andThen (run p) (\<lambda>a. run (f a)) s"
    by (induction p arbitrary: s) (simp_all add: andThen_def split: sum.split)
qed

lemma run_mapErrP [simp]: "run (mapErrP h p) = mapErr h (run p)"
  by (rule ext) (auto simp: mapErrP_def run_mapP mapErr_def split: prod.split sum.split)

lemma run_ignoreErrP [simp]: "run (ignoreErrP p) = ignoreErr (run p)"
  by (rule ext) (simp add: ignoreErrP_def run_mapP ignoreErr_def split: prod.split)

lemma run_stmtP [simp]: "run (stmtP busy m) = m"
  by (rule ext) (simp add: stmtP_def)

lemma run_localP [simp]: "run (localP m) = m"
  by (rule ext) (simp add: localP_def)

lemma run_Return: "run (Return (Inr a)) = okE a" "run (Return (Inl e)) = errE e"
  by (rule ext, simp add: okE_def errE_def)+

lemma run_forP [simp]: "run (forP f xs) = forE (\<lambda>x. run (f x)) xs"
proof
  fix s show "run (forP f xs) s = forE (\<lambda>x. run (f x)) xs s"
    by (induction xs arbitrary: s) (auto simp: andThen_def split: prod.split sum.split)
qed

section \<open>Steps among other tasks\<close>

inductive own_step :: "('s, 'a) prog \<times> 's \<Rightarrow> ('s, 'a) prog \<times> 's \<Rightarrow> bool" where
  stmt: "own_step (Stmt u k g, s) (k s, u s)"
| refused: "own_step (Stmt u k g, s) (g, s)"
| local: "own_step (Local u k, s) (k s, u s)"

inductive_simps own_step_simps [simp]:
  "own_step (Return a, s) c" "own_step (Stmt u k g, s) c" "own_step (Local u k, s) c"

inductive among :: "('s \<Rightarrow> 's \<Rightarrow> bool) \<Rightarrow> ('s, 'a) prog \<times> 's \<Rightarrow> ('s, 'a) prog \<times> 's \<Rightarrow> bool" for R where
  own: "own_step c c' \<Longrightarrow> among R c c'"
| other: "R s t \<Longrightarrow> among R (p, s) (p, t)"

lemma bindP_assoc: "bindP (bindP p f) g = bindP p (\<lambda>a. bindP (f a) g)"
  by (induction p) (simp_all split: sum.split)

lemma own_stmtP: "m s = (Inr a, t) \<Longrightarrow> own_step (bindP (stmtP busy m) f, s) (f a, t)"
  by (simp add: stmtP_def)

lemma own_refusedP: "own_step (bindP (stmtP (Inr a) m) f, s) (f a, s)"
  by (simp add: stmtP_def)

lemma own_mapErrP:
  "m s = (Inr a, t) \<Longrightarrow> own_step (bindP (mapErrP h (stmtP busy m)) f, s) (f a, t)"
  "own_step (bindP (mapErrP h (stmtP (Inl e) m)) f, s) (Return (Inl (h e)), s)"
  by (simp_all add: stmtP_def mapErrP_def)

lemma own_mapP: "own_step (p, s) (q, t) \<Longrightarrow> own_step (mapP h p, s) (mapP h q, t)"
  by (cases p) auto

lemma three_steps: "own_step a b \<Longrightarrow> own_step b c \<Longrightarrow> own_step c d \<Longrightarrow> own_step\<^sup>*\<^sup>* a d"
  by (blast intro: converse_rtranclp_into_rtranclp)

lemma own_run: "run p s = (a, t) \<Longrightarrow> own_step\<^sup>*\<^sup>* (p, s) (Return a, t)"
proof (induction p arbitrary: s)
  case (Stmt u k g)
  have "own_step\<^sup>*\<^sup>* (k s, u s) (Return a, t)" using Stmt by simp
  then show ?case by (blast intro: converse_rtranclp_into_rtranclp own_step.stmt)
next
  case (Local u k)
  have "own_step\<^sup>*\<^sup>* (k s, u s) (Return a, t)" using Local by simp
  then show ?case by (blast intro: converse_rtranclp_into_rtranclp own_step.local)
qed simp

text \<open>A program has only finitely many steps of its own: whatever the others do, it ends if it is run.\<close>

inductive ends :: "('s, 'a) prog \<Rightarrow> bool" where
  "(\<And>s p' s'. own_step (p, s) (p', s') \<Longrightarrow> ends p') \<Longrightarrow> ends p"

lemma program_ends: "ends p"
proof (induction p)
  case (Return a)
  show ?case by (rule ends.intros) simp
next
  case (Stmt u k g)
  show ?case by (rule ends.intros) (use Stmt in auto)
next
  case (Local u k)
  show ?case by (rule ends.intros) (use Local in auto)
qed

primrec rg :: "('s \<Rightarrow> 's \<Rightarrow> bool) \<Rightarrow> ('s \<Rightarrow> 's \<Rightarrow> bool) \<Rightarrow> ('a \<Rightarrow> 's \<Rightarrow> bool) \<Rightarrow> ('s, 'a) prog \<Rightarrow> 's \<Rightarrow> bool" where
  "rg R G Q (Return a) s = (\<forall>t. R s t \<longrightarrow> Q a t)"
| "rg R G Q (Stmt u k g) s = (\<forall>t. R s t \<longrightarrow> G t (u t) \<and> rg R G Q (k t) (u t) \<and> rg R G Q g t)"
| "rg R G Q (Local u k) s = (\<forall>t. R s t \<longrightarrow> G t (u t) \<and> rg R G Q (k t) (u t))"

lemma rg_mono:
  assumes "rg R G Q p s" "\<And>a t. Q a t \<Longrightarrow> Q' a t" "\<And>s t. G s t \<Longrightarrow> G' s t"
  shows "rg R G' Q' p s"
  using assms(1) by (induction p arbitrary: s) (auto intro: assms(2,3))

lemma rg_if: "rg R G Q p s \<Longrightarrow> rg R G Q q s \<Longrightarrow> rg R G Q (if b then p else q) s"
  by simp

lemma rg_case_option:
  "rg R G Q p s \<Longrightarrow> (\<And>a. rg R G Q (f a) s) \<Longrightarrow> rg R G Q (case v of None \<Rightarrow> p | Some a \<Rightarrow> f a) s"
  by (cases v) simp_all

lemma rg_case_prod: "(\<And>a b. rg R G Q (f a b) s) \<Longrightarrow> rg R G Q (case v of (a, b) \<Rightarrow> f a b) s"
  by (cases v) simp

lemmas rg_splits = rg_if rg_case_option rg_case_prod

text \<open>The contract of the other tasks' steps: they can be none or many.\<close>

locale rely =
  fixes R :: "'s \<Rightarrow> 's \<Rightarrow> bool"
  assumes rely_refl: "R s s"
    and rely_trans: "R s t \<Longrightarrow> R t u \<Longrightarrow> R s u"
begin

lemma rg_other: "rg R G Q p s \<Longrightarrow> R s t \<Longrightarrow> rg R G Q p t"
  by (cases p) (auto intro: rely_trans)

lemma rg_own: "rg R G Q p s \<Longrightarrow> own_step (p, s) (p', s') \<Longrightarrow> rg R G Q p' s' \<and> (G s s' \<or> s' = s)"
  by (cases p) (auto intro: rely_refl)

lemma rg_among: "rg R G Q (fst c) (snd c) \<Longrightarrow> among R c c' \<Longrightarrow> rg R G Q (fst c') (snd c')"
  by (cases c, cases c') (auto elim!: among.cases dest: rg_own intro: rg_other)

lemma rg_reached:
  assumes "rg R G Q p s" "(among R)\<^sup>*\<^sup>* (p, s) (p', s')"
  shows "rg R G Q p' s'"
proof -
  have "rg R G Q (fst c) (snd c)" if "(among R)\<^sup>*\<^sup>* (p, s) c" for c
    using that by (induction rule: rtranclp_induct) (auto simp: assms(1) intro: rg_among)
  from this [OF assms(2)] show ?thesis by simp
qed

lemma rg_result: "rg R G Q p s \<Longrightarrow> (among R)\<^sup>*\<^sup>* (p, s) (Return a, s') \<Longrightarrow> Q a s'"
  using rg_reached [of G Q p s "Return a" s'] rely_refl by simp

lemma rg_bindP:
  assumes "rg R G (\<lambda>r t. case r of Inl e \<Rightarrow> Q (Inl e) t | Inr a \<Rightarrow> rg R G Q (f a) t) p s"
  shows "rg R G Q (bindP p f) s"
  using assms by (induction p arbitrary: s) (auto split: sum.splits intro: rely_refl)

lemma rg_bind_any:
  assumes "rg R G (\<lambda>_ _. True) p s" "\<And>a t. rg R G (\<lambda>_ _. True) (f a) t"
  shows "rg R G (\<lambda>_ _. True) (bindP p f) s"
  by (rule rg_bindP, rule rg_mono [OF assms(1)]) (auto simp: assms(2) split: sum.split)

lemma rg_mapP: "rg R G (\<lambda>a. Q (h a)) p s \<Longrightarrow> rg R G Q (mapP h p) s"
  by (induction p arbitrary: s) auto

lemma rg_stmtP:
  assumes "\<And>t. R s t \<Longrightarrow> G t (snd (m t)) \<and> (\<forall>u. R (snd (m t)) u \<longrightarrow> Q (fst (m t)) u)"
    and "\<And>t. R s t \<Longrightarrow> Q busy t"
  shows "rg R G Q (stmtP busy m) s"
  using assms by (auto simp: stmtP_def dest: rely_trans)

text \<open>A statement between two assertions that the other tasks do not disturb.\<close>

lemma rg_stmt_stable:
  assumes "P s" "\<And>t u. R t u \<Longrightarrow> P t \<Longrightarrow> P u" "\<And>a t u. R t u \<Longrightarrow> Q a t \<Longrightarrow> Q a u"
    and "\<And>t. P t \<Longrightarrow> G t (snd (m t)) \<and> Q (fst (m t)) (snd (m t))" "\<And>t. P t \<Longrightarrow> Q busy t"
  shows "rg R G Q (stmtP busy m) s"
proof (rule rg_stmtP)
  fix t assume "R s t"
  then have "P t" by (rule assms(2)) (rule assms(1))
  with assms(3-5) show "G t (snd (m t)) \<and> (\<forall>u. R (snd (m t)) u \<longrightarrow> Q (fst (m t)) u)" "Q busy t" by blast+
qed

lemma rg_localP:
  assumes "\<And>t. R s t \<Longrightarrow> G t (snd (m t)) \<and> (\<forall>u. R (snd (m t)) u \<longrightarrow> Q (fst (m t)) u)"
  shows "rg R G Q (localP m) s"
  using assms by (auto simp: localP_def)

end

text \<open>An assertion that the other tasks do not disturb, kept by a program from its start to its end.\<close>

locale steady = rely R for R :: "'s \<Rightarrow> 's \<Rightarrow> bool" +
  fixes J :: "'s \<Rightarrow> bool"
  assumes steady: "R s t \<Longrightarrow> J s \<Longrightarrow> J t"
begin

lemma steady_Return: "J s \<Longrightarrow> rg R G (\<lambda>_. J) (Return a) s"
  by (auto dest: steady)

lemma steady_stmtP: "J s \<Longrightarrow> (\<And>t. J t \<Longrightarrow> G t (snd (m t)) \<and> J (snd (m t))) \<Longrightarrow> rg R G (\<lambda>_. J) (stmtP busy m) s"
  by (rule rg_stmt_stable [where P = J]) (auto dest: steady)

lemma steady_localP: "J s \<Longrightarrow> (\<And>t. J t \<Longrightarrow> G t (snd (m t)) \<and> J (snd (m t))) \<Longrightarrow> rg R G (\<lambda>_. J) (localP m) s"
  by (rule rg_localP) (blast dest: steady)

lemma steady_mapP: "rg R G (\<lambda>_. J) p s \<Longrightarrow> rg R G (\<lambda>_. J) (mapP h p) s"
  by (rule rg_mapP)

lemma steady_bindP:
  assumes "rg R G (\<lambda>_. J) p s" "\<And>a t. J t \<Longrightarrow> rg R G (\<lambda>_. J) (f a) t"
  shows "rg R G (\<lambda>_. J) (bindP p f) s"
  by (rule rg_bindP, rule rg_mono [OF assms(1)]) (auto intro: assms(2) split: sum.split)

lemma steady_forP: "J s \<Longrightarrow> (\<And>x t. J t \<Longrightarrow> rg R G (\<lambda>_. J) (f x) t) \<Longrightarrow> rg R G (\<lambda>_. J) (forP f xs) s"
  by (induction xs arbitrary: s) (auto intro: steady_bindP dest: steady)

end

subsection \<open>What every statement of a program keeps\<close>

primrec all_steps :: "('s \<Rightarrow> bool) \<Rightarrow> ('s, 'a) prog \<Rightarrow> bool" where
  "all_steps J (Return a) = True"
| "all_steps J (Stmt u k g) = ((\<forall>s. J s \<longrightarrow> J (u s)) \<and> (\<forall>s. all_steps J (k s)) \<and> all_steps J g)"
| "all_steps J (Local u k) = ((\<forall>s. J s \<longrightarrow> J (u s)) \<and> (\<forall>s. all_steps J (k s)))"

lemma all_steps_own: "all_steps J p \<Longrightarrow> J s \<Longrightarrow> own_step (p, s) (p', s') \<Longrightarrow> all_steps J p' \<and> J s'"
  by (cases p) auto

lemma all_steps_mapP [simp]: "all_steps J (mapP h p) = all_steps J p"
  by (induction p) auto

lemma all_steps_Return [inv_rules]: "all_steps J (Return a)"
  by simp

lemma all_steps_bindP [inv_rules]: "all_steps J p \<Longrightarrow> (\<And>a. all_steps J (f a)) \<Longrightarrow> all_steps J (bindP p f)"
  by (induction p) (auto split: sum.split)

lemma all_steps_mapErrP [inv_rules]: "all_steps J p \<Longrightarrow> all_steps J (mapErrP h p)"
  by (simp add: mapErrP_def)

lemma all_steps_ignoreErrP [inv_rules]: "all_steps J p \<Longrightarrow> all_steps J (ignoreErrP p)"
  by (simp add: ignoreErrP_def)

lemma all_steps_stmtP [inv_rules]: "keeps J m \<Longrightarrow> all_steps J (stmtP busy m)"
  by (simp add: stmtP_def keeps_def)

lemma all_steps_localP [inv_rules]: "keeps J m \<Longrightarrow> all_steps J (localP m)"
  by (simp add: localP_def keeps_def)

lemma all_steps_forP [inv_rules]: "(\<And>x. all_steps J (f x)) \<Longrightarrow> all_steps J (forP f xs)"
  by (induction xs) (auto intro: inv_rules)

lemma all_steps_if [inv_rules]: "all_steps J p \<Longrightarrow> all_steps J q \<Longrightarrow> all_steps J (if b then p else q)"
  by simp

lemma all_steps_case_option [inv_rules]:
  "all_steps J p \<Longrightarrow> (\<And>a. all_steps J (f a)) \<Longrightarrow> all_steps J (case v of None \<Rightarrow> p | Some a \<Rightarrow> f a)"
  by (cases v) simp_all

lemma all_steps_case_prod [inv_rules]:
  "(\<And>a b. all_steps J (f a b)) \<Longrightarrow> all_steps J (case v of (a, b) \<Rightarrow> f a b)"
  by (cases v) simp

section \<open>Two programs\<close>

text \<open>Two programs on one state, among others; one step of one of them at a time.\<close>

inductive par_step :: "('s \<Rightarrow> 's \<Rightarrow> bool) \<Rightarrow> ('s, 'a) prog \<times> ('s, 'b) prog \<times> 's \<Rightarrow> ('s, 'a) prog \<times> ('s, 'b) prog \<times> 's \<Rightarrow> bool"
  for R where
  left: "own_step (p, s) (p', s') \<Longrightarrow> par_step R (p, q, s) (p', q, s')"
| right: "own_step (q, s) (q', s') \<Longrightarrow> par_step R (p, q, s) (p, q', s')"
| rest: "R s t \<Longrightarrow> par_step R (p, q, s) (p, q, t)"

text \<open>Whoever else may move, a program can run to its end undisturbed.\<close>

lemma par_run_right: "run q s = (b, t) \<Longrightarrow> (par_step R)\<^sup>*\<^sup>* (p, q, s) (p, Return b, t)"
proof -
  have "(par_step R)\<^sup>*\<^sup>* (p, q, s) (p, fst c, snd c)" if "own_step\<^sup>*\<^sup>* (q, s) c" for c
    using that by (induction rule: rtranclp_induct) (auto intro: rtranclp.rtrancl_into_rtrancl par_step.right)
  then show "run q s = (b, t) \<Longrightarrow> (par_step R)\<^sup>*\<^sup>* (p, q, s) (p, Return b, t)" by (fastforce dest: own_run)
qed

lemma par_left_steps:
  assumes "own_step\<^sup>*\<^sup>* (p, s) (p', t)"
  shows "(par_step R)\<^sup>*\<^sup>* (p, q, s) (p', q, t)"
proof -
  have "(par_step R)\<^sup>*\<^sup>* (p, q, s) (fst c, q, snd c)" if "own_step\<^sup>*\<^sup>* (p, s) c" for c
    using that
  proof (induction rule: rtranclp_induct)
    case (step c c')
    then have "par_step R (fst c, q, snd c) (fst c', q, snd c')" by (simp add: par_step.left)
    with step.IH show ?case by (rule rtranclp.rtrancl_into_rtrancl)
  qed simp
  from this [OF assms] show ?thesis by simp
qed

lemma among_run: "run p s = (a, t) \<Longrightarrow> (among R)\<^sup>*\<^sup>* (p, s) (Return a, t)"
  by (rule rtranclp_mono [THEN predicate2D, OF _ own_run]) (auto intro: among.own)

text \<open>What each of the two programs does is what the other one expects of its surroundings.\<close>

locale compatible = left: rely R1 + right: rely R2
  for R1 R2 :: "'s \<Rightarrow> 's \<Rightarrow> bool" +
  fixes R0 G1 G2 :: "'s \<Rightarrow> 's \<Rightarrow> bool"
  assumes left_right: "G1 s t \<Longrightarrow> R2 s t"
    and right_left: "G2 s t \<Longrightarrow> R1 s t"
    and rest_left: "R0 s t \<Longrightarrow> R1 s t"
    and rest_right: "R0 s t \<Longrightarrow> R2 s t"
begin

lemma par_own:
  assumes "rg R1 G1 Q1 p s" "rg R2 G2 Q2 q s" "par_step R0 (p, q, s) (p', q', s')"
  shows "rg R1 G1 Q1 p' s' \<and> rg R2 G2 Q2 q' s'"
  using assms(3)
proof (cases rule: par_step.cases)
  case left
  with left.rg_own [OF assms(1)] have "rg R1 G1 Q1 p' s'" "R2 s s'"
    by (auto intro: left_right right.rely_refl)
  with left right.rg_other [OF assms(2)] show ?thesis by simp
next
  case right
  with right.rg_own [OF assms(2)] have "rg R2 G2 Q2 q' s'" "R1 s s'"
    by (auto intro: right_left left.rely_refl)
  with right left.rg_other [OF assms(1)] show ?thesis by simp
next
  case rest
  with left.rg_other [OF assms(1)] right.rg_other [OF assms(2)] show ?thesis
    by (simp add: rest_left rest_right)
qed

lemma par_reached:
  assumes "rg R1 G1 Q1 p s" "rg R2 G2 Q2 q s" "(par_step R0)\<^sup>*\<^sup>* (p, q, s) (p', q', s')"
  shows "rg R1 G1 Q1 p' s' \<and> rg R2 G2 Q2 q' s'"
proof -
  have "rg R1 G1 Q1 (fst c) (snd (snd c)) \<and> rg R2 G2 Q2 (fst (snd c)) (snd (snd c))"
    if "(par_step R0)\<^sup>*\<^sup>* (p, q, s) c" for c
    using that
  proof (induction rule: rtranclp_induct)
    case (step c c')
    then show ?case
      using par_own [of Q1 "fst c" "snd (snd c)" Q2 "fst (snd c)" "fst c'" "fst (snd c')" "snd (snd c')"] by simp
  qed (simp add: assms(1,2))
  from this [OF assms(3)] show ?thesis by simp
qed

end

end
