(* ===== verification/Lifecycle.thy ===== *)
theory Lifecycle
  imports Grpc_Workflow
begin

text \<open>
  The components together: \<open>StartWorkflow\<close> (\<open>server/src/grpc.rs\<close>) stores the steps of a workflow and
  tells the engine (\<open>server/src/engine.rs\<close>); a worker polls, reports a result, and the report tells
  the engine again, which writes the verdict on the workflow. The theory composes these calls
  into rounds and shows that the rounds take a workflow to its end.
\<close>

section \<open>Rounds\<close>

text \<open>One turn of the engine's loop on the oldest event of its channel.\<close>

definition engine_turn :: "ext \<Rightarrow> clock \<Rightarrow> server \<Rightarrow> server" where
  "engine_turn X clk s =
     (case srv_events s of
        [] \<Rightarrow> s
      | ev # evs \<Rightarrow> snd (handle_event X clk ev (s\<lparr>srv_events := evs\<rparr>)))"

text \<open>
  A round: the clocks of its three calls, the UUID the poll draws for the activity, and the text
  the worker reports.
\<close>

record round =
  rd_poll :: clock
  rd_report :: clock
  rd_engine :: clock
  rd_activity :: uuid
  rd_result :: string

definition serve_round :: "ext \<Rightarrow> PollActivityRequest \<Rightarrow> round \<Rightarrow> server \<Rightarrow> ActivityTask option \<times> server" where
  "serve_round X req rd s =
     (case poll_activity X (rd_poll rd) (rd_activity rd) req s of
        (Inl _, s1) \<Rightarrow> (None, s1)
      | (Inr resp, s1) \<Rightarrow>
          (case pr_task resp of
             None \<Rightarrow> (None, s1)
           | Some task \<Rightarrow>
               (Some task, engine_turn X (rd_engine rd)
                  (snd (report_activity_result X (rd_report rd) (at_activity_id task) (rd_result rd) s1)))))"

fun serve :: "ext \<Rightarrow> PollActivityRequest \<Rightarrow> round list \<Rightarrow> server \<Rightarrow> ActivityTask option list \<times> server" where
  "serve X req [] s = ([], s)"
| "serve X req (rd # rds) s =
     (case serve_round X req rd s of (t, s1) \<Rightarrow> (case serve X req rds s1 of (ts, s2) \<Rightarrow> (t # ts, s2)))"

section \<open>The engine's turn\<close>

lemma forE_idle: "(\<And>x. x \<in> set xs \<Longrightarrow> f x s = (Inr (), s)) \<Longrightarrow> forE f xs s = (Inr (), s)"
  by (induction xs) simp_all

lemma schedule_timers_idle:
  assumes "no_offset_refused X"
  shows "schedule_timers_for_workflow X clk run_id s = (Inr (), s)"
proof -
  have none: "parse_tz X t date_fmt = None" for t
    using assms by (simp add: no_offset_refused_def)
  have "schedule_retry_timers_for_workflow X clk run_id s = (Inr (), s)"
    by (simp add: schedule_retry_timers_for_workflow_def andThen_def with_db_def readE_def)
      (rule forE_idle, simp add: none okE_def split: prod.split)
  moreover have "schedule_heartbeat_timers_for_workflow X clk run_id s = (Inr (), s)"
    by (simp add: schedule_heartbeat_timers_for_workflow_def andThen_def with_db_def readE_def)
      (rule forE_idle, simp add: none okE_def split: prod.split option.split)
  ultimately show ?thesis by (simp add: schedule_timers_for_workflow_def andThen_def)
qed

lemma process_tables [simp]:
  "workflow_steps (snd (process_single_workflow X clk run_id d)) = workflow_steps d"
  "activities (snd (process_single_workflow X clk run_id d)) = activities d"
  "wf_run_id ` set (workflows (snd (process_single_workflow X clk run_id d))) = wf_run_id ` set (workflows d)"
  by (auto simp: process_single_workflow_eq mark_started_def finish_workflow_def finish_row_def image_update_where
      split: option.split)

lemma engine_turn_eq:
  assumes "no_offset_refused X" "srv_events s = ev # evs" "ev \<in> {WorkflowCreated run_id, StepCompleted run_id}"
  shows "engine_turn X clk s = s\<lparr>srv_events := evs, srv_db := snd (process_single_workflow X clk run_id (srv_db s))\<rparr>"
proof -
  obtain d where "process_single_workflow X clk run_id (srv_db s) = (Inr (), d)"
    by (simp add: process_single_workflow_eq)
  then show ?thesis
    using assms
    by (auto simp: engine_turn_def handle_event_def logErr_def handle_workflow_created_def handle_step_completed_def
        andThen_def with_db_def schedule_timers_idle)
qed

section \<open>A workflow in progress\<close>

text \<open>
  \<open>in_progress \<dots> pre ps s\<close>: of the steps table, \<open>pre\<close> are the rows that are not to be handed out, those
  of the run being completed, and the remaining rows are the fresh rows of the steps \<open>ps\<close> of the run,
  in order. The engine has handled all events.
\<close>

definition in_progress ::
  "ext \<Rightarrow> clock \<Rightarrow> uuid \<Rightarrow> (nat \<Rightarrow> uuid) \<Rightarrow> (ActivityStep \<Rightarrow> json) \<Rightarrow> step_row list \<Rightarrow> (nat \<times> ActivityStep) list \<Rightarrow> server \<Rightarrow> bool" where
  "in_progress X clk run_id ids args pre ps s \<longleftrightarrow>
     workflow_steps (srv_db s) = pre @ map (new_step_row X clk run_id ids args) ps \<and>
     distinct (map st_id (workflow_steps (srv_db s))) \<and>
     (\<forall>r \<in> set pre. st_state r \<noteq> ''pending'' \<and> st_state r \<noteq> ''retried'') \<and>
     (\<forall>r \<in> set pre. st_workflow_run_id r = run_id \<longrightarrow> st_state r = ''completed'') \<and>
     run_id \<in> wf_run_id ` set (workflows (srv_db s)) \<and>
     srv_events s = [] \<and> srv_engine_tx s"

definition step_of :: "uuid \<Rightarrow> (nat \<Rightarrow> uuid) \<Rightarrow> (ActivityStep \<Rightarrow> json) \<Rightarrow> nat \<times> ActivityStep \<Rightarrow> WorkflowStepInstance" where
  "step_of run_id ids args p = new_step run_id ids (fst p) (snd p) (args (snd p))"

lemma step_of_simps [simp]:
  "si_id (step_of run_id ids args p) = ids (fst p)"
  "si_workflow_run_id (step_of run_id ids args p) = run_id"
  "si_activity_name (step_of run_id ids args p) = as_activity_name (snd p)"
  "si_attempt (step_of run_id ids args p) = 0"
  "step_to_secs (step_of run_id ids args p) = step_of run_id ids args p"
  by (simp_all add: step_of_def new_step_def step_to_secs_def)

lemma new_step_row_step_of: "new_step_row X clk run_id ids args p = step_to_row X clk (step_of run_id ids args p)"
  by (simp add: new_step_row_def step_of_def)

lemma order_by_asc_const: "(\<And>r. r \<in> set rows \<Longrightarrow> k r = c) \<Longrightarrow> order_by_asc k rows = rows"
proof (induction rows)
  case (Cons r rows)
  then have "sort_key k rows = rows" by (simp add: order_by_asc_def)
  with Cons.prems show ?case by (cases rows) (simp_all add: order_by_asc_def)
qed (simp add: order_by_asc_def)

lemma update_where_append: "update_where P f (xs @ ys) = update_where P f xs @ update_where P f ys"
  by (simp add: update_where_def)

text \<open>The row of a step once it is handed out and reported, and what a round makes of the tables.\<close>

definition done_row :: "ext \<Rightarrow> json \<Rightarrow> step_row \<Rightarrow> step_row" where
  "done_row X v r = step_update X Completed None (Some v) None (step_update X Running (Some 1) None None r)"

definition reported_value :: "ext \<Rightarrow> string \<Rightarrow> json option" where
  "reported_value X txt = (if txt = [] then Some (JObject []) else json_from_str X txt)"

lemma pending_rows:
  assumes "in_progress X clk run_id ids args pre ps s" "\<forall>p \<in> set ps. step_text_ok X (step_of run_id ids args p)"
  shows "mapM_sum (row_to_step X) (order_by_asc st_created_at (filter (step_ready clk') (workflow_steps (srv_db s)))) =
    Inr (map (step_of run_id ids args) ps)"
proof -
  let ?row = "new_step_row X clk run_id ids args"
  have "filter (step_ready clk') pre = []"
    using assms(1) by (auto simp: in_progress_def step_ready_def filter_empty_conv)
  moreover have "filter (step_ready clk') (map ?row ps) = map ?row ps"
    by (simp add: filter_map o_def step_ready_def filter_id_conv)
  moreover have "order_by_asc st_created_at (map ?row ps) = map ?row ps"
    by (rule order_by_asc_const [of _ _ "sql_now clk"]) (auto simp: new_step_row_step_of step_to_row_def)
  moreover have "mapM_sum (row_to_step X) (map ?row ps) = Inr (map (step_of run_id ids args) ps)"
    using assms(2)
  proof (induction ps)
    case (Cons p ps)
    then have "row_to_step X (?row p) = Inr (step_of run_id ids args p)"
      using step_codec.decode_encode [of X "step_of run_id ids args p" clk] by (simp add: new_step_row_step_of)
    with Cons show ?case by simp
  qed simp
  ultimately show ?thesis using assms(1) by (simp add: in_progress_def)
qed

lemma update_key_middle:
  assumes "distinct (map key (xs @ y # ys))" "k = key y"
  shows "update_where (\<lambda>r. key r = k) f (xs @ y # ys) = xs @ f y # ys"
proof -
  have "key r \<noteq> k" if "r \<in> set xs \<or> r \<in> set ys" for r
    using assms that by (auto simp: image_iff)
  then have "update_where (\<lambda>r. key r = k) f xs = xs" "update_where (\<lambda>r. key r = k) f ys = ys"
    by (simp_all add: update_where_noop)
  then show ?thesis using assms(2) by (simp add: update_where_append)
qed

lemma find_key_middle: "distinct (map key (xs @ y # ys)) \<Longrightarrow> k = key y \<Longrightarrow> find (\<lambda>r. key r = k) (xs @ y # ys) = Some y"
  using find_key_distinct [of key "xs @ y # ys" y] by simp

text \<open>The state after the poll and the report of a round.\<close>

lemma round_reported:
  assumes prog: "in_progress X clk run_id ids args pre (p # ps) s"
    and ok: "\<forall>q \<in> set (p # ps). step_text_ok X (step_of run_id ids args q)"
    and asked: "as_activity_name (snd p) \<in> set (pa_activity_types req)"
    and fresh: "rd_activity rd \<notin> ac_id ` set (activities (srv_db s))"
    and result: "reported_value X (rd_result rd) = Some v"
  obtains s2 where
    "serve_round X req rd s = (Some (activity_task_of (rd_activity rd) (step_of run_id ids args p)), engine_turn X (rd_engine rd) s2)"
    "workflow_steps (srv_db s2) = pre @ done_row X v (new_step_row X clk run_id ids args p) # map (new_step_row X clk run_id ids args) ps"
    "wf_run_id ` set (workflows (srv_db s2)) = wf_run_id ` set (workflows (srv_db s))"
    "ac_id ` set (activities (srv_db s2)) = insert (rd_activity rd) (ac_id ` set (activities (srv_db s)))"
    "srv_events s2 = [StepCompleted run_id]" "srv_engine_tx s2"
proof -
  let ?p = "step_of run_id ids args p" and ?row = "new_step_row X clk run_id ids args"
  let ?aid = "rd_activity rd" and ?run = "step_update X Running (Some 1) None None (?row p)"
  let ?s1 = "s\<lparr>srv_db := assigned X (rd_poll rd) ?aid ?p (srv_db s)\<rparr>"
  have "workflow_steps (srv_db s) = pre @ ?row p # map ?row ps" "distinct (map st_id (workflow_steps (srv_db s)))"
    and chan: "srv_events s = []" "srv_engine_tx s"
    using prog unfolding in_progress_def list.map by blast+
  then have steps: "workflow_steps (srv_db s) = pre @ ?row p # map ?row ps" "distinct (map st_id (pre @ ?row p # map ?row ps))"
    by simp_all
  have poll: "poll_activity X (rd_poll rd) ?aid req s =
      (Inr \<lparr>pr_task = Some (activity_task_of ?aid ?p), pr_has_task = True\<rparr>, ?s1)"
    by (rule poll_activity_eq [OF pending_rows [OF prog ok] _ fresh]) (simp_all add: asked steps)
  have steps1: "workflow_steps (assigned X (rd_poll rd) ?aid ?p (srv_db s)) = pre @ ?run # map ?row ps"
    using update_key_middle [OF steps(2)] by (simp add: assigned_def steps(1))
  have dist1: "distinct (map st_id (pre @ ?run # map ?row ps))" using steps(2) by simp
  have "find (\<lambda>x. ac_id x = ?aid) (activities (srv_db s)) = None"
    using fresh by (auto simp: find_None_iff image_iff)
  then have act: "find (\<lambda>x. ac_id x = ?aid) (activities (srv_db ?s1)) = Some (attempt_row (rd_poll rd) ?aid (ids (fst p)) 1)"
    by (simp add: assigned_def find_append)
  have step: "find (\<lambda>x. st_id x = ac_step_id (attempt_row (rd_poll rd) ?aid (ids (fst p)) 1)) (workflow_steps (srv_db ?s1)) = Some ?run"
    using find_key_middle [OF dist1, of "ids (fst p)"] by (simp add: steps1)
  let ?s2 = "snd (report_activity_result X (rd_report rd) ?aid (rd_result rd) ?s1)"
  note rep = report_activity_result_eq [OF act step result [unfolded reported_value_def], where clk = "rd_report rd"]
  show ?thesis
  proof (rule that [of ?s2])
    show "serve_round X req rd s = (Some (activity_task_of ?aid ?p), engine_turn X (rd_engine rd) ?s2)"
      by (simp add: serve_round_def poll) (simp add: activity_task_of_def)
    show "workflow_steps (srv_db ?s2) = pre @ done_row X v (?row p) # map ?row ps"
      unfolding rep using update_key_middle [OF dist1, of "ids (fst p)"] by (simp add: steps1 done_row_def)
    show "wf_run_id ` set (workflows (srv_db ?s2)) = wf_run_id ` set (workflows (srv_db s))"
      unfolding rep by (simp add: assigned_def image_update_where finish_row_def)
    show "ac_id ` set (activities (srv_db ?s2)) = insert ?aid (ac_id ` set (activities (srv_db s)))"
      unfolding rep by (simp add: assigned_def image_update_where)
    show "srv_events ?s2 = [StepCompleted run_id]" "srv_engine_tx ?s2"
      unfolding rep by (simp_all add: chan)
  qed
qed

lemma done_row_simps [simp]:
  "st_id (done_row X v r) = st_id r" "st_workflow_run_id (done_row X v r) = st_workflow_run_id r"
  "st_state (done_row X v r) = ''completed''"
  by (simp_all add: done_row_def step_state_to_str_def)

text \<open>
  The engine's turn after the report: it leaves the steps alone, and completes the workflow once
  no step is left.
\<close>

lemma run_verdict:
  assumes "\<forall>r \<in> set pre. st_workflow_run_id r = run_id \<longrightarrow> st_state r = ''completed''"
    and "workflow_steps d = pre @ map (new_step_row X clk run_id ids args) ps" "steps_of run_id d \<noteq> []"
  shows "wf_verdict (map st_state (steps_of run_id d)) = (if ps = [] then Some Completed else None)"
  using assms by (cases ps) (auto simp: steps_of_def wf_verdict_def)

lemma round_progress:
  assumes ext: "no_offset_refused X"
    and prog: "in_progress X clk run_id ids args pre (p # ps) s"
    and ok: "\<forall>q \<in> set (p # ps). step_text_ok X (step_of run_id ids args q)"
    and asked: "as_activity_name (snd p) \<in> set (pa_activity_types req)"
    and fresh: "rd_activity rd \<notin> ac_id ` set (activities (srv_db s))"
    and result: "reported_value X (rd_result rd) = Some v"
  obtains s' where
    "serve_round X req rd s = (Some (activity_task_of (rd_activity rd) (step_of run_id ids args p)), s')"
    "in_progress X clk run_id ids args (pre @ [done_row X v (new_step_row X clk run_id ids args p)]) ps s'"
    "ac_id ` set (activities (srv_db s')) = insert (rd_activity rd) (ac_id ` set (activities (srv_db s)))"
    "ps = [] \<Longrightarrow> \<forall>w \<in> set (workflows (srv_db s')). wf_run_id w = run_id \<longrightarrow> wf_state w = ''completed''"
proof -
  let ?row = "new_step_row X clk run_id ids args" and ?pre = "pre @ [done_row X v (new_step_row X clk run_id ids args p)]"
  obtain s2 where s2:
    "serve_round X req rd s = (Some (activity_task_of (rd_activity rd) (step_of run_id ids args p)), engine_turn X (rd_engine rd) s2)"
    "workflow_steps (srv_db s2) = ?pre @ map ?row ps"
    "wf_run_id ` set (workflows (srv_db s2)) = wf_run_id ` set (workflows (srv_db s))"
    "ac_id ` set (activities (srv_db s2)) = insert (rd_activity rd) (ac_id ` set (activities (srv_db s)))"
    "srv_events s2 = [StepCompleted run_id]" "srv_engine_tx s2"
    using round_reported [OF prog ok asked fresh result, of thesis] by simp
  have pre: "workflow_steps (srv_db s) = pre @ map ?row (p # ps)" "distinct (map st_id (workflow_steps (srv_db s)))"
    "\<forall>r \<in> set pre. st_state r \<noteq> ''pending'' \<and> st_state r \<noteq> ''retried''"
    "\<forall>r \<in> set pre. st_workflow_run_id r = run_id \<longrightarrow> st_state r = ''completed''"
    "run_id \<in> wf_run_id ` set (workflows (srv_db s))"
    using prog unfolding in_progress_def by blast+
  let ?d = "snd (process_single_workflow X (rd_engine rd) run_id (srv_db s2))"
  let ?s' = "s2\<lparr>srv_events := [], srv_db := ?d\<rparr>"
  have turn: "engine_turn X (rd_engine rd) s2 = ?s'"
    using engine_turn_eq [OF ext s2(5)] by simp
  have "steps_of run_id (srv_db s2) \<noteq> []" by (simp add: steps_of_def s2(2))
  then have verdict: "wf_verdict (map st_state (steps_of run_id (srv_db s2))) = (if ps = [] then Some Completed else None)"
    using pre(4) s2(2) by (intro run_verdict [of ?pre]) auto
  have "map st_id (workflow_steps ?d) = map st_id (workflow_steps (srv_db s))"
    by (simp add: s2(2) pre(1))
  with pre(2) have dist: "distinct (map st_id (workflow_steps ?d))" by (simp only:)
  show ?thesis
  proof (rule that [of ?s'])
    show "serve_round X req rd s = (Some (activity_task_of (rd_activity rd) (step_of run_id ids args p)), ?s')"
      using s2(1) turn by simp
    show "in_progress X clk run_id ids args ?pre ps ?s'"
      unfolding in_progress_def using dist pre(3-5) s2(2,3,6) by simp
    show "ac_id ` set (activities (srv_db ?s')) = insert (rd_activity rd) (ac_id ` set (activities (srv_db s)))"
      using s2(4) by simp
    assume "ps = []"
    then show "\<forall>w \<in> set (workflows (srv_db ?s')). wf_run_id w = run_id \<longrightarrow> wf_state w = ''completed''"
      using verdict
      by (simp add: process_single_workflow_eq finish_workflow_def ball_update_where finish_row_def workflow_state_to_str_def)
  qed
qed

section \<open>From the start to the end\<close>

lemma serve_progress:
  assumes ext: "no_offset_refused X"
  shows "in_progress X clk run_id ids args pre ps s \<Longrightarrow> ps \<noteq> [] \<Longrightarrow> length rds = length ps \<Longrightarrow>
    \<forall>q \<in> set ps. step_text_ok X (step_of run_id ids args q) \<and> as_activity_name (snd q) \<in> set (pa_activity_types req) \<Longrightarrow>
    distinct (map rd_activity rds) \<Longrightarrow> rd_activity ` set rds \<inter> ac_id ` set (activities (srv_db s)) = {} \<Longrightarrow>
    \<forall>rd \<in> set rds. reported_value X (rd_result rd) \<noteq> None \<Longrightarrow>
    \<exists>s' pre'. serve X req rds s = (map2 (\<lambda>rd q. Some (activity_task_of (rd_activity rd) (step_of run_id ids args q))) rds ps, s') \<and>
      in_progress X clk run_id ids args pre' [] s' \<and>
      (\<forall>w \<in> set (workflows (srv_db s')). wf_run_id w = run_id \<longrightarrow> wf_state w = ''completed'')"
proof (induction ps arbitrary: pre s rds)
  case (Cons p ps)
  from Cons.prems(3) obtain rd rds' where rds: "rds = rd # rds'" by (cases rds) auto
  with Cons.prems(7) obtain v where v: "reported_value X (rd_result rd) = Some v" by auto
  obtain s' where s': "serve_round X req rd s = (Some (activity_task_of (rd_activity rd) (step_of run_id ids args p)), s')"
    "in_progress X clk run_id ids args (pre @ [done_row X v (new_step_row X clk run_id ids args p)]) ps s'"
    "ac_id ` set (activities (srv_db s')) = insert (rd_activity rd) (ac_id ` set (activities (srv_db s)))"
    "ps = [] \<Longrightarrow> \<forall>w \<in> set (workflows (srv_db s')). wf_run_id w = run_id \<longrightarrow> wf_state w = ''completed''"
    by (rule round_progress [OF ext Cons.prems(1) _ _ _ v, of req]) (use Cons.prems(4,6) in \<open>auto simp: rds\<close>)
  show ?case
  proof (cases "ps = []")
    case True
    with Cons.prems(3) rds s' show ?thesis by auto
  next
    case False
    have "\<exists>s'' pre'. serve X req rds' s' = (map2 (\<lambda>rd q. Some (activity_task_of (rd_activity rd) (step_of run_id ids args q))) rds' ps, s'') \<and>
      in_progress X clk run_id ids args pre' [] s'' \<and>
      (\<forall>w \<in> set (workflows (srv_db s'')). wf_run_id w = run_id \<longrightarrow> wf_state w = ''completed'')"
      by (rule Cons.IH [OF s'(2) False]) (use Cons.prems(3-7) s'(3) in \<open>auto simp: rds\<close>)
    with s'(1) show ?thesis by (auto simp: rds)
  qed
qed simp

text \<open>Right after the start the run is in progress, with all its steps to do, once the engine has had its turn.\<close>

lemma start_progress:
  assumes ext: "no_offset_refused X"
    and run: "run_id \<notin> wf_run_id ` set (workflows (srv_db s))" "run_id \<notin> st_workflow_run_id ` set (workflow_steps (srv_db s))"
    and steps: "fresh_steps ids 0 (length (get_workflow_definition (swr_workflow_name req))) (srv_db s)"
      "distinct (map st_id (workflow_steps (srv_db s)))"
    and quiet: "\<forall>r \<in> set (workflow_steps (srv_db s)). st_state r \<noteq> ''pending'' \<and> st_state r \<noteq> ''retried''"
    and chan: "srv_events s = []" "srv_engine_tx s"
  shows "in_progress X clk run_id ids (step_args (swr_args req)) (workflow_steps (srv_db s))
      (enumerate 0 (get_workflow_definition (swr_workflow_name req)))
      (engine_turn X clk' (snd (start_workflow X clk run_id ids req s)))" (is ?prog)
    and "activities (srv_db (engine_turn X clk' (snd (start_workflow X clk run_id ids req s)))) = activities (srv_db s)" (is ?acts)
proof -
  let ?defs = "get_workflow_definition (swr_workflow_name req)" and ?d = "started X clk run_id ids req (srv_db s)"
  have turn: "engine_turn X clk' (snd (start_workflow X clk run_id ids req s)) =
      s\<lparr>srv_events := [], srv_db := snd (process_single_workflow X clk' run_id ?d)\<rparr>"
    using engine_turn_eq [OF ext, of _ "WorkflowCreated run_id" "[]" run_id clk'] chan
    by (simp add: start_workflow_eq [OF run(1) steps(1)])
  have "distinct (map st_id (workflow_steps ?d))"
    using steps by (auto simp: started_def o_def fresh_steps_def distinct_map atLeast0LessThan map_fst_of_enumerate)
  with run(2) quiet chan show ?prog
    unfolding in_progress_def turn by (auto simp: started_def)
  show ?acts unfolding turn by (simp add: started_def)
qed

text \<open>
  C3: a workflow whose tasks are served runs to its end: started on a server with no other step to
  hand out, it takes as many rounds of poll, report and engine turn as its definition has steps. The
  rounds hand out its steps in the order of the definition, each once, and then the workflow and all
  its steps are \<open>completed\<close> and the engine has no event left.
\<close>

theorem workflow_runs_to_completion:
  assumes "no_offset_refused X"
    and "run_id \<notin> wf_run_id ` set (workflows (srv_db s))" "run_id \<notin> st_workflow_run_id ` set (workflow_steps (srv_db s))"
    and "fresh_steps ids 0 (length (get_workflow_definition (swr_workflow_name req))) (srv_db s)"
    and "distinct (map st_id (workflow_steps (srv_db s)))"
    and "\<forall>r \<in> set (workflow_steps (srv_db s)). st_state r \<noteq> ''pending'' \<and> st_state r \<noteq> ''retried''"
    and "srv_events s = []" "srv_engine_tx s"
    and "\<forall>q \<in> set (enumerate 0 (get_workflow_definition (swr_workflow_name req))).
      step_text_ok X (step_of run_id ids (step_args (swr_args req)) q) \<and> as_activity_name (snd q) \<in> set (pa_activity_types preq)"
    and "length rds = length (get_workflow_definition (swr_workflow_name req))"
    and "distinct (map rd_activity rds)" "rd_activity ` set rds \<inter> ac_id ` set (activities (srv_db s)) = {}"
    and "\<forall>rd \<in> set rds. reported_value X (rd_result rd) \<noteq> None"
  shows "\<exists>s' tasks. serve X preq rds (engine_turn X clk' (snd (start_workflow X clk run_id ids req s))) = (map Some tasks, s') \<and>
    map at_name tasks = map as_activity_name (get_workflow_definition (swr_workflow_name req)) \<and>
    map at_step_id tasks = map ids [0..<length (get_workflow_definition (swr_workflow_name req))] \<and>
    (\<exists>w \<in> set (workflows (srv_db s')). wf_run_id w = run_id) \<and>
    (\<forall>w \<in> set (workflows (srv_db s')). wf_run_id w = run_id \<longrightarrow> wf_state w = ''completed'') \<and>
    (\<forall>r \<in> set (workflow_steps (srv_db s')). st_workflow_run_id r = run_id \<longrightarrow> st_state r = ''completed'') \<and>
    srv_events s' = []"
proof -
  let ?defs = "get_workflow_definition (swr_workflow_name req)" and ?args = "step_args (swr_args req)"
  let ?s1 = "engine_turn X clk' (snd (start_workflow X clk run_id ids req s))"
  let ?task = "\<lambda>rd q. activity_task_of (rd_activity rd) (step_of run_id ids ?args q)"
  note started = start_progress [OF assms(1-8), where clk = clk and clk' = clk']
  obtain s' pre' where s': "serve X preq rds ?s1 = (map2 (\<lambda>rd q. Some (?task rd q)) rds (enumerate 0 ?defs), s')"
    "in_progress X clk run_id ids ?args pre' [] s'"
    "\<forall>w \<in> set (workflows (srv_db s')). wf_run_id w = run_id \<longrightarrow> wf_state w = ''completed''"
    using serve_progress [OF assms(1) started(1), of rds preq] assms(9-13) started(2) get_workflow_definition_nonempty
    by (auto simp: enumerate_eq_zip)
  have "map (\<lambda>x. f (snd x)) (zip rds (enumerate 0 ?defs)) = map f (enumerate 0 ?defs)" for f :: "nat \<times> ActivityStep \<Rightarrow> string"
    using assms(10) by (simp add: list_eq_iff_nth_eq)
  note zip_snd = this [of "\<lambda>q. as_activity_name (snd q)"] this [of "\<lambda>q. ids (fst q)"]
  have tasks: "map at_name (map2 ?task rds (enumerate 0 ?defs)) = map as_activity_name ?defs"
    "map at_step_id (map2 ?task rds (enumerate 0 ?defs)) = map ids [0..<length ?defs]"
    by (simp_all add: o_def split_def activity_task_of_def zip_snd map_fst_of_enumerate map_snd_of_enumerate)
  have "serve X preq rds ?s1 = (map Some (map2 ?task rds (enumerate 0 ?defs)), s')"
    using s'(1) by (simp add: o_def split_def)
  with tasks s'(3) s'(2) [unfolded in_progress_def] show ?thesis
    by (intro exI [of _ s'] exI [of _ "map2 ?task rds (enumerate 0 ?defs)"]) auto
qed

text \<open>The cron pipeline, five steps, on a fresh server.\<close>

definition cron_ext :: ext where
  "cron_ext = ref_ext\<lparr>
     retry_to_string := (\<lambda>p. (if initial_interval_secs p = 1 then CHR ''1'' else CHR ''2'') # digits_of 10 (unat (maximum_attempts p))),
     retry_from_str := (\<lambda>s. case s of [] \<Rightarrow> None
       | c # ds \<Rightarrow> Some \<lparr>maximum_attempts = of_nat (digits_val ds), initial_interval_secs = (if c = CHR ''1'' then 1 else 2)\<rparr>)\<rparr>"

definition cron_request :: StartWorkflowRequest where
  "cron_request = sample_request\<lparr>swr_workflow_name := ''cron_job_workflow''\<rparr>"

definition cron_poll :: PollActivityRequest where
  "cron_poll = \<lparr>pa_task_queue = [], pa_activity_types = map as_activity_name (cron_pipeline 300)\<rparr>"

definition cron_rounds :: "round list" where
  "cron_rounds = map (\<lambda>n. \<lparr>rd_poll = sample_clock, rd_report = sample_clock, rd_engine = sample_clock,
     rd_activity = replicate n CHR ''a'', rd_result = ''ok''\<rparr>) [0..<5]"

lemma cron_request_steps: "get_workflow_definition (swr_workflow_name cron_request) = cron_pipeline 300"
  by (simp add: cron_request_def get_workflow_definition_def to_lowercase_def is_uppercase_def)

lemma cron_texts:
  assumes "q \<in> set (enumerate 0 (cron_pipeline 300))"
  shows "step_text_ok cron_ext (step_of ''r'' ids (step_args []) q)" and "as_activity_name (snd q) \<in> set (pa_activity_types cron_poll)"
proof -
  have "snd q \<in> set (map snd (enumerate 0 (cron_pipeline 300)))" using imageI [OF assms, of snd] by (simp only: set_map)
  then have q: "snd q \<in> set (cron_pipeline 300)" by (simp only: map_snd_enumerate)
  then show "as_activity_name (snd q) \<in> set (pa_activity_types cron_poll)" by (simp add: cron_poll_def)
  have "retry_from_str cron_ext (retry_to_string cron_ext (as_retry_policy (snd q))) = Some (as_retry_policy (snd q))"
    using q by (auto simp: cron_pipeline_def activity_step_def cron_ext_def digits_val_digits_of)
  then show "step_text_ok cron_ext (step_of ''r'' ids (step_args []) q)"
    by (simp add: step_text_ok_def step_of_def new_step_def step_args_def json_text_ok_def)
      (simp add: cron_ext_def ref_ext_def)
qed

theorem workflow_runs_to_completion_witness:
  "\<exists>s' tasks. serve cron_ext cron_poll cron_rounds
      (engine_turn cron_ext sample_clock (snd (start_workflow cron_ext sample_clock ''r'' (\<lambda>n. replicate n CHR ''s'') cron_request init_server))) =
        (map Some tasks, s') \<and>
    map at_name tasks = [''execute_cron_job'', ''save_cron_output'', ''deliver_cron_result'', ''mark_job_run_activity'', ''trigger_on_success_jobs''] \<and>
    (\<forall>w \<in> set (workflows (srv_db s')). wf_run_id w = ''r'' \<longrightarrow> wf_state w = ''completed'')"
proof -
  have fresh: "fresh_steps (\<lambda>n. replicate n CHR ''s'') 0 (length (cron_pipeline 300)) (srv_db init_server)"
    by (auto simp: fresh_steps_def init_server_def migrate_def inj_on_def)
  have empty: "workflows (srv_db init_server) = []" "workflow_steps (srv_db init_server) = []"
    "activities (srv_db init_server) = []" "srv_events init_server = []" "srv_engine_tx init_server"
    by (simp_all add: init_server_def migrate_def)
  have rounds: "length cron_rounds = length (cron_pipeline 300)" "distinct (map rd_activity cron_rounds)"
    "\<forall>rd \<in> set cron_rounds. reported_value cron_ext (rd_result rd) \<noteq> None"
    by (auto simp: cron_rounds_def cron_pipeline_def distinct_map inj_on_def reported_value_def cron_ext_def ref_ext_def)
  have "no_offset_refused cron_ext" "swr_args cron_request = []"
    by (simp_all add: no_offset_refused_def cron_ext_def ref_ext_def cron_request_def sample_request_def)
  then obtain s' tasks where
    "serve cron_ext cron_poll cron_rounds (engine_turn cron_ext sample_clock
       (snd (start_workflow cron_ext sample_clock ''r'' (\<lambda>n. replicate n CHR ''s'') cron_request init_server))) = (map Some tasks, s')"
    "map at_name tasks = map as_activity_name (cron_pipeline 300)"
    "\<forall>w \<in> set (workflows (srv_db s')). wf_run_id w = ''r'' \<longrightarrow> wf_state w = ''completed''"
    using workflow_runs_to_completion [of cron_ext "''r''" init_server "\<lambda>n. replicate n CHR ''s''" cron_request cron_poll
        cron_rounds sample_clock sample_clock] fresh rounds cron_texts
    by (simp add: cron_request_steps empty) blast
  moreover have "map as_activity_name (cron_pipeline 300) =
      [''execute_cron_job'', ''save_cron_output'', ''deliver_cron_result'', ''mark_job_run_activity'', ''trigger_on_success_jobs'']"
    by (simp add: cron_pipeline_def activity_step_def)
  ultimately show ?thesis by (intro exI conjI) simp_all
qed

end
