(* ===== verification/Handler_Programs.thy ===== *)
theory Handler_Programs
  imports Programs Lifecycle Overlap_Policies
begin

text \<open>
  Handlers at the grain of their SQL statements. Each task has a database connection of its own and no
  handler opens a transaction, so statements of the engine, of the scheduler and of one gRPC call (they
  exclude one another by a mutex) fall between one another, and after \<open>busy_timeout\<close> a statement can
  be refused with \<open>SQLITE_BUSY\<close>. The programs below have the statements of \<open>server/src/engine.rs\<close>,
  \<open>grpc.rs\<close> and \<open>scheduler.rs\<close> in their order. Run alone they are the handlers; in any interleaving they keep
  the invariants of the database.
\<close>

section \<open>The handlers as programs\<close>

text \<open>
  A statement followed by \<open>?\<close>, and the rows of \<open>query_map(..)?.filter_map(|r| r.ok())\<close>: there an
  error of the query is dropped like a row that cannot be read.
\<close>

definition dbP :: "(db, err, 'a) exec \<Rightarrow> (server, err + 'a) prog" where
  "dbP m = stmtP (Inl (SqlErr DatabaseBusy)) (with_db m)"

definition lenientP :: "'a \<Rightarrow> (db \<Rightarrow> 'a) \<Rightarrow> (server, err + 'a) prog" where
  "lenientP none q = stmtP (Inr none) (with_db (readE (\<lambda>d. Inr (q d))))"

definition process_single_workflow_prog :: "ext \<Rightarrow> clock \<Rightarrow> sqltext \<Rightarrow> (server, err + unit) prog" where
  "process_single_workflow_prog X clk run_id =
     bindP (dbP (stmt_start_workflow clk run_id)) (\<lambda>updated.
     bindP (dbP (okE ())) (\<lambda>stmt.
     bindP (lenientP None (next_step_row run_id)) (\<lambda>next_step.
       case next_step of
         Some r \<Rightarrow>
           bindP (dbP (readE (\<lambda>d. Inr (count_where (\<lambda>p. st_step_index p < st_step_index r \<and> st_state p = ''completed'')
              (steps_of run_id d))))) (\<lambda>prev_completed.
           bindP (dbP (readE (\<lambda>d. Inr (count_where (\<lambda>p. st_step_index p < st_step_index r) (steps_of run_id d)))))
             (\<lambda>total_prev. if prev_completed = total_prev then Return (Inr ()) else Return (Inr ())))
       | None \<Rightarrow>
           bindP (dbP (readE (\<lambda>d. Inr (step_counts run_id d)))) (\<lambda>(total_steps, completed_count, failed_count).
             if 0 < total_steps then
               (if 0 < failed_count then
                  dbP (update_workflow_state X run_id Failed None (Some (utc_now clk)))
                else if completed_count = total_steps then
                  dbP (update_workflow_state X run_id Completed None (Some (utc_now clk)))
                else Return (Inr ()))
             else Return (Inr ())))))"

definition assign_step_prog :: "ext \<Rightarrow> clock \<Rightarrow> uuid \<Rightarrow> WorkflowStepInstance \<Rightarrow> (server, status + unit) prog" where
  "assign_step_prog X clk activity_id s =
     bindP (mapErrP (Internal ''Failed to update step state'')
              (dbP (update_step_state X (si_id s) Running (Some (si_attempt s + 1)) None None))) (\<lambda>_.
     bindP (mapErrP (Internal ''Failed to insert activity'')
              (dbP (insert_activity_attempt clk activity_id (si_id s) (si_attempt s + 1)))) (\<lambda>_.
     ignoreErrP (dbP (update_workflow_state X (si_workflow_run_id s) Running None (Some (utc_now clk))))))"

definition poll_activity_prog ::
  "ext \<Rightarrow> clock \<Rightarrow> uuid \<Rightarrow> PollActivityRequest \<Rightarrow> (server, status + PollActivityResponse) prog" where
  "poll_activity_prog X clk activity_id req =
     bindP (mapErrP (Internal ''Failed to get pending steps'') (dbP (get_pending_steps X clk))) (\<lambda>pending_steps.
       case find (\<lambda>s. si_activity_name s \<in> set (pa_activity_types req)) pending_steps of
         Some s \<Rightarrow> bindP (assign_step_prog X clk activity_id s)
             (\<lambda>_. Return (Inr \<lparr>pr_task = Some (activity_task_of activity_id s), pr_has_task = True\<rparr>))
       | None \<Rightarrow> Return (Inr \<lparr>pr_task = None, pr_has_task = False\<rparr>))"

definition report_activity_result_prog :: "ext \<Rightarrow> clock \<Rightarrow> sqltext \<Rightarrow> string \<Rightarrow> (server, status + bool) prog" where
  "report_activity_result_prog X clk activity_id result_text =
     bindP (Return (if result_text = [] then Inr (JObject [])
              else (case json_from_str X result_text of
                      Some v \<Rightarrow> Inr v
                    | None \<Rightarrow> Inl (InvalidArgument ''Invalid result JSON'')))) (\<lambda>result_json.
     bindP (mapErrP (Internal ''Failed to update activity'')
              (dbP (update_activity_state X clk activity_id Activity_Completed (Some result_json) None))) (\<lambda>_.
     bindP (mapErrP (Internal ''Failed to find activity'')
              (dbP (query_row activities (\<lambda>r. ac_id r = activity_id) ac_step_id))) (\<lambda>step_id.
     bindP (mapErrP (Internal ''Failed to update step'')
              (dbP (update_step_state X step_id Completed None (Some result_json) None))) (\<lambda>_.
     bindP (mapErrP (Internal ''Failed to find step'')
              (dbP (query_row workflow_steps (\<lambda>r. st_id r = step_id) st_workflow_run_id))) (\<lambda>workflow_run_id.
     bindP (localP (notify_engine (StepCompleted workflow_run_id))) (\<lambda>_. Return (Inr True)))))))"

definition start_schedule_workflow_prog ::
  "ext \<Rightarrow> clock \<Rightarrow> uuid \<Rightarrow> (nat \<Rightarrow> uuid) \<Rightarrow> string \<Rightarrow> string \<Rightarrow> string \<Rightarrow> string \<Rightarrow> string \<Rightarrow> string \<Rightarrow> (server, err + unit) prog" where
  "start_schedule_workflow_prog X clk run_id step_ids schedule_id namespace workflow_name task_queue job_id timeouts_json =
     bindP (dbP (insert_workflow X
         (schedule_instance X clk run_id schedule_id namespace workflow_name task_queue job_id timeouts_json))) (\<lambda>_.
     bindP (forP (\<lambda>(index, step_def).
                dbP (insert_workflow_step X clk
                  (new_step run_id step_ids index step_def (schedule_step_args job_id step_def))))
              (enumerate 0 (get_schedule_workflow_definition workflow_name))) (\<lambda>_.
     localP (send_event (WorkflowCreated run_id))))"

text \<open>The calls that start a workflow and that report a failure.\<close>

definition start_workflow_prog ::
  "ext \<Rightarrow> clock \<Rightarrow> uuid \<Rightarrow> (nat \<Rightarrow> uuid) \<Rightarrow> StartWorkflowRequest \<Rightarrow> (server, status + string) prog" where
  "start_workflow_prog X clk run_id step_ids req =
     bindP (mapErrP (Internal ''Failed to create workflow'') (dbP (insert_workflow X (new_workflow run_id req)))) (\<lambda>_.
     bindP (forP (\<lambda>(index, step_def).
                mapErrP (Internal ''Failed to create step'')
                  (dbP (insert_workflow_step X clk
                     (new_step run_id step_ids index step_def (step_args (swr_args req) step_def)))))
              (enumerate 0 (get_workflow_definition (swr_workflow_name req)))) (\<lambda>_.
     bindP (localP (notify_engine (WorkflowCreated run_id))) (\<lambda>_. Return (Inr run_id))))"

definition retry_or_fail_prog ::
  "ext \<Rightarrow> clock \<Rightarrow> sqltext \<Rightarrow> RetryPolicy \<Rightarrow> u32 \<Rightarrow> (server, status + bool) prog" where
  "retry_or_fail_prog X clk step_id retry_policy current_attempt =
     (if current_attempt < maximum_attempts retry_policy then
        (case add_secs X (utc_now clk) (backoff_secs retry_policy (current_attempt - 1)) of
           None \<Rightarrow> Return (Inl HandlerPanic)
         | Some next_retry_at \<Rightarrow>
             bindP (mapErrP (Internal ''Failed to schedule retry'')
                      (dbP (update_step_state X step_id Pending (Some current_attempt) None (Some next_retry_at))))
               (\<lambda>_. Return (Inr True)))
      else
        bindP (mapErrP (Internal ''Failed to mark step as failed'')
                 (dbP (update_step_state X step_id Failed (Some current_attempt) None None)))
          (\<lambda>_. Return (Inr False)))"

definition report_activity_failure_prog ::
  "ext \<Rightarrow> clock \<Rightarrow> sqltext \<Rightarrow> string \<Rightarrow> (server, status + bool) prog" where
  "report_activity_failure_prog X clk activity_id error_message =
     bindP (mapErrP (Internal ''Failed to find activity'')
              (dbP (query_row activities (\<lambda>r. ac_id r = activity_id)
                 (\<lambda>r. (ac_step_id r, i64_as_u32 (ac_attempt r)))))) (\<lambda>(step_id, attempt).
     bindP (mapErrP (Internal ''Failed to get retry policy'')
              (dbP (query_row workflow_steps (\<lambda>r. st_id r = step_id) st_retry_policy_json))) (\<lambda>retry_policy_json.
     bindP (Return (case retry_from_str X retry_policy_json of
                      Some p \<Rightarrow> Inr p
                    | None \<Rightarrow> Inl (Internal ''Invalid retry policy JSON'' SerdeErr))) (\<lambda>retry_policy.
     bindP (mapErrP (Internal ''Failed to update activity'')
              (dbP (update_activity_state X clk activity_id Activity_Failed None (Some error_message)))) (\<lambda>_.
     bindP (retry_or_fail_prog X clk step_id retry_policy (attempt + 1)) (\<lambda>_. Return (Inr True))))))"

text \<open>The engine's turns. Setting a timer is a step in memory.\<close>

definition schedule_retry_timers_prog :: "ext \<Rightarrow> clock \<Rightarrow> sqltext \<Rightarrow> (server, err + unit) prog" where
  "schedule_retry_timers_prog X clk run_id =
     bindP (dbP (okE ())) (\<lambda>stmt.
     bindP (lenientP [] (\<lambda>d. map (\<lambda>r. (st_id r, the (st_next_retry_at r)))
              (filter (\<lambda>r. st_workflow_run_id r = run_id \<and> st_state r = ''retried'' \<and> st_next_retry_at r \<noteq> None)
                (workflow_steps d)))) (\<lambda>steps.
     forP (\<lambda>(step_id, next_retry_at).
        case parse_tz X next_retry_at date_fmt of
          Some retry_at \<Rightarrow> localP (schedule_retry_timer clk step_id retry_at)
        | None \<Rightarrow> Return (Inr ())) steps))"

definition schedule_heartbeat_timers_prog :: "ext \<Rightarrow> clock \<Rightarrow> sqltext \<Rightarrow> (server, err + unit) prog" where
  "schedule_heartbeat_timers_prog X clk run_id =
     bindP (dbP (okE ())) (\<lambda>stmt.
     bindP (lenientP [] (\<lambda>d. map (\<lambda>(a, ws). (ac_id a, heartbeat_reference a, st_heartbeat_timeout_secs ws))
              (filter (\<lambda>(a, ws). ac_state a = ''running'' \<and> st_workflow_run_id ws = run_id) (join_activities d)))) (\<lambda>acts.
     forP (\<lambda>(activity_id, reference, timeout_secs).
        case timeout_secs of
          None \<Rightarrow> Return (Inr ())
        | Some timeout \<Rightarrow>
            (case reference of
               None \<Rightarrow> Return (Inr ())
             | Some txt \<Rightarrow>
                 (case parse_tz X txt date_fmt of
                    None \<Rightarrow> Return (Inr ())
                  | Some ref_time \<Rightarrow>
                      (case add_secs X ref_time timeout of
                         None \<Rightarrow> Return (Inl Panicked)
                       | Some deadline \<Rightarrow> localP (schedule_heartbeat_timer clk activity_id deadline))))) acts))"

definition advance_prog :: "ext \<Rightarrow> clock \<Rightarrow> sqltext \<Rightarrow> (server, err + unit) prog" where
  "advance_prog X clk run_id =
     bindP (process_single_workflow_prog X clk run_id) (\<lambda>_.
     bindP (schedule_retry_timers_prog X clk run_id) (\<lambda>_. schedule_heartbeat_timers_prog X clk run_id))"

definition process_workflows_prog :: "ext \<Rightarrow> clock \<Rightarrow> (server, err + unit) prog" where
  "process_workflows_prog X clk =
     bindP (dbP (okE ())) (\<lambda>stmt.
     bindP (lenientP [] (\<lambda>d. map wf_run_id (order_by_asc (\<lambda>r. null_first (wf_started_at r))
              (filter (\<lambda>r. wf_state r \<in> {''pending'', ''running''}) (workflows d))))) (\<lambda>ids.
     forP (advance_prog X clk) ids))"

definition handle_retry_due_prog :: "ext \<Rightarrow> clock \<Rightarrow> sqltext \<Rightarrow> (server, err + unit) prog" where
  "handle_retry_due_prog X clk step_id =
     bindP (dbP (query_row workflow_steps (\<lambda>r. st_id r = step_id) (\<lambda>r. (st_state r, st_workflow_run_id r))))
       (\<lambda>(state, workflow_run_id).
          if state = ''retried'' then bindP (dbP (stmt_reset_step step_id)) (\<lambda>_. advance_prog X clk workflow_run_id)
          else Return (Inr ()))"

definition handle_heartbeat_timeout_prog :: "ext \<Rightarrow> clock \<Rightarrow> sqltext \<Rightarrow> (server, err + unit) prog" where
  "handle_heartbeat_timeout_prog X clk activity_id =
     bindP (dbP (query_row activities (\<lambda>r. ac_id r = activity_id) (\<lambda>r. (ac_state r, ac_step_id r))))
       (\<lambda>(state, step_id).
          if state \<noteq> ''running'' then Return (Inr ())
          else
            bindP (lenientP [] (\<lambda>d. case find (\<lambda>r. st_id r = step_id) (workflow_steps d) of
                None \<Rightarrow> [] | Some r \<Rightarrow> st_retry_policy_json r)) (\<lambda>retry_policy_json.
            bindP (lenientP 0 (\<lambda>d. case find (\<lambda>r. ac_id r = activity_id) (activities d) of
                None \<Rightarrow> 0 | Some r \<Rightarrow> get_u32_or_default (ac_attempt r))) (\<lambda>current_attempt.
            let retry_policy = retry_policy_or_default X retry_policy_json in
            bindP (dbP (update_activity_state X clk activity_id Activity_Failed None (Some ''Heartbeat timeout''))) (\<lambda>_.
            if current_attempt < maximum_attempts retry_policy then
              (case add_secs X (utc_now clk) (backoff_secs retry_policy (saturating_sub1 current_attempt)) of
                 None \<Rightarrow> Return (Inl Panicked)
               | Some next_retry_at \<Rightarrow>
                   bindP (dbP (update_step_state X step_id Pending (Some current_attempt) None (Some next_retry_at)))
                     (\<lambda>_. localP (schedule_retry_timer clk step_id next_retry_at)))
            else
              bindP (dbP (update_step_state X step_id Failed (Some current_attempt) None None)) (\<lambda>_.
              bindP (dbP (query_row workflow_steps (\<lambda>r. st_id r = step_id) st_workflow_run_id)) (\<lambda>run_id.
                process_single_workflow_prog X clk run_id))))))"

primrec handle_event_prog :: "ext \<Rightarrow> clock \<Rightarrow> EngineEvent \<Rightarrow> (server, err + unit) prog" where
  "handle_event_prog X clk (WorkflowCreated run_id) = advance_prog X clk run_id"
| "handle_event_prog X clk (StepCompleted run_id) = advance_prog X clk run_id"
| "handle_event_prog X clk ScheduleChange = process_workflows_prog X clk"
| "handle_event_prog X clk (RetryDue step_id) = handle_retry_due_prog X clk step_id"
| "handle_event_prog X clk (HeartbeatTimeout activity_id) = handle_heartbeat_timeout_prog X clk activity_id"

text \<open>
  What the scheduler does with a due schedule. It drops the error of two queries: a schedule it cannot read
  counts as deleted, and if it cannot read the last start, the schedule counts as never started.
\<close>

definition should_fire_prog :: "ext \<Rightarrow> clock \<Rightarrow> ScheduleInfo \<Rightarrow> (server, err + bool) prog" where
  "should_fire_prog X clk info =
     (if in_spec_type info = ''cron'' then
        Return (Inr (case in_cron_expressions info of
                       Some exprs \<Rightarrow> check_cron_match X (utc_now clk) exprs
                     | None \<Rightarrow> False))
      else if in_spec_type info = ''interval'' then
        (case in_interval_seconds info of
           Some secs \<Rightarrow>
             bindP (lenientP None (max_started (in_schedule_id info))) (\<lambda>last_started.
               case last_started of
                 Some ts_str \<Rightarrow>
                   Return (bindS (sched_parse_datetime X ts_str) (\<lambda>last_run.
                     Inr (u64_as_i64 secs \<le> num_seconds_between (utc_now clk) last_run)))
               | None \<Rightarrow> Return (Inr True))
         | None \<Rightarrow> Return (Inr False))
      else Return (Inr False))"

definition terminate_existing_prog :: "clock \<Rightarrow> string \<Rightarrow> (server, err + unit) prog" where
  "terminate_existing_prog clk schedule_id =
     bindP (dbP (okE ())) (\<lambda>stmt.
     bindP (lenientP [] (\<lambda>d. map wf_run_id (filter is_active (schedule_workflows schedule_id d)))) (\<lambda>ids.
     forP (\<lambda>run_id. dbP (cancel_workflow clk run_id)) ids))"

definition apply_overlap_policy_prog :: "clock \<Rightarrow> string \<Rightarrow> string \<Rightarrow> bool \<Rightarrow> (server, err + bool) prog" where
  "apply_overlap_policy_prog clk policy schedule_id has_running =
     (if policy = ''skip'' then Return (Inr (\<not> has_running))
      else if policy = ''terminate'' then
        (if has_running then bindP (terminate_existing_prog clk schedule_id) (\<lambda>_. Return (Inr True)) else Return (Inr True))
      else Return (Inr True))"

definition process_schedule_prog ::
  "ext \<Rightarrow> clock \<Rightarrow> uuid \<Rightarrow> (nat \<Rightarrow> uuid) \<Rightarrow> string \<Rightarrow> (server, err + unit) prog" where
  "process_schedule_prog X clk run_id step_ids schedule_id =
     bindP (lenientP None (\<lambda>d. map_option (schedule_info X) (find (\<lambda>r. sr_schedule_id r = schedule_id) (schedules d)))) (\<lambda>found.
       case found of
         None \<Rightarrow> Return (Inr ())
       | Some info \<Rightarrow>
           bindP (should_fire_prog X clk info) (\<lambda>fire.
             if \<not> fire then Return (Inr ())
             else
               bindP (dbP (check_running_workflow schedule_id)) (\<lambda>has_running.
               bindP (apply_overlap_policy_prog clk (in_overlap_policy info) schedule_id has_running) (\<lambda>go.
                 if go then
                   start_schedule_workflow_prog X clk run_id step_ids schedule_id (in_namespace info)
                     (in_action_workflow_name info) (in_action_task_queue info)
                     (in_action_args_json info) (in_timeouts_json info)
                 else Return (Inr ())))))"

section \<open>Alone, the programs are the handlers\<close>

lemma run_dbP [simp]: "run (dbP m) = with_db m"
  by (simp add: dbP_def)

lemma run_lenientP [simp]: "run (lenientP none q) = with_db (readE (\<lambda>d. Inr (q d)))"
  by (simp add: lenientP_def)

lemma run_process_single_workflow:
  "run (process_single_workflow_prog X clk run_id) = with_db (process_single_workflow X clk run_id)"
proof
  fix s
  show "run (process_single_workflow_prog X clk run_id) s = with_db (process_single_workflow X clk run_id) s"
    by (auto simp: process_single_workflow_prog_def process_single_workflow_def exec_simps stmt_start_workflow_eq
        run_Return split: option.split prod.split)
qed

lemma with_db_andThen: "with_db (andThen m f) = andThen (with_db m) (\<lambda>a. with_db (f a))"
  by (auto simp: fun_eq_iff exec_simps split: prod.split sum.split)

lemma with_db_mapErr: "with_db (mapErr h m) = mapErr h (with_db m)"
  by (auto simp: fun_eq_iff exec_simps split: prod.split sum.split)

lemma with_db_ignoreErr: "with_db (ignoreErr m) = ignoreErr (with_db m)"
  by (auto simp: fun_eq_iff exec_simps split: prod.split)

lemma with_db_pure: "with_db (okE a) = okE a" "with_db (errE e) = errE e"
  by (simp_all add: fun_eq_iff exec_simps)

lemma andThen_okE: "andThen (okE a) f = f a"
  by (simp add: fun_eq_iff exec_simps)

lemma with_db_forE: "with_db (forE f xs) = forE (\<lambda>x. with_db (f x)) xs"
proof
  fix s show "with_db (forE f xs) s = forE (\<lambda>x. with_db (f x)) xs s"
  proof (induction xs arbitrary: s)
    case (Cons x xs)
    show ?case by (auto simp: exec_simps Cons.IH [symmetric, unfolded with_db_def] split: prod.split sum.split)
  qed (simp add: exec_simps)
qed

lemmas with_db_simps = with_db_andThen with_db_mapErr with_db_ignoreErr with_db_pure with_db_forE andThen_okE
lemmas run_simps = run_Return prod.case_distrib [of run] option.case_distrib [of run] if_distrib [of run]

lemma run_poll_activity: "run (poll_activity_prog X clk aid req) = poll_activity X clk aid req"
proof -
  have "run (assign_step_prog X clk aid s) = with_db (assign_step X clk aid s)" for s
    by (simp add: assign_step_prog_def assign_step_def Let_def with_db_simps)
  then show ?thesis
    unfolding poll_activity_prog_def poll_activity_def
    by (auto simp: run_Return with_db_simps intro!: arg_cong2 [where f = andThen] split: option.split)
qed

lemma run_report_activity_result: "run (report_activity_result_prog X clk aid txt) = report_activity_result X clk aid txt"
  unfolding report_activity_result_prog_def report_activity_result_def
  by (rule ext) (simp add: run_Return exec_simps split: option.split)

lemma run_start_schedule_workflow:
  "run (start_schedule_workflow_prog X clk run_id ids sid ns nm tq job tmo) =
     start_schedule_workflow X clk run_id ids sid ns nm tq job tmo"
  by (simp add: start_schedule_workflow_prog_def start_schedule_workflow_def prod.case_distrib [of run])

lemma run_start_workflow: "run (start_workflow_prog X clk run_id ids req) = start_workflow X clk run_id ids req"
  by (simp add: start_workflow_prog_def start_workflow_def prod.case_distrib [of run] run_Return)

lemma run_retry_or_fail: "run (retry_or_fail_prog X clk sid pol n) = with_db (retry_or_fail X clk sid pol n)"
  by (auto simp: retry_or_fail_prog_def retry_or_fail_def with_db_simps run_simps split: option.split)

lemma run_report_activity_failure: "run (report_activity_failure_prog X clk aid msg) = report_activity_failure X clk aid msg"
  unfolding report_activity_failure_prog_def report_activity_failure_def
  by (rule ext) (simp add: run_Return run_retry_or_fail exec_simps split: option.split prod.split sum.split)

lemma run_timers:
  "run (schedule_retry_timers_prog X clk run_id) = schedule_retry_timers_for_workflow X clk run_id"
  "run (schedule_heartbeat_timers_prog X clk run_id) = schedule_heartbeat_timers_for_workflow X clk run_id"
  by (simp_all add: schedule_retry_timers_prog_def schedule_retry_timers_for_workflow_def schedule_heartbeat_timers_prog_def
      schedule_heartbeat_timers_for_workflow_def with_db_simps run_simps cong: option.case_cong)

lemma run_advance: "run (advance_prog X clk run_id) = handle_workflow_created X clk run_id"
  by (simp add: advance_prog_def handle_workflow_created_def schedule_timers_for_workflow_def run_process_single_workflow run_timers)

lemma run_handle_event: "logErr (run (handle_event_prog X clk ev)) = handle_event X clk ev"
proof (cases ev)
  case (HeartbeatTimeout aid)
  have "run (handle_heartbeat_timeout_prog X clk aid) s = handle_heartbeat_timeout X clk aid s" for s
    unfolding handle_heartbeat_timeout_prog_def handle_heartbeat_timeout_def
    by (cases "find (\<lambda>r. ac_id r = aid) (activities (srv_db s))")
      (auto simp: query_row_def exec_simps Let_def run_simps run_process_single_workflow update_activity_state_eq update_step_state_eq split: option.split)
  then have "run (handle_heartbeat_timeout_prog X clk aid) = handle_heartbeat_timeout X clk aid" ..
  with HeartbeatTimeout show ?thesis by (simp add: handle_event_def)
qed (simp_all add: handle_event_def run_advance handle_step_completed_def handle_workflow_created_def process_workflows_prog_def
    process_workflows_def handle_retry_due_prog_def handle_retry_due_def with_db_simps run_simps cong: if_cong)

lemma run_apply_overlap_policy:
  "run (apply_overlap_policy_prog clk pol sid b) = with_db (apply_overlap_policy clk pol sid b)"
  by (simp add: apply_overlap_policy_prog_def apply_overlap_policy_def terminate_existing_prog_def terminate_existing_def
      with_db_simps run_simps)

lemma run_process_schedule: "run (process_schedule_prog X clk run_id ids sid) = process_schedule X clk run_id ids sid"
proof -
  have fire: "run (should_fire_prog X clk info) = with_db (should_fire X clk info)" for info
    by (auto simp: fun_eq_iff should_fire_prog_def should_fire_def check_interval_def exec_simps split: option.split)
  show ?thesis
    unfolding process_schedule_prog_def process_schedule_def
    by (simp add: run_simps fire run_apply_overlap_policy run_start_schedule_workflow cong: option.case_cong if_cong)
qed

text \<open>
  The programs are the handlers cut into statements: when nothing interferes and no statement is
  refused, every turn of the engine, a poll, the reports of a result and of a failure, the call that starts a
  workflow and the firing of a schedule compute what their definitions as whole computations say.
\<close>

lemma programs_are_handlers:
  "logErr (run (handle_event_prog X clk ev)) = handle_event X clk ev \<and>
   run (poll_activity_prog X clk aid req) = poll_activity X clk aid req \<and>
   run (report_activity_result_prog X clk aid txt) = report_activity_result X clk aid txt \<and>
   run (report_activity_failure_prog X clk aid msg) = report_activity_failure X clk aid msg \<and>
   run (start_workflow_prog X clk run_id ids start) = start_workflow X clk run_id ids start \<and>
   run (process_schedule_prog X clk run_id ids sid) = process_schedule X clk run_id ids sid"
  by (intro conjI run_handle_event run_poll_activity run_report_activity_result run_report_activity_failure
      run_start_workflow run_process_schedule)

section \<open>Invariants between statements\<close>

text \<open>The tasks that run at the same time: turns of the engine, calls, and schedules that fire.\<close>

datatype task =
    Turn EngineEvent
  | Poll uuid PollActivityRequest
  | Report sqltext string
  | ReportFailure sqltext string
  | StartCall uuid "nat \<Rightarrow> uuid" StartWorkflowRequest
  | CancelCall sqltext
  | Beat sqltext
  | Fire uuid "nat \<Rightarrow> uuid" string

primrec task_prog :: "ext \<Rightarrow> clock \<Rightarrow> task \<Rightarrow> (server, unit) prog" where
  "task_prog X clk (Turn ev) = mapP (\<lambda>_. ()) (handle_event_prog X clk ev)"
| "task_prog X clk (Poll aid req) = mapP (\<lambda>_. ()) (poll_activity_prog X clk aid req)"
| "task_prog X clk (Report aid txt) = mapP (\<lambda>_. ()) (report_activity_result_prog X clk aid txt)"
| "task_prog X clk (ReportFailure aid msg) = mapP (\<lambda>_. ()) (report_activity_failure_prog X clk aid msg)"
| "task_prog X clk (StartCall run_id ids req) = mapP (\<lambda>_. ()) (start_workflow_prog X clk run_id ids req)"
| "task_prog X clk (CancelCall run_id) = mapP (\<lambda>_. ()) (dbP (cancel_workflow clk run_id))"
| "task_prog X clk (Beat aid) = mapP (\<lambda>_. ()) (dbP (heartbeat_update clk aid))"
| "task_prog X clk (Fire run_id ids sid) = mapP (\<lambda>_. ()) (process_schedule_prog X clk run_id ids sid)"

context db_client
begin

lemma all_steps_dbP: "keeps I m \<Longrightarrow> all_steps (on_db I) (dbP m)"
  unfolding dbP_def by (intro inv_rules)

lemma all_steps_lenientP: "all_steps (on_db I) (lenientP none q)"
  unfolding lenientP_def by (intro inv_rules)

lemma all_steps_process: "all_steps (on_db I) (process_single_workflow_prog X clk run_id)"
  unfolding process_single_workflow_prog_def by (intro inv_rules client_rules all_steps_dbP all_steps_lenientP)

lemma all_steps_poll: "all_steps (on_db I) (poll_activity_prog X clk aid req)"
  unfolding poll_activity_prog_def assign_step_prog_def by (intro inv_rules client_rules all_steps_dbP)

lemma all_steps_report: "all_steps (on_db I) (report_activity_result_prog X clk aid txt)"
  unfolding report_activity_result_prog_def by (intro inv_rules client_rules all_steps_dbP)

lemma all_steps_start: "all_steps (on_db I) (start_schedule_workflow_prog X clk run_id ids sid ns nm tq job tmo)"
  unfolding start_schedule_workflow_prog_def by (intro inv_rules client_rules all_steps_dbP)

lemma all_steps_failure: "all_steps (on_db I) (report_activity_failure_prog X clk aid msg)"
  unfolding report_activity_failure_prog_def retry_or_fail_prog_def by (intro inv_rules client_rules all_steps_dbP)

lemma all_steps_start_call: "all_steps (on_db I) (start_workflow_prog X clk run_id ids req)"
  unfolding start_workflow_prog_def by (intro inv_rules client_rules all_steps_dbP)

lemma all_steps_advance: "all_steps (on_db I) (advance_prog X clk run_id)"
  unfolding advance_prog_def schedule_retry_timers_prog_def schedule_heartbeat_timers_prog_def
    schedule_retry_timer_def schedule_heartbeat_timer_def
  by (intro inv_rules all_steps_process all_steps_dbP all_steps_lenientP)

lemma all_steps_heartbeat_timeout: "all_steps (on_db I) (handle_heartbeat_timeout_prog X clk aid)"
  unfolding handle_heartbeat_timeout_prog_def schedule_retry_timer_def Let_def
  by (intro inv_rules client_rules all_steps_process all_steps_dbP all_steps_lenientP)

lemma all_steps_turn: "all_steps (on_db I) (handle_event_prog X clk ev)"
  by (cases ev)
    (simp_all add: all_steps_advance all_steps_heartbeat_timeout process_workflows_prog_def handle_retry_due_prog_def,
     (intro inv_rules client_rules all_steps_advance all_steps_dbP all_steps_lenientP)+)

lemma all_steps_fire: "all_steps (on_db I) (process_schedule_prog X clk run_id ids sid)"
  unfolding process_schedule_prog_def should_fire_prog_def apply_overlap_policy_prog_def terminate_existing_prog_def
    check_running_workflow_def
  by (intro inv_rules client_rules all_steps_start all_steps_dbP all_steps_lenientP)

lemma all_steps_task: "all_steps (on_db I) (task_prog X clk k)"
  by (cases k) (simp_all add: all_steps_turn all_steps_poll all_steps_report all_steps_failure all_steps_start_call
      all_steps_fire all_steps_dbP client_rules)

end

text \<open>
  Any number of these tasks at once: a task is spawned, or one of them does its next step. Clocks
  and identifiers are those of each task.
\<close>

inductive pool_step :: "ext \<Rightarrow> (server, unit) prog list \<times> server \<Rightarrow> (server, unit) prog list \<times> server \<Rightarrow> bool" for X where
  spawn: "pool_step X (ps, s) (ps @ [task_prog X clk k], s)"
| advance: "\<lbrakk>i < length ps; own_step (ps ! i, s) (p, t)\<rbrakk> \<Longrightarrow> pool_step X (ps, s) (ps[i := p], t)"

definition pool_ok :: "(db \<Rightarrow> bool) \<Rightarrow> (server, unit) prog list \<times> server \<Rightarrow> bool" where
  "pool_ok I c \<longleftrightarrow> on_db I (snd c) \<and> (\<forall>p \<in> set (fst c). all_steps (on_db I) p)"

context db_client
begin

lemma pool_step_keeps: "pool_step X c c' \<Longrightarrow> pool_ok I c \<Longrightarrow> pool_ok I c'"
proof (induction rule: pool_step.induct)
  case (spawn ps s clk k)
  then show ?case by (auto simp: pool_ok_def all_steps_task)
next
  case (advance i ps s p t)
  then have "all_steps (on_db I) p \<and> on_db I t"
    by (intro all_steps_own [OF _ _ advance(2)]) (auto simp: pool_ok_def)
  with advance show ?case
    by (auto simp: pool_ok_def dest: set_update_subset_insert [THEN subsetD])
qed

end

lemma pool_ok_init: "I migrate \<Longrightarrow> pool_ok I ([], init_server)"
  by (simp add: pool_ok_def on_db_def init_server_def)

interpretation pool_schema: step_invariant "([], init_server)" "pool_step X" "pool_ok schema_ok" for X
  by unfold_locales (blast intro: pool_ok_init schema_ok_migrate schema.pool_step_keeps)+

lemma no_retried_migrate: "no_retried migrate"
  by (simp add: no_retried_def migrate_def)

interpretation pool_retried: step_invariant "([], init_server)" "pool_step X" "pool_ok no_retried" for X
  by unfold_locales (blast intro: pool_ok_init no_retried_migrate retried.pool_step_keeps)+

text \<open>
  C4: the invariants of the database hold between any two statements: whatever number of engine
  turns, calls of the services and firing schedules run at once, in any interleaving of their statements
  and whichever of these the database refuses, the schema holds and no step is in the state \<open>retried\<close>.
\<close>

theorem interleaved_invariants:
  assumes "(pool_step X)\<^sup>*\<^sup>* ([], init_server) (ps, s)"
  shows "schema_ok (srv_db s) \<and> no_retried (srv_db s)"
  using pool_schema.at_reachable [OF assms] pool_retried.at_reachable [OF assms] by (simp add: pool_ok_def on_db_def)

text \<open>
  A call that starts a workflow inserts its row; the engine, with a turn of its own, sets it to running; then the
  insertion of the first step is refused, and the call ends with an error.
\<close>

definition sample_start :: "(server, unit) prog" where
  "sample_start = task_prog ref_ext sample_clock (StartCall ''r'' (\<lambda>n. ''s'') sample_request)"

definition sample_turn :: "(server, unit) prog" where
  "sample_turn = task_prog ref_ext sample_clock (Turn (StepCompleted ''r''))"

lemma sample_start_refused:
  "\<exists>p s. own_step (sample_start, init_server) (p, s) \<and> (\<forall>t. own_step (p, t) (Return (), t)) \<and>
     map wf_run_id (workflows (srv_db s)) = [''r''] \<and> map wf_state (workflows (srv_db s)) = [''pending''] \<and> workflow_steps (srv_db s) = []"
proof -
  let ?row = "workflow_to_row ref_ext (new_workflow ''r'' sample_request)"
  let ?s = "init_server\<lparr>srv_db := (srv_db init_server)\<lparr>workflows := [?row]\<rparr>\<rparr>"
  have row: "wf_run_id ?row = ''r''" "wf_state ?row = ''pending''"
    by (simp_all add: workflow_to_row_def new_workflow_def workflow_state_to_str_def)
  then have "with_db (insert_workflow ref_ext (new_workflow ''r'' sample_request)) init_server = (Inr (), ?s)"
    by (simp add: with_db_def insert_workflow_def exec_insert_workflow_def wf_check_def init_server_def migrate_def)
  from own_mapP [OF own_mapErrP(1) [where m = "with_db (insert_workflow ref_ext (new_workflow ''r'' sample_request))", OF this]]
  have "\<exists>p. own_step (sample_start, init_server) (p, ?s) \<and> (\<forall>t. own_step (p, t) (Return (), t))"
    unfolding sample_start_def task_prog.simps start_workflow_prog_def dbP_def sample_request_steps
    by (intro exI conjI allI) (assumption, simp add: dbP_def stmtP_def mapErrP_def)
  moreover have "workflow_steps (srv_db ?s) = []" by (simp add: init_server_def migrate_def)
  ultimately show ?thesis using row by (elim exE conjE) (intro exI [of _ ?s] exI conjI, simp_all)
qed

lemma sample_turn_starts:
  "\<exists>p t. own_step (sample_turn, s) (p, t) \<and> srv_db t = mark_started sample_clock ''r'' (srv_db s)"
proof -
  have "with_db (stmt_start_workflow sample_clock ''r'') s =
      (Inr (count_where (\<lambda>r. wf_run_id r = ''r'' \<and> wf_state r = ''pending'') (workflows (srv_db s))), s\<lparr>srv_db := mark_started sample_clock ''r'' (srv_db s)\<rparr>)"
    by (simp add: with_db_def stmt_start_workflow_eq)
  from own_mapP [OF own_stmtP [where m = "with_db (stmt_start_workflow sample_clock ''r'')", OF this]] show ?thesis
    unfolding sample_turn_def task_prog.simps handle_event_prog.simps advance_prog_def process_single_workflow_prog_def dbP_def bindP_assoc
    by (intro exI conjI) (assumption | simp)+
qed

theorem interleaved_invariants_witness:
  "\<exists>ps s. (pool_step ref_ext)\<^sup>*\<^sup>* ([], init_server) (Return () # ps, s) \<and> map wf_state (workflows (srv_db s)) = [''running''] \<and>
     workflow_steps (srv_db s) = [] \<and> schema_ok (srv_db s) \<and> no_retried (srv_db s)"
proof -
  obtain p s where start: "own_step (sample_start, init_server) (p, s)" "\<forall>t. own_step (p, t) (Return (), t)"
    and rows: "map wf_run_id (workflows (srv_db s)) = [''r'']" "map wf_state (workflows (srv_db s)) = [''pending'']" "workflow_steps (srv_db s) = []"
    using sample_start_refused by (elim exE conjE)
  obtain q t where turn: "own_step (sample_turn, s) (q, t)" "srv_db t = mark_started sample_clock ''r'' (srv_db s)"
    using sample_turn_starts [of s] by (elim exE conjE)
  have "pool_step ref_ext ([], init_server) ([sample_start], init_server)"
    "pool_step ref_ext ([sample_start], init_server) ([sample_start, sample_turn], init_server)"
    using pool_step.spawn [of ref_ext "[]" init_server sample_clock] pool_step.spawn [of ref_ext "[sample_start]" init_server sample_clock]
    by (simp_all only: sample_start_def sample_turn_def append.simps)
  moreover have "pool_step ref_ext ([sample_start, sample_turn], init_server) ([p, sample_turn], s)"
    "pool_step ref_ext ([p, sample_turn], s) ([p, q], t)" "pool_step ref_ext ([p, q], t) ([Return (), q], t)"
    using pool_step.advance [of 0 "[sample_start, sample_turn]"] pool_step.advance [of 1 "[p, sample_turn]"]
      pool_step.advance [of 0 "[p, q]"] start turn(1) by simp_all
  ultimately have reached: "(pool_step ref_ext)\<^sup>*\<^sup>* ([], init_server) ([Return (), q], t)"
    by (meson converse_rtranclp_into_rtranclp rtranclp.rtrancl_refl)
  have "workflow_steps (srv_db t) = []" "map wf_state (workflows (srv_db t)) = [''running'']"
    using rows by (auto simp: turn(2) mark_started_def update_where_def)
  with reached interleaved_invariants [OF reached] show ?thesis by (intro exI [of _ "[q]"] exI [of _ t]) simp
qed

end
