(* ===== verification/Interference.thy ===== *)
theory Interference
  imports Handler_Programs
begin

text \<open>
  What remains true of the handlers when the statements of other tasks fall between their own: the engine's
  verdict and the answer of a poll, by rely and guarantee; and what goes wrong where a transaction is missing.
\<close>

section \<open>The verdict in company\<close>

text \<open>
  \<open>all_done\<close>: the run has steps, and all are completed. The engine relies on the other tasks to leave it
  so; it guarantees that it writes only to the workflow's row, and \<open>completed\<close> only when all is done.
\<close>

definition all_done :: "sqltext \<Rightarrow> server \<Rightarrow> bool" where
  "all_done run_id s \<longleftrightarrow> steps_of run_id (srv_db s) \<noteq> [] \<and> (\<forall>r \<in> set (steps_of run_id (srv_db s)). st_state r = ''completed'')"

definition keeps_done :: "sqltext \<Rightarrow> server \<Rightarrow> server \<Rightarrow> bool" where
  "keeps_done run_id s t \<longleftrightarrow> (all_done run_id s \<longrightarrow> all_done run_id t)"

definition wf_moved :: "sqltext \<Rightarrow> bool \<Rightarrow> wf_row \<Rightarrow> wf_row \<Rightarrow> bool" where
  "wf_moved run_id may_complete r r' \<longleftrightarrow> r' = r \<or>
     wf_run_id r = run_id \<and> wf_run_id r' = run_id \<and> (wf_state r' = ''completed'' \<longrightarrow> may_complete)"

definition engine_writes :: "sqltext \<Rightarrow> server \<Rightarrow> server \<Rightarrow> bool" where
  "engine_writes run_id s t \<longleftrightarrow> (\<exists>ws. t = s\<lparr>srv_db := (srv_db s)\<lparr>workflows := ws\<rparr>\<rparr> \<and>
     list_all2 (wf_moved run_id (all_done run_id s)) (workflows (srv_db s)) ws)"

interpretation done_kept: rely "keeps_done run_id" for run_id
  by unfold_locales (auto simp: keeps_done_def)

lemma engine_writes_refl: "engine_writes run_id s s"
  unfolding engine_writes_def
  by (rule exI [of _ "workflows (srv_db s)"]) (simp add: wf_moved_def list.rel_refl_strong)

lemma engine_writes_update:
  assumes "\<And>r. P r \<Longrightarrow> wf_run_id r = run_id" "\<And>r. wf_run_id (f r) = wf_run_id r"
    and "\<And>r. wf_state (f r) = ''completed'' \<Longrightarrow> all_done run_id s"
  shows "engine_writes run_id s (s\<lparr>srv_db := (srv_db s)\<lparr>workflows := update_where P f (workflows (srv_db s))\<rparr>\<rparr>)"
  unfolding engine_writes_def
  by (intro exI conjI, rule refl)
    (use assms in \<open>auto simp: update_where_def list_all2_conv_all_nth wf_moved_def\<close>)

lemma completed_count_done:
  assumes "step_counts run_id (srv_db s) = (n, c, f)" "0 < n" "c = n"
  shows "all_done run_id s"
  using assms count_where_all [of "\<lambda>r. st_state r = ''completed''" "steps_of run_id (srv_db s)"]
  by (auto simp: step_counts_def all_done_def)

lemma rg_readP:
  assumes "\<And>t u. keeps_done run_id s t \<Longrightarrow> keeps_done run_id t u \<Longrightarrow> Q (Inr (q (srv_db t))) u"
    and "\<And>t. keeps_done run_id s t \<Longrightarrow> Q busy t"
  shows "rg (keeps_done run_id) (engine_writes run_id) Q (stmtP busy (with_db (readE (\<lambda>d. Inr (q d))))) s"
  by (rule done_kept.rg_stmtP) (simp_all add: with_db_def readE_def engine_writes_refl assms)

lemma rg_writeP:
  assumes "\<And>t. keeps_done run_id s t \<Longrightarrow> engine_writes run_id t (snd (with_db m t))"
  shows "rg (keeps_done run_id) (engine_writes run_id) (\<lambda>_ _. True) (dbP m) s"
  unfolding dbP_def by (rule done_kept.rg_stmtP) (simp_all add: assms)

lemma rg_process:
  "rg (keeps_done run_id) (engine_writes run_id) (\<lambda>_ _. True) (process_single_workflow_prog X clk run_id) s"
proof -
  let ?rg = "rg (keeps_done run_id) (engine_writes run_id) (\<lambda>_ _. True)"
  let ?finish = "\<lambda>st. dbP (update_workflow_state X run_id st None (Some (utc_now clk)))"
  have start: "?rg (dbP (stmt_start_workflow clk run_id)) t" for t
    by (rule rg_writeP) (simp add: with_db_def stmt_start_workflow_eq mark_started_def, rule engine_writes_update, simp_all)
  have read: "?rg (dbP (readE (\<lambda>d. Inr (q d)))) t" for q :: "db \<Rightarrow> 'b" and t
    unfolding dbP_def by (rule rg_readP) simp_all
  have prepare: "?rg (dbP (okE ())) t" for t
    by (rule rg_writeP) (simp add: with_db_def okE_def engine_writes_refl)
  have finish: "?rg (?finish st) t" if "st = Failed \<or> st = Completed \<and> all_done run_id t" for st t
    using that
    by (intro rg_writeP) (simp add: with_db_def update_workflow_state_finish finish_workflow_def,
        rule engine_writes_update, auto simp: finish_row_def workflow_state_to_str_def keeps_done_def)
  have counts: "?rg (bindP (dbP (readE (\<lambda>d. Inr (step_counts run_id d)))) (\<lambda>(n, c, f).
      if 0 < n then (if 0 < f then ?finish Failed else if c = n then ?finish Completed else Return (Inr ()))
      else Return (Inr ()))) t" for t
    unfolding dbP_def
    by (rule done_kept.rg_bindP, rule rg_readP)
      (auto simp: keeps_done_def finish [unfolded dbP_def] split: prod.split dest: completed_count_done)
  show ?thesis
    unfolding process_single_workflow_prog_def lenientP_def
    by (rule done_kept.rg_bind_any [OF start] done_kept.rg_bind_any [OF prepare])+
      (rule done_kept.rg_bind_any [OF rg_readP], auto simp: counts intro!: done_kept.rg_bind_any read split: option.split)
qed

section \<open>A poll in company\<close>

text \<open>
  A poll relies on the other tasks to leave the stored steps and the activities alone; they may add steps. The
  identifiers of the steps are distinct, and each is the text of its UUID.
\<close>

definition steps_ok :: "ext \<Rightarrow> server \<Rightarrow> bool" where
  "steps_ok X s \<longleftrightarrow> distinct (map st_id (workflow_steps (srv_db s))) \<and>
     (\<forall>r \<in> set (workflow_steps (srv_db s)). uuid_parse X (st_id r) = Some (st_id r))"

definition steps_left_alone :: "ext \<Rightarrow> server \<Rightarrow> server \<Rightarrow> bool" where
  "steps_left_alone X s t \<longleftrightarrow> (\<exists>new. workflow_steps (srv_db t) = workflow_steps (srv_db s) @ new) \<and>
     activities (srv_db t) = activities (srv_db s) \<and> (steps_ok X s \<longrightarrow> steps_ok X t)"

interpretation left_alone: rely "steps_left_alone X" for X
  by unfold_locales (auto simp: steps_left_alone_def)

definition keeps_all_done :: "server \<Rightarrow> server \<Rightarrow> bool" where
  "keeps_all_done s t \<longleftrightarrow> (\<forall>run_id. keeps_done run_id s t)"

lemma keeps_all_done_steps: "workflow_steps (srv_db t) = workflow_steps (srv_db s) \<Longrightarrow> keeps_all_done s t"
  by (simp add: keeps_all_done_def keeps_done_def all_done_def steps_of_def)

definition step_in :: "sqltext \<Rightarrow> sqltext \<Rightarrow> server \<Rightarrow> bool" where
  "step_in state sid s \<longleftrightarrow> (\<exists>r \<in> set (workflow_steps (srv_db s)). st_id r = sid \<and> st_state r = state)"

definition attempt_in :: "sqltext \<Rightarrow> sqltext \<Rightarrow> server \<Rightarrow> bool" where
  "attempt_in aid sid s \<longleftrightarrow> (\<exists>a \<in> set (activities (srv_db s)). ac_id a = aid \<and> ac_step_id a = sid \<and> ac_state a = ''running'')"

lemma stable_in_company:
  "steps_left_alone X s t \<Longrightarrow> step_in state sid s \<Longrightarrow> step_in state sid t"
  "steps_left_alone X s t \<Longrightarrow> attempt_in aid sid s \<Longrightarrow> attempt_in aid sid t"
  "steps_left_alone X s t \<Longrightarrow> steps_ok X s \<Longrightarrow> steps_ok X t"
  by (auto simp: steps_left_alone_def step_in_def attempt_in_def)

text \<open>A step that is taken from \<open>pending\<close> is no step of a run that is done.\<close>

lemma steps_of_update_elsewhere:
  assumes "\<And>r. st_workflow_run_id (f r) = st_workflow_run_id r"
    and "\<And>r. r \<in> set (workflow_steps d) \<Longrightarrow> P r \<Longrightarrow> st_workflow_run_id r \<noteq> run_id"
  shows "steps_of run_id (d\<lparr>workflow_steps := update_where P f (workflow_steps d)\<rparr>) = steps_of run_id d"
proof -
  have "(\<And>r. r \<in> set rows \<Longrightarrow> P r \<Longrightarrow> st_workflow_run_id r \<noteq> run_id) \<Longrightarrow>
      filter (\<lambda>r. st_workflow_run_id r = run_id) (update_where P f rows) = filter (\<lambda>r. st_workflow_run_id r = run_id) rows" for rows
    by (induction rows) (auto simp: assms(1))
  then show ?thesis using assms(2) by (simp add: steps_of_def)
qed

lemma take_pending_step:
  assumes "step_in ''pending'' sid s" "distinct (map st_id (workflow_steps (srv_db s)))"
  shows "keeps_all_done s (s\<lparr>srv_db := (srv_db s)\<lparr>workflow_steps :=
     update_where (\<lambda>r. st_id r = sid) (step_update X Running n None None) (workflow_steps (srv_db s))\<rparr>\<rparr>)"
proof -
  obtain r where r: "r \<in> set (workflow_steps (srv_db s))" "st_id r = sid" "st_state r = ''pending''"
    using assms(1) by (auto simp: step_in_def)
  have only: "q = r" if "q \<in> set (workflow_steps (srv_db s))" "st_id q = sid" for q
    using that r assms(2) by (auto simp: distinct_map dest: inj_onD)
  have "st_workflow_run_id r \<noteq> run_id" if "all_done run_id s" for run_id
    using that r by (auto simp: all_done_def steps_of_def)
  then have "steps_of run_id ((srv_db s)\<lparr>workflow_steps := update_where (\<lambda>r. st_id r = sid)
      (step_update X Running n None None) (workflow_steps (srv_db s))\<rparr>) = steps_of run_id (srv_db s)"
    if "all_done run_id s" for run_id
    using that only by (intro steps_of_update_elsewhere) auto
  then show ?thesis
    by (simp add: keeps_all_done_def keeps_done_def all_done_def)
qed

text \<open>What the answer of a poll says is true when the call returns.\<close>

definition poll_answer_true :: "uuid \<Rightarrow> status + PollActivityResponse \<Rightarrow> server \<Rightarrow> bool" where
  "poll_answer_true aid res s \<longleftrightarrow> (\<forall>resp task. res = Inr resp \<longrightarrow> pr_task resp = Some task \<longrightarrow>
     step_in ''running'' (at_step_id task) s \<and> attempt_in aid (at_step_id task) s)"

lemma pending_found:
  assumes "steps_ok X s" "fst (get_pending_steps X clk (srv_db s)) = Inr ps" "p \<in> set ps"
  shows "step_in ''pending'' (si_id p) s"
proof -
  obtain r where r: "r \<in> set (workflow_steps (srv_db s))" "step_ready clk r" "row_to_step X r = Inr p"
    using assms(2,3) mapM_sum_set [of "row_to_step X" "order_by_asc st_created_at (filter (step_ready clk) (workflow_steps (srv_db s)))" ps p]
    by (auto simp: get_pending_steps_def readE_def)
  have "st_id r = si_id p"
    using assms(1) r row_to_step_fields(1) [OF r(3)] by (auto simp: steps_ok_def)
  moreover have "st_state r = ''pending''"
    using r(2) row_to_step_retried [of r X] r(3) by (auto simp: step_ready_def)
  ultimately show ?thesis using r(1) by (auto simp: step_in_def)
qed

text \<open>The three statements that hand out the step \<open>p\<close>, each between two stable assertions.\<close>

definition handed_out :: "uuid \<Rightarrow> uuid \<Rightarrow> server \<Rightarrow> bool" where
  "handed_out aid sid s \<longleftrightarrow> step_in ''running'' sid s \<and> attempt_in aid sid s"

lemma rg_take_step:
  assumes "steps_ok X s \<and> step_in ''pending'' (si_id p) s"
  shows "rg (steps_left_alone X) keeps_all_done (\<lambda>res t. res = Inr () \<longrightarrow> step_in ''running'' (si_id p) t)
    (dbP (update_step_state X (si_id p) Running (Some n) None None)) s"
  unfolding dbP_def
proof (rule left_alone.rg_stmt_stable [where P = "\<lambda>s. steps_ok X s \<and> step_in ''pending'' (si_id p) s"])
  show "steps_ok X s \<and> step_in ''pending'' (si_id p) s" by (rule assms)
next
  fix t assume t: "steps_ok X t \<and> step_in ''pending'' (si_id p) t"
  then obtain r where "r \<in> set (workflow_steps (srv_db t))" "st_id r = si_id p" by (auto simp: step_in_def)
  then have "step_update X Running (Some n) None None r \<in>
      set (update_where (\<lambda>r. st_id r = si_id p) (step_update X Running (Some n) None None) (workflow_steps (srv_db t)))"
    "st_id (step_update X Running (Some n) None None r) = si_id p"
    by (auto simp: set_update_where)
  then have "step_in ''running'' (si_id p) (snd (with_db (update_step_state X (si_id p) Running (Some n) None None) t))"
    unfolding step_in_def
    by (intro bexI [of _ "step_update X Running (Some n) None None r"])
      (simp_all add: with_db_def update_step_state_eq step_state_to_str_def)
  with t take_pending_step [of "si_id p" t X "Some n"]
  show "keeps_all_done t (snd (with_db (update_step_state X (si_id p) Running (Some n) None None) t)) \<and>
     (fst (with_db (update_step_state X (si_id p) Running (Some n) None None) t) = Inr () \<longrightarrow>
      step_in ''running'' (si_id p) (snd (with_db (update_step_state X (si_id p) Running (Some n) None None) t)))"
    by (simp add: steps_ok_def with_db_def update_step_state_eq)
qed (auto dest: stable_in_company)

lemma rg_record_attempt:
  assumes "step_in ''running'' sid s"
  shows "rg (steps_left_alone X) keeps_all_done (\<lambda>res t. res = Inr () \<longrightarrow> handed_out aid sid t)
    (dbP (insert_activity_attempt clk aid sid n)) s"
  unfolding dbP_def
proof (rule left_alone.rg_stmt_stable [where P = "step_in ''running'' sid"])
  show "step_in ''running'' sid s" by (rule assms)
next
  fix t assume "step_in ''running'' sid t"
  then show "keeps_all_done t (snd (with_db (insert_activity_attempt clk aid sid n) t)) \<and>
     (fst (with_db (insert_activity_attempt clk aid sid n) t) = Inr () \<longrightarrow>
      handed_out aid sid (snd (with_db (insert_activity_attempt clk aid sid n) t)))"
    by (auto simp: with_db_def insert_activity_attempt_def exec_insert_activity_def handed_out_def step_in_def
        attempt_in_def intro: keeps_all_done_steps)
qed (auto simp: handed_out_def dest: stable_in_company)

lemma rg_touch_workflow:
  fixes clk :: clock
  assumes "handed_out aid sid s"
  shows "rg (steps_left_alone X) keeps_all_done (\<lambda>_. handed_out aid sid)
    (dbP (update_workflow_state X run_id Running None (Some (utc_now clk)))) s"
  unfolding dbP_def
proof (rule left_alone.rg_stmt_stable [where P = "handed_out aid sid"])
  show "handed_out aid sid s" by (rule assms)
next
  fix t assume "handed_out aid sid t"
  then show "keeps_all_done t (snd (with_db (update_workflow_state X run_id Running None (Some (utc_now clk))) t)) \<and>
      handed_out aid sid (snd (with_db (update_workflow_state X run_id Running None (Some (utc_now clk))) t))"
    by (auto simp: with_db_def update_workflow_state_finish finish_workflow_def handed_out_def step_in_def
        attempt_in_def intro: keeps_all_done_steps)
qed (auto simp: handed_out_def dest: stable_in_company)

lemma map_sum_Inr [simp]: "map_sum h id x = Inr y \<longleftrightarrow> x = Inr y"
  by (cases x) simp_all

lemma rg_assign_step:
  assumes "steps_ok X s \<and> step_in ''pending'' (si_id p) s"
  shows "rg (steps_left_alone X) keeps_all_done (\<lambda>res t. res = Inr () \<longrightarrow> handed_out aid (si_id p) t)
    (assign_step_prog X clk aid p) s"
proof -
  note seq = left_alone.rg_bindP [where X = X] and mp = left_alone.rg_mapP [where X = X]
  show ?thesis
    unfolding assign_step_prog_def mapErrP_def ignoreErrP_def
    by (rule seq, rule mp, rule rg_mono [OF rg_take_step [OF assms]])
      (auto split: sum.split intro!: seq mp rg_mono [OF rg_record_attempt] rg_mono [OF rg_touch_workflow])
qed

lemma rg_poll:
  assumes "steps_ok X s"
  shows "rg (steps_left_alone X) keeps_all_done (poll_answer_true aid) (poll_activity_prog X clk aid req) s"
proof -
  note seq = left_alone.rg_bindP [where X = X] and mp = left_alone.rg_mapP [where X = X]
  let ?Q = "\<lambda>res t. steps_ok X t \<and> (\<forall>ps p. res = Inr ps \<longrightarrow> p \<in> set ps \<longrightarrow> step_in ''pending'' (si_id p) t)"
  have sel: "rg (steps_left_alone X) keeps_all_done ?Q (dbP (get_pending_steps X clk)) s"
    unfolding dbP_def
  proof (rule left_alone.rg_stmt_stable [where P = "steps_ok X"])
    fix t assume t: "steps_ok X t"
    have "snd (with_db (get_pending_steps X clk) t) = t" "fst (with_db (get_pending_steps X clk) t) = fst (get_pending_steps X clk (srv_db t))"
      by (simp_all add: with_db_def get_pending_steps_def readE_def)
    with t show "keeps_all_done t (snd (with_db (get_pending_steps X clk) t)) \<and>
        ?Q (fst (with_db (get_pending_steps X clk) t)) (snd (with_db (get_pending_steps X clk) t))"
      by (auto intro: keeps_all_done_steps pending_found)
  qed (use assms in \<open>auto dest: stable_in_company\<close>)
  have handed: "rg (steps_left_alone X) keeps_all_done (poll_answer_true aid) (bindP (assign_step_prog X clk aid p)
      (\<lambda>_. Return (Inr \<lparr>pr_task = Some (activity_task_of aid p), pr_has_task = True\<rparr>))) t"
    if "steps_ok X t \<and> step_in ''pending'' (si_id p) t" for p t
    by (rule seq, rule rg_mono [OF rg_assign_step [OF that]])
      (auto simp: poll_answer_true_def handed_out_def activity_task_of_def dest: stable_in_company split: sum.split)
  show ?thesis
    unfolding poll_activity_prog_def mapErrP_def
    by (rule seq, rule mp, rule rg_mono [OF sel])
      (auto simp: poll_answer_true_def split: sum.split option.split intro!: handed dest: find_SomeD)
qed

section \<open>A report in company\<close>

interpretation anything: rely "\<lambda>_ _. True"
  by unfold_locales simp_all

lemma all_done_iff:
  "all_done run_id s \<longleftrightarrow> run_id \<in> st_workflow_run_id ` set (workflow_steps (srv_db s)) \<and>
     (\<forall>r \<in> set (workflow_steps (srv_db s)). st_workflow_run_id r = run_id \<longrightarrow> st_state r = ''completed'')"
  by (auto simp: all_done_def steps_of_def filter_empty_conv)

lemma complete_step:
  "keeps_all_done s (s\<lparr>srv_db := (srv_db s)\<lparr>workflow_steps :=
     update_where (\<lambda>r. st_id r = sid) (step_update X Completed n v None) (workflow_steps (srv_db s))\<rparr>\<rparr>)"
  by (auto simp: keeps_all_done_def keeps_done_def all_done_iff image_update_where set_update_where step_state_to_str_def)

lemma rg_report:
  "rg (\<lambda>_ _. True) keeps_all_done (\<lambda>_ _. True) (report_activity_result_prog X clk aid txt) s"
proof -
  let ?rg = "rg (\<lambda>_ _. True) keeps_all_done (\<lambda>_ _. True)"
  have one: "(\<And>t. keeps_all_done t (snd (with_db m t))) \<Longrightarrow> ?rg (mapErrP h (dbP m)) t" for m :: "(db, err, 'c) exec" and h :: "err \<Rightarrow> status" and t
    unfolding mapErrP_def dbP_def by (intro anything.rg_mapP anything.rg_stmtP) simp_all
  have ac: "?rg (mapErrP h (dbP (update_activity_state X clk aid Activity_Completed v None))) t" for h :: "err \<Rightarrow> status" and v t
    by (rule one) (auto simp: with_db_def update_activity_state_eq intro: keeps_all_done_steps)
  have st: "?rg (mapErrP h (dbP (update_step_state X sid Completed None v None))) t" for h :: "err \<Rightarrow> status" and sid v t
    by (rule one) (simp add: with_db_def update_step_state_eq complete_step)
  have qr: "?rg (mapErrP h (dbP (query_row tab P get))) t" for h :: "err \<Rightarrow> status" and tab :: "db \<Rightarrow> 'r list" and P and get :: "'r \<Rightarrow> sqltext" and t
    by (rule one) (auto simp: with_db_def query_row_def intro: keeps_all_done_steps split: option.split)
  have nt: "?rg (localP (notify_engine ev) :: (server, status + unit) prog) t" for ev t
    by (rule anything.rg_localP) (auto simp: notify_engine_def intro: keeps_all_done_steps)
  show ?thesis
    unfolding report_activity_result_prog_def
    by (intro anything.rg_bind_any ac st qr nt) simp_all
qed

section \<open>The engine and a call at once\<close>

text \<open>The other tasks add steps and change workflows; they do not undo a completed step.\<close>

definition others :: "ext \<Rightarrow> sqltext \<Rightarrow> server \<Rightarrow> server \<Rightarrow> bool" where
  "others X run_id s t \<longleftrightarrow> steps_left_alone X s t \<and> keeps_done run_id s t"

lemma engine_leaves_steps: "engine_writes run_id s t \<Longrightarrow> steps_left_alone X s t"
  by (auto simp: engine_writes_def steps_left_alone_def steps_ok_def)

interpretation engine_poll: compatible "keeps_done run_id" "steps_left_alone X" "others X run_id" "engine_writes run_id" keeps_all_done
  for run_id X
  by unfold_locales (auto simp: others_def keeps_all_done_def intro: engine_leaves_steps)

interpretation engine_report: compatible "keeps_done run_id" "\<lambda>_ _. True" "others X run_id" "engine_writes run_id" keeps_all_done
  for run_id X
  by unfold_locales (auto simp: others_def keeps_all_done_def)


definition sample_done :: server where
  "sample_done = init_server\<lparr>srv_db := sample_db [] [sample_workflow ''r'' ''w'' ''pending'']
     [sample_step ''s'' ''r'' 0 ''completed'' 1] [sample_activity ''a'' ''s'' 1 ''running'']\<rparr>"

text \<open>The engine up to the moment when it has counted the steps and found them all completed.\<close>

lemma engine_counted:
  assumes "all_done run_id s"
  shows "own_step\<^sup>*\<^sup>* (process_single_workflow_prog X clk run_id, s)
    (dbP (update_workflow_state X run_id Completed None (Some (utc_now clk))), s\<lparr>srv_db := mark_started clk run_id (srv_db s)\<rparr>)"
proof -
  let ?d = "mark_started clk run_id (srv_db s)"
  have steps: "steps_of run_id ?d = steps_of run_id (srv_db s)" by (simp add: mark_started_def steps_of_def)
  have "next_step_row run_id ?d = None"
    using assms by (auto simp: next_step_row_None steps all_done_def)
  moreover have "step_counts run_id ?d = (length (steps_of run_id (srv_db s)), length (steps_of run_id (srv_db s)), 0)"
    using assms by (auto simp: step_counts_def steps all_done_def count_where_def filter_empty_conv)
  ultimately show ?thesis
    using assms unfolding process_single_workflow_prog_def lenientP_def dbP_def stmtP_def all_done_def
    by (auto simp: with_db_def stmt_start_workflow_eq okE_def readE_def
        intro!: converse_rtranclp_into_rtranclp [of own_step, OF own_step.stmt])
qed

lemma sample_done_reported:
  "\<exists>s'. run (mapP (\<lambda>_. ()) (report_activity_result_prog ref_ext sample_clock ''a'' []))
      (sample_done\<lparr>srv_db := mark_started sample_clock ''r'' (srv_db sample_done)\<rparr>) = ((), s') \<and>
     map wf_run_id (workflows (srv_db s')) = [''r''] \<and> map wf_state (workflows (srv_db s')) = [''running'']"
proof -
  let ?t = "sample_done\<lparr>srv_db := mark_started sample_clock ''r'' (srv_db sample_done)\<rparr>"
  have rows: "find (\<lambda>x. ac_id x = ''a'') (activities (srv_db ?t)) = Some (sample_activity ''a'' ''s'' 1 ''running'')"
    "find (\<lambda>x. st_id x = ac_step_id (sample_activity ''a'' ''s'' 1 ''running'')) (workflow_steps (srv_db ?t)) =
       Some (sample_step ''s'' ''r'' 0 ''completed'' 1)"
    "map wf_run_id (workflows (srv_db ?t)) = [''r'']" "map wf_state (workflows (srv_db ?t)) = [''running'']"
    by (simp_all add: sample_done_def mark_started_def sample_defs update_where_def)
  have "\<exists>res s'. report_activity_result ref_ext sample_clock ''a'' [] ?t = (res, s') \<and> workflows (srv_db s') = workflows (srv_db ?t)"
    using report_activity_result_eq [OF rows(1,2), of "[]" ref_ext "JObject []" sample_clock] by simp
  then obtain res s' where "report_activity_result ref_ext sample_clock ''a'' [] ?t = (res, s')" "workflows (srv_db s') = workflows (srv_db ?t)"
    by (elim exE conjE)
  then show ?thesis using rows(3,4) by (simp add: run_mapP run_report_activity_result)
qed


text \<open>
  C6: the verdict is not safe beside the report of a failure. If the failure of an earlier attempt is reported after the engine has counted
  the steps and before it writes its verdict, the report sends a completed step back to \<open>pending\<close>, and the engine
  completes the workflow all the same: it ends \<open>completed\<close> with a step that waits for another attempt.
\<close>

theorem late_failure_race:
  assumes "all_done run_id s"
    and act: "find (\<lambda>r. ac_id r = aid) (activities (srv_db s)) = Some a" "ac_attempt a = u32_as_i64 n"
    and step: "find (\<lambda>r. st_id r = ac_step_id a) (workflow_steps (srv_db s)) = Some r" "st_workflow_run_id r = run_id"
    and policy: "retry_from_str X (st_retry_policy_json r) = Some p" "n + 1 < maximum_attempts p"
    and delay: "add_secs X (utc_now clk') (backoff_secs p n) = Some t"
  shows "\<exists>s'. (par_step (\<lambda>_ _. False))\<^sup>*\<^sup>* (process_single_workflow_prog X clk run_id, report_activity_failure_prog X clk' aid msg, s)
      (Return (Inr ()), Return (Inr True), s') \<and>
    (\<forall>w \<in> set (workflows (srv_db s')). wf_run_id w = run_id \<longrightarrow> wf_state w = ''completed'') \<and>
    (\<exists>r' \<in> set (workflow_steps (srv_db s')). st_id r' = st_id r \<and> st_workflow_run_id r' = run_id \<and> st_state r' = ''pending'')"
proof -
  let ?q = "report_activity_failure_prog X clk' aid msg" and ?s1 = "s\<lparr>srv_db := mark_started clk run_id (srv_db s)\<rparr>"
  let ?s2 = "snd (report_activity_failure X clk' aid msg ?s1)"
  have same: "activities (mark_started clk run_id (srv_db s)) = activities (srv_db s)"
    "workflow_steps (mark_started clk run_id (srv_db s)) = workflow_steps (srv_db s)"
    by (simp_all add: mark_started_def)
  have report: "report_activity_failure X clk' aid msg ?s1 = (Inr True, ?s2) \<and>
      workflow_steps (srv_db ?s2) = update_where (\<lambda>x. st_id x = ac_step_id a) (step_update X Pending (Some (n + 1)) None (Some t)) (workflow_steps (srv_db s))"
    using report_activity_failure_eq [of aid ?s1 a n r X p clk' t msg] act step(1) policy delay by (simp add: same)
  then have "run ?q ?s1 = (Inr True, ?s2)" by (simp add: run_report_activity_failure)
  then have reached: "(par_step (\<lambda>_ _. False))\<^sup>*\<^sup>* (process_single_workflow_prog X clk run_id, ?q, s)
      (dbP (update_workflow_state X run_id Completed None (Some (utc_now clk))), Return (Inr True), ?s2)"
    by (rule rtranclp_trans [OF par_left_steps [OF engine_counted [OF assms(1)]] par_run_right])
  have "own_step (dbP (update_workflow_state X run_id Completed None (Some (utc_now clk))), ?s2)
      (Return (Inr ()), ?s2\<lparr>srv_db := finish_workflow X clk run_id Completed (srv_db ?s2)\<rparr>)"
    by (simp add: dbP_def stmtP_def with_db_def update_workflow_state_finish)
  then have "(par_step (\<lambda>_ _. False))\<^sup>*\<^sup>* (process_single_workflow_prog X clk run_id, ?q, s)
      (Return (Inr ()), Return (Inr True), ?s2\<lparr>srv_db := finish_workflow X clk run_id Completed (srv_db ?s2)\<rparr>)"
    by (rule rtranclp.rtrancl_into_rtrancl [OF reached par_step.left])
  moreover have "\<exists>r' \<in> set (workflow_steps (srv_db ?s2)). st_id r' = st_id r \<and> st_workflow_run_id r' = run_id \<and> st_state r' = ''pending''"
  proof (rule bexI)
    show "step_update X Pending (Some (n + 1)) None (Some t) r \<in> set (workflow_steps (srv_db ?s2))"
      using report find_SomeD [OF step(1)] by (auto simp: set_update_where)
  qed (simp add: step_update_def step_state_to_str_def step(2))
  ultimately show ?thesis
    by (intro exI conjI) (assumption, simp_all add: finish_workflow_def finish_row_def ball_update_where workflow_state_to_str_def)
qed

theorem late_failure_race_witness:
  "\<exists>s'. (par_step (\<lambda>_ _. False))\<^sup>*\<^sup>* (process_single_workflow_prog ref_ext sample_clock ''r'',
      report_activity_failure_prog ref_ext sample_clock ''a'' ''late'', sample_done) (Return (Inr ()), Return (Inr True), s') \<and>
    (\<forall>w \<in> set (workflows (srv_db s')). wf_run_id w = ''r'' \<longrightarrow> wf_state w = ''completed'') \<and>
    (\<exists>r' \<in> set (workflow_steps (srv_db s')). st_id r' = ''s'' \<and> st_state r' = ''pending'')"
proof -
  let ?p = "\<lparr>maximum_attempts = 3, initial_interval_secs = 2\<rparr> :: RetryPolicy" and ?r = "sample_step ''s'' ''r'' 0 ''completed'' 1"
  have "all_done ''r'' sample_done" by (simp add: all_done_def sample_done_def sample_defs steps_of_def)
  moreover have "find (\<lambda>r. ac_id r = ''a'') (activities (srv_db sample_done)) = Some (sample_activity ''a'' ''s'' 1 ''running'')"
    "ac_attempt (sample_activity ''a'' ''s'' 1 ''running'') = u32_as_i64 1"
    "find (\<lambda>r. st_id r = ac_step_id (sample_activity ''a'' ''s'' 1 ''running'')) (workflow_steps (srv_db sample_done)) = Some ?r"
    "st_workflow_run_id ?r = ''r''" "st_id ?r = ''s''"
    by (simp_all add: sample_done_def sample_defs u32_as_i64_def)
  moreover have "retry_from_str ref_ext (st_retry_policy_json ?r) = Some ?p"
    by (simp add: sample_step_def) (simp add: ref_ext_def digits_val_def)
  moreover have "backoff_secs ?p 1 = 4" using backoff_value [of ?p 2 1] by (simp add: i64_max_def)
  ultimately show ?thesis
    using late_failure_race [of "''r''" sample_done "''a''" "sample_activity ''a'' ''s'' 1 ''running''" 1 ?r ref_ext ?p sample_clock
        "1004 * nanos_per_sec" sample_clock "''late''"]
    by (simp add: sample_clock_def i64_max_def) blast
qed

text \<open>
  C7: the answer of a poll holds in company: whatever the engine and the tasks that leave the steps alone do
  between its statements and whichever of these are refused, when a poll returns a task, the
  step is \<open>running\<close> and the attempt is recorded under the activity's identifier.
\<close>

theorem poll_in_company:
  assumes "steps_ok X s"
    and "(par_step (others X run_id))\<^sup>*\<^sup>* (process_single_workflow_prog X clk run_id, poll_activity_prog X clk' aid req, s)
      (p', Return (Inr resp), s')"
    and "pr_task resp = Some task"
  shows "(\<exists>r \<in> set (workflow_steps (srv_db s')). st_id r = at_step_id task \<and> st_state r = ''running'') \<and>
    (\<exists>a \<in> set (activities (srv_db s')). ac_id a = aid \<and> ac_step_id a = at_step_id task \<and> ac_state a = ''running'')"
proof -
  have "rg (steps_left_alone X) keeps_all_done (poll_answer_true aid) (Return (Inr resp)) s'"
    using engine_poll.par_reached [OF rg_process rg_poll [OF assms(1)] assms(2)] by simp
  with assms(3) left_alone.rely_refl [of X s'] show ?thesis
    by (auto simp: poll_answer_true_def step_in_def attempt_in_def)
qed

definition sample_pending :: server where
  "sample_pending = init_server\<lparr>srv_db := sample_db [] [sample_workflow ''r'' ''w'' ''running''] [sample_step ''s'' ''r'' 0 ''pending'' 0] []\<rparr>"

theorem poll_in_company_witness:
  "\<exists>s'. poll_activity ref_ext sample_clock ''a'' \<lparr>pa_task_queue = [], pa_activity_types = [''job'']\<rparr> sample_pending =
      (Inr \<lparr>pr_task = Some (activity_task_of ''a'' (sample_instance ''s'' ''r'')), pr_has_task = True\<rparr>, s') \<and>
    (\<exists>a \<in> set (activities (srv_db s')). ac_id a = ''a'' \<and> ac_step_id a = ''s'' \<and> ac_state a = ''running'')"
proof -
  let ?req = "\<lparr>pa_task_queue = [], pa_activity_types = [''job'']\<rparr>"
  let ?task = "activity_task_of ''a'' (sample_instance ''s'' ''r'')"
  obtain s' where poll: "poll_activity ref_ext sample_clock ''a'' ?req sample_pending = (Inr \<lparr>pr_task = Some ?task, pr_has_task = True\<rparr>, s')"
    by (simp add: sample_pending_def poll_activity_def get_pending_steps_def exec_simps sample_defs step_ready_def order_by_asc_def
        row_to_step_def ref_ext_def str_to_step_state_def json_read_def assign_step_eq activity_task_of_def sample_instance_def
        digits_val_def i64_as_u64_def i64_as_u32_def)
  have "steps_ok ref_ext sample_pending"
    by (simp add: steps_ok_def sample_pending_def sample_db_def ref_ext_def)
  moreover have "run (poll_activity_prog ref_ext sample_clock ''a'' ?req) sample_pending = (Inr \<lparr>pr_task = Some ?task, pr_has_task = True\<rparr>, s')"
    by (simp add: run_poll_activity poll)
  ultimately have "\<exists>a \<in> set (activities (srv_db s')). ac_id a = ''a'' \<and> ac_step_id a = at_step_id ?task \<and> ac_state a = ''running''"
    using poll_in_company [OF _ par_run_right] by fastforce
  with poll show ?thesis
    by (auto simp: activity_task_of_def sample_instance_def)
qed

section \<open>A statement that is refused\<close>

text \<open>
  C22: a poll is not atomic. If the database refuses the second of its statements, the call fails, and the
  step stays \<open>running\<close> without an attempt: no worker was given the step, and no poll finds it ready, at
  any time.
\<close>

theorem refused_poll_strands_step:
  assumes "fst (get_pending_steps X clk (srv_db s)) = Inr ps"
    and "find (\<lambda>p. si_activity_name p \<in> set (pa_activity_types req)) ps = Some p"
    and "r \<in> set (workflow_steps (srv_db s))" "st_id r = si_id p"
  shows "\<exists>s' r'. (own_step)\<^sup>*\<^sup>* (poll_activity_prog X clk aid req, s)
      (Return (Inl (Internal ''Failed to insert activity'' (SqlErr DatabaseBusy))), s') \<and>
    activities (srv_db s') = activities (srv_db s) \<and>
    r' \<in> set (workflow_steps (srv_db s')) \<and> st_id r' = st_id r \<and> st_state r' = ''running'' \<and> (\<forall>clk'. \<not> step_ready clk' r')"
proof -
  let ?take = "with_db (update_step_state X (si_id p) Running (Some (si_attempt p + 1)) None None)"
  let ?s = "snd (?take s)" and ?r = "step_update X Running (Some (si_attempt p + 1)) None None r"
  have read: "with_db (get_pending_steps X clk) s = (Inr ps, s)"
    using assms(1) by (simp add: with_db_def get_pending_steps_def readE_def)
  have upd: "?take s = (Inr (), ?s)"
    by (simp add: with_db_def update_step_state_eq)
  let ?rest = "\<lambda>_. Return (Inr \<lparr>pr_task = Some (activity_task_of aid p), pr_has_task = True\<rparr>)"
  let ?attempt = "\<lambda>_. bindP (mapErrP (Internal ''Failed to insert activity'')
      (stmtP (Inl (SqlErr DatabaseBusy)) (with_db (insert_activity_attempt clk aid (si_id p) (si_attempt p + 1))))) (\<lambda>_.
      bindP (ignoreErrP (dbP (update_workflow_state X (si_workflow_run_id p) Running None (Some (utc_now clk))))) ?rest)"
  have "own_step (poll_activity_prog X clk aid req, s) (bindP (assign_step_prog X clk aid p) ?rest, s)"
    by (simp add: poll_activity_prog_def dbP_def stmtP_def mapErrP_def read assms(2))
  also have "bindP (assign_step_prog X clk aid p) ?rest = bindP (mapErrP (Internal ''Failed to update step state'')
      (stmtP (Inl (SqlErr DatabaseBusy)) ?take)) ?attempt"
    by (simp add: assign_step_prog_def bindP_assoc dbP_def)
  finally have "own_step\<^sup>*\<^sup>* (poll_activity_prog X clk aid req, s)
      (Return (Inl (Internal ''Failed to insert activity'' (SqlErr DatabaseBusy))), ?s)"
    using own_mapErrP(1) [of ?take s "()" ?s "Internal ''Failed to update step state''" "Inl (SqlErr DatabaseBusy)" ?attempt, OF upd]
      own_mapErrP(2) by (rule three_steps)
  moreover have "activities (srv_db ?s) = activities (srv_db s)" "?r \<in> set (workflow_steps (srv_db ?s))"
    using assms(3,4) by (auto simp: with_db_def update_step_state_eq set_update_where)
  moreover have "st_id ?r = st_id r" "st_state ?r = ''running''" "\<forall>clk'. \<not> step_ready clk' ?r"
    by (simp_all add: step_state_to_str_def step_ready_def)
  ultimately show ?thesis by (intro exI conjI)
qed

theorem refused_poll_strands_step_witness:
  "\<exists>s' r'. (own_step)\<^sup>*\<^sup>* (poll_activity_prog ref_ext sample_clock ''a'' \<lparr>pa_task_queue = [], pa_activity_types = [''job'']\<rparr>, sample_pending)
      (Return (Inl (Internal ''Failed to insert activity'' (SqlErr DatabaseBusy))), s') \<and>
    activities (srv_db s') = [] \<and> r' \<in> set (workflow_steps (srv_db s')) \<and> st_state r' = ''running''"
  using refused_poll_strands_step [of ref_ext sample_clock sample_pending "[sample_instance ''s'' ''r'']"
      "\<lparr>pa_task_queue = [], pa_activity_types = [''job'']\<rparr>" "sample_instance ''s'' ''r''" "sample_step ''s'' ''r'' 0 ''pending'' 0" "''a''"]
  by (simp add: sample_pending_def sample_db_def get_pending_steps_def readE_def order_by_asc_def sample_step_decodes sample_step_ready)
    (auto simp: sample_instance_def sample_step_def)

text \<open>
  C23: an interval schedule fires too early when its last start cannot be read. If the schedule has started a
  workflow less than its interval ago and none is active, the scheduler does nothing; but it takes an error of
  the query for the last start as \<open>None\<close>, so if the database refuses this one statement, the same call starts a workflow.
\<close>

theorem unread_start_fires:
  assumes found: "find (\<lambda>r. sr_schedule_id r = sid) (schedules (srv_db s)) = Some row"
    and spec: "sr_spec_type row = ''interval''" "in_interval_seconds (schedule_info X row) = Some secs"
    and recent: "max_started sid (srv_db s) = Some ts" "sched_parse_datetime X ts = Inr last_run"
      "num_seconds_between (utc_now clk) last_run < u64_as_i64 secs"
    and idle: "\<not> (\<exists>w \<in> set (workflows (srv_db s)). schedule_active sid w)"
    and new: "run_id \<notin> wf_run_id ` set (workflows (srv_db s))" "fresh_steps ids 0 5 (srv_db s)"
  shows "process_schedule X clk run_id ids sid s = (Inr (), s) \<and>
    (\<exists>s'. own_step\<^sup>*\<^sup>* (process_schedule_prog X clk run_id ids sid, s) (Return (Inr ()), s') \<and>
      run_id \<in> wf_run_id ` set (workflows (srv_db s')) \<and> srv_events s' = srv_events s @ [WorkflowCreated run_id])"
proof -
  let ?info = "schedule_info X row" let ?read = "\<lambda>q. with_db (readE (\<lambda>d. Inr (q d)))"
  have info: "in_schedule_id ?info = sid" "in_spec_type ?info = ''interval''"
    using find_SomeD [OF found] spec(1) by (simp_all add: schedule_info_def)
  let ?rest = "\<lambda>fire. if \<not> fire then Return (Inr ()) else
      bindP (dbP (check_running_workflow sid)) (\<lambda>has_running.
      bindP (apply_overlap_policy_prog clk (in_overlap_policy ?info) sid has_running) (\<lambda>go.
        if go then start_schedule_workflow_prog X clk run_id ids sid (in_namespace ?info) (in_action_workflow_name ?info)
            (in_action_task_queue ?info) (in_action_args_json ?info) (in_timeouts_json ?info)
        else Return (Inr ())))"
  let ?s' = "s\<lparr>srv_db := with_run X clk run_id ids ?info (srv_db s), srv_events := srv_events s @ [WorkflowCreated run_id]\<rparr>"
  have "apply_overlap_policy clk pol sid False d = (Inr True, d)" for pol d
    by (simp add: apply_overlap_policy_def exec_simps)
  then have "run (?rest True) s = (Inr (), ?s')"
    using start_schedule_workflow_eq [OF new, of X clk ?info] idle
    by (simp add: exec_simps check_running_eq run_apply_overlap_policy run_start_schedule_workflow info(1))
  then have rest: "own_step\<^sup>*\<^sup>* (?rest True, s) (Return (Inr ()), ?s')" by (rule own_run)
  have "own_step (process_schedule_prog X clk run_id ids sid, s) (bindP (should_fire_prog X clk ?info) ?rest, s)"
    unfolding process_schedule_prog_def lenientP_def
    by (rule own_stmtP [where a = "Some ?info", THEN back_subst [where P = "own_step _"]]) (simp_all add: exec_simps found)
  moreover have "own_step (bindP (should_fire_prog X clk ?info) ?rest, s) (?rest True, s)"
    using own_refusedP [of None "?read (max_started sid)" "\<lambda>t. bindP (case t of
        Some ts_str \<Rightarrow> Return (bindS (sched_parse_datetime X ts_str) (\<lambda>last_run.
          Inr (u64_as_i64 secs \<le> num_seconds_between (utc_now clk) last_run)))
      | None \<Rightarrow> Return (Inr True)) ?rest" s]
    by (simp add: should_fire_prog_def lenientP_def info spec(2) bindP_assoc)
  ultimately have "own_step\<^sup>*\<^sup>* (process_schedule_prog X clk run_id ids sid, s) (Return (Inr ()), ?s')"
    using rest by (blast intro: converse_rtranclp_into_rtranclp)
  moreover have "process_schedule X clk run_id ids sid s = (Inr (), s)"
    using recent by (simp add: process_schedule_def should_fire_def check_interval_def exec_simps found info spec(2))
  ultimately show ?thesis by (intro conjI exI) (assumption | simp add: with_run_def)+
qed

definition sample_recent :: server where
  "sample_recent = init_server\<lparr>srv_db := sample_db [sample_schedule ''n'' ''interval'' None (Some 60) ''skip'']
     [(sample_workflow ''r'' ''schedule:n-r'' ''completed'')\<lparr>wf_started_at := Some ''000000000990''\<rparr>] [] []\<rparr>"

lemma sample_recent_started: "max_started ''n'' (srv_db sample_recent) = Some ''000000000990''"
  using own_workflow_matches [of "''n''" "''r''"]
  by (simp add: max_started_def schedule_workflows_def sample_recent_def sample_db_def sample_workflow_def map_filter_def
      schedule_workflow_id_def short_id_def)

theorem unread_start_fires_witness:
  "process_schedule ref_ext sample_clock ''r2'' sample_step_ids ''n'' sample_recent = (Inr (), sample_recent) \<and>
   (\<exists>s'. own_step\<^sup>*\<^sup>* (process_schedule_prog ref_ext sample_clock ''r2'' sample_step_ids ''n'', sample_recent) (Return (Inr ()), s') \<and>
     ''r2'' \<in> wf_run_id ` set (workflows (srv_db s')))"
proof -
  let ?row = "sample_schedule ''n'' ''interval'' None (Some 60) ''skip''"
  have found: "find (\<lambda>r. sr_schedule_id r = ''n'') (schedules (srv_db sample_recent)) = Some ?row"
    using sample_interval_row [of "''skip''"] by (simp add: sample_recent_def sample_db_def)
  have spec: "sr_spec_type ?row = ''interval''" "in_interval_seconds (schedule_info ref_ext ?row) = Some 60"
    by (simp_all add: sample_schedule_def schedule_info_def i64_as_u64_def)
  have parsed: "sched_parse_datetime ref_ext ''000000000990'' = Inr (990 * nanos_per_sec)"
    by (simp add: sched_parse_datetime_def) code_simp
  have recent: "num_seconds_between (utc_now sample_clock) (990 * nanos_per_sec) < u64_as_i64 60"
    by (simp add: sample_clock_def num_seconds_between_def u64_as_i64_def)
  have idle: "\<not> (\<exists>w \<in> set (workflows (srv_db sample_recent)). schedule_active ''n'' w)"
    by (simp add: sample_recent_def sample_db_def sample_workflow_def schedule_active_def is_active_def)
  have new: "''r2'' \<notin> wf_run_id ` set (workflows (srv_db sample_recent))" "fresh_steps sample_step_ids 0 5 (srv_db sample_recent)"
    by (auto simp: sample_recent_def sample_db_def sample_workflow_def fresh_steps_def inj_on_def sample_step_ids_def)
  show ?thesis
    using unread_start_fires [OF found spec sample_recent_started parsed recent idle new] by blast
qed

section \<open>A scheduled start among calls\<close>

text \<open>
  The calls of a worker and the turns of the engine, which can fall between the inserts of the scheduler: its
  task does not hold the mutex of the services.
\<close>

inductive served :: "ext \<Rightarrow> server \<Rightarrow> server \<Rightarrow> bool" for X where
  poll: "served X s (snd (poll_activity X clk aid req s))"
| report: "served X s (snd (report_activity_result X clk aid txt s))"
| turn: "served X s (engine_turn X clk s)"

lemma among_other: "R s t \<Longrightarrow> (among R)\<^sup>*\<^sup>* (p, t) c \<Longrightarrow> (among R)\<^sup>*\<^sup>* (p, s) c"
  by (blast intro: converse_rtranclp_into_rtranclp among.other)

lemma among_own: "own_step c c' \<Longrightarrow> (among R)\<^sup>*\<^sup>* c' c'' \<Longrightarrow> (among R)\<^sup>*\<^sup>* c c''"
  by (blast intro: converse_rtranclp_into_rtranclp among.own)

lemma among_round:
  assumes "serve_round X req rd s = (Some task, t)" "(among (served X))\<^sup>*\<^sup>* (p, t) c"
  shows "(among (served X))\<^sup>*\<^sup>* (p, s) c"
proof -
  let ?s1 = "snd (poll_activity X (rd_poll rd) (rd_activity rd) req s)"
  let ?s2 = "snd (report_activity_result X (rd_report rd) (at_activity_id task) (rd_result rd) ?s1)"
  have "t = engine_turn X (rd_engine rd) ?s2"
    using assms(1) by (auto simp: serve_round_def split: prod.splits sum.splits option.splits)
  with assms(2) have "(among (served X))\<^sup>*\<^sup>* (p, ?s2) c" by (auto intro: among_other served.turn)
  then have "(among (served X))\<^sup>*\<^sup>* (p, ?s1) c" by (rule among_other [where R = "served X", rotated]) (rule served.report)
  then show ?thesis by (rule among_other [where R = "served X", rotated]) (rule served.poll)
qed

text \<open>The state when the scheduler has inserted the workflow and its first step.\<close>

definition half_started :: "ext \<Rightarrow> clock \<Rightarrow> uuid \<Rightarrow> (nat \<Rightarrow> uuid) \<Rightarrow> ScheduleInfo \<Rightarrow> server \<Rightarrow> server" where
  "half_started X clk run_id ids info s = s\<lparr>srv_db := (srv_db s)\<lparr>
     workflows := workflows (srv_db s) @ [workflow_to_row X (schedule_instance X clk run_id (in_schedule_id info)
          (in_namespace info) (in_action_workflow_name info) (in_action_task_queue info)
          (in_action_args_json info) (in_timeouts_json info))],
     workflow_steps := workflow_steps (srv_db s) @ [new_step_row X clk run_id ids (schedule_step_args (in_action_args_json info))
          (0, hd (get_schedule_workflow_definition (in_action_workflow_name info)))]\<rparr>\<rparr>"

text \<open>What the scheduler still has to do then.\<close>

definition rest_of_start :: "ext \<Rightarrow> clock \<Rightarrow> uuid \<Rightarrow> (nat \<Rightarrow> uuid) \<Rightarrow> ScheduleInfo \<Rightarrow> (server, err + unit) prog" where
  "rest_of_start X clk run_id ids info =
     bindP (forP (\<lambda>(index, step_def). dbP (insert_workflow_step X clk
                (new_step run_id ids index step_def (schedule_step_args (in_action_args_json info) step_def))))
              (enumerate 1 (tl (get_schedule_workflow_definition (in_action_workflow_name info))))) (\<lambda>_.
     localP (send_event (WorkflowCreated run_id)))"

lemma reaches_half_started:
  assumes run: "run_id \<notin> wf_run_id ` set (workflows (srv_db s))" and steps: "fresh_steps ids 0 5 (srv_db s)"
    and rest: "(among R)\<^sup>*\<^sup>* (rest_of_start X clk run_id ids info, half_started X clk run_id ids info s) c"
  shows "(among R)\<^sup>*\<^sup>* (start_schedule_workflow_prog X clk run_id ids (in_schedule_id info) (in_namespace info)
     (in_action_workflow_name info) (in_action_task_queue info) (in_action_args_json info) (in_timeouts_json info), s) c"
proof -
  let ?nm = "in_action_workflow_name info"
  let ?w = "workflow_to_row X (schedule_instance X clk run_id (in_schedule_id info) (in_namespace info)
       ?nm (in_action_task_queue info) (in_action_args_json info) (in_timeouts_json info))"
  let ?s1 = "s\<lparr>srv_db := (srv_db s)\<lparr>workflows := workflows (srv_db s) @ [?w]\<rparr>\<rparr>"
  let ?ins = "with_db (insert_workflow X (schedule_instance X clk run_id (in_schedule_id info) (in_namespace info)
       ?nm (in_action_task_queue info) (in_action_args_json info) (in_timeouts_json info)))"
  let ?step = "new_step run_id ids 0 (hd (get_schedule_workflow_definition ?nm))
       (schedule_step_args (in_action_args_json info) (hd (get_schedule_workflow_definition ?nm)))"
  obtain d ds where defs: "get_schedule_workflow_definition ?nm = d # ds"
    using get_schedule_workflow_definition_length [of ?nm] by (cases "get_schedule_workflow_definition ?nm") auto
  have "wf_check ?w" by (simp add: wf_check_def)
  with run have ins: "?ins s = (Inr (), ?s1)"
    by (simp add: with_db_def insert_workflow_def exec_insert_workflow_def)
  have "ids 0 \<notin> st_id ` set (workflow_steps (srv_db s))"
    using steps by (force simp: fresh_steps_def)
  then have first: "with_db (insert_workflow_step X clk ?step) ?s1 = (Inr (), half_started X clk run_id ids info s)"
    using new_step_row_simps [of X clk run_id ids "schedule_step_args (in_action_args_json info)" "(0, hd (get_schedule_workflow_definition ?nm))"]
    by (simp add: with_db_def insert_workflow_step_def exec_insert_step_def half_started_def new_step_row_def)
  have after: "own_step (bindP (dbP (insert_workflow_step X clk ?step)) (\<lambda>_. rest_of_start X clk run_id ids info), ?s1)
      (rest_of_start X clk run_id ids info, half_started X clk run_id ids info s)"
    unfolding dbP_def by (rule own_stmtP) (rule first)
  have "start_schedule_workflow_prog X clk run_id ids (in_schedule_id info) (in_namespace info)
     ?nm (in_action_task_queue info) (in_action_args_json info) (in_timeouts_json info) =
     bindP (stmtP (Inl (SqlErr DatabaseBusy)) ?ins) (\<lambda>_. bindP (dbP (insert_workflow_step X clk ?step)) (\<lambda>_. rest_of_start X clk run_id ids info))"
    by (simp add: start_schedule_workflow_prog_def dbP_def rest_of_start_def defs bindP_assoc)
  then have "own_step (start_schedule_workflow_prog X clk run_id ids (in_schedule_id info) (in_namespace info)
     ?nm (in_action_task_queue info) (in_action_args_json info) (in_timeouts_json info), s)
     (bindP (dbP (insert_workflow_step X clk ?step)) (\<lambda>_. rest_of_start X clk run_id ids info), ?s1)"
    using own_stmtP [of ?ins s "()" ?s1 "Inl (SqlErr DatabaseBusy)"
        "\<lambda>_. bindP (dbP (insert_workflow_step X clk ?step)) (\<lambda>_. rest_of_start X clk run_id ids info)", OF ins] by (simp only:)
  from among_own [OF this among_own [OF after rest]] show ?thesis .
qed

text \<open>Whatever happened to the first step meanwhile, the rest of the start adds the others.\<close>

lemma rest_of_start_ends:
  assumes "run_id \<in> wf_run_id ` set (workflows (srv_db s))" "fresh_steps ids 1 4 (srv_db s)"
  shows "(among R)\<^sup>*\<^sup>* (rest_of_start X clk run_id ids info, s)
    (Return (Inr ()), s\<lparr>srv_db := (srv_db s)\<lparr>workflow_steps := workflow_steps (srv_db s) @
       map (new_step_row X clk run_id ids (schedule_step_args (in_action_args_json info)))
         (enumerate 1 (tl (get_schedule_workflow_definition (in_action_workflow_name info))))\<rparr>,
       srv_events := srv_events s @ [WorkflowCreated run_id]\<rparr>)"
proof (rule among_run)
  let ?body = "\<lambda>(index, step_def). with_db (insert_workflow_step X clk
      (new_step run_id ids index step_def (schedule_step_args (in_action_args_json info) step_def)))"
  have "forE ?body (enumerate 1 (tl (get_schedule_workflow_definition (in_action_workflow_name info)))) s =
      (Inr (), s\<lparr>srv_db := (srv_db s)\<lparr>workflow_steps := workflow_steps (srv_db s) @
         map (new_step_row X clk run_id ids (schedule_step_args (in_action_args_json info)))
           (enumerate 1 (tl (get_schedule_workflow_definition (in_action_workflow_name info))))\<rparr>\<rparr>)"
    by (rule forE_insert_steps [OF _ assms(1)])
      (use assms(2) in \<open>auto simp: with_db_def get_schedule_workflow_definition_length\<close>)
  then show "run (rest_of_start X clk run_id ids info) s = (Inr (), s\<lparr>srv_db := (srv_db s)\<lparr>workflow_steps := workflow_steps (srv_db s) @
       map (new_step_row X clk run_id ids (schedule_step_args (in_action_args_json info)))
         (enumerate 1 (tl (get_schedule_workflow_definition (in_action_workflow_name info))))\<rparr>,
       srv_events := srv_events s @ [WorkflowCreated run_id]\<rparr>)"
    by (simp add: rest_of_start_def prod.case_distrib [of run] andThen_def send_event_def)
qed

text \<open>
  C24: the inserts of a scheduled start are not one transaction, and a worker can come between them: if it
  polls and reports the first step before the second is inserted, the engine completes the workflow,
  and the start goes on and ends with a workflow that is \<open>completed\<close> and has steps in \<open>pending\<close>.
\<close>

theorem scheduled_start_race:
  fixes info :: ScheduleInfo
  assumes ext: "no_offset_refused X" and chan: "srv_events s = []" "srv_engine_tx s"
    and new: "run_id \<notin> wf_run_id ` set (workflows (srv_db s))" "fresh_steps ids 0 5 (srv_db s)"
    and old: "schema_ok (srv_db s)" "\<forall>r \<in> set (workflow_steps (srv_db s)). st_state r \<noteq> ''pending'' \<and> st_state r \<noteq> ''retried''"
    and readable: "step_text_ok X (step_of run_id ids (schedule_step_args (in_action_args_json info))
       (0, hd (get_schedule_workflow_definition (in_action_workflow_name info))))"
    and aid: "aid \<notin> ac_id ` set (activities (srv_db s))"
  shows "\<exists>s'. (among (served X))\<^sup>*\<^sup>* (start_schedule_workflow_prog X clk run_id ids (in_schedule_id info) (in_namespace info)
       (in_action_workflow_name info) (in_action_task_queue info) (in_action_args_json info) (in_timeouts_json info), s)
      (Return (Inr ()), s') \<and>
    (\<forall>w \<in> set (workflows (srv_db s')). wf_run_id w = run_id \<longrightarrow> wf_state w = ''completed'') \<and>
    (\<exists>r \<in> set (workflow_steps (srv_db s')). st_workflow_run_id r = run_id \<and> st_state r = ''pending'')"
proof -
  let ?args = "schedule_step_args (in_action_args_json info)" and ?defs = "get_schedule_workflow_definition (in_action_workflow_name info)"
  let ?s1 = "half_started X clk run_id ids info s" and ?row = "new_step_row X clk run_id ids ?args (0, hd ?defs)"
  define req where "req = \<lparr>pa_task_queue = [], pa_activity_types = [as_activity_name (hd ?defs)]\<rparr>"
  define rd where "rd = \<lparr>rd_poll = clk, rd_report = clk, rd_engine = clk, rd_activity = aid, rd_result = []\<rparr>"
  have "ids 0 \<notin> st_id ` set (workflow_steps (srv_db s))"
    using new(2) by (force simp: fresh_steps_def)
  moreover have "st_workflow_run_id r \<noteq> run_id" if "r \<in> set (workflow_steps (srv_db s))" for r
    using old(1) new(1) that by (auto simp: schema_ok_def list_all_iff)
  ultimately have prog: "in_progress X clk run_id ids ?args (workflow_steps (srv_db s)) [(0, hd ?defs)] ?s1"
    using old chan by (auto simp: in_progress_def half_started_def schema_ok_def)
  obtain s2 where round: "serve_round X req rd ?s1 = (Some (activity_task_of aid (step_of run_id ids ?args (0, hd ?defs))), s2)"
    and s2: "in_progress X clk run_id ids ?args (workflow_steps (srv_db s) @ [done_row X (JObject []) ?row]) [] s2"
    and wf: "\<forall>w \<in> set (workflows (srv_db s2)). wf_run_id w = run_id \<longrightarrow> wf_state w = ''completed''"
    by (rule round_progress [OF ext prog, of req rd "JObject []"])
      (use readable aid in \<open>auto simp: rd_def req_def reported_value_def half_started_def\<close>)
  have steps2: "workflow_steps (srv_db s2) = workflow_steps (srv_db s) @ [done_row X (JObject []) ?row]"
    and run2: "run_id \<in> wf_run_id ` set (workflows (srv_db s2))"
    using s2 by (simp_all add: in_progress_def)
  have "fresh_steps ids 1 4 (srv_db s2)"
    using fresh_steps_Suc(2) [of ids 0 4 "srv_db s" "done_row X (JObject []) ?row"] new(2) by (simp add: fresh_steps_def steps2)
  note reached = reaches_half_started [OF new among_round [OF round rest_of_start_ends [OF run2 this]]]
  obtain d ds where "tl ?defs = d # ds"
    using get_schedule_workflow_definition_length [of "in_action_workflow_name info"] by (cases ?defs; cases "tl ?defs") auto
  then have pending: "new_step_row X clk run_id ids ?args (1, d) \<in> set (map (new_step_row X clk run_id ids ?args) (enumerate 1 (tl ?defs)))"
    by simp
  show ?thesis
    by (rule exI, rule conjI, rule reached)
      (use wf pending in \<open>auto intro: bexI [of _ "new_step_row X clk run_id ids ?args (1, d)"]\<close>)
qed

definition sample_info :: ScheduleInfo where
  "sample_info = schedule_info ref_ext (sample_schedule ''n'' ''interval'' None (Some 60) ''skip'')\<lparr>in_action_args_json := ''job1''\<rparr>"

theorem scheduled_start_race_witness:
  "\<exists>s'. (among (served ref_ext))\<^sup>*\<^sup>* (start_schedule_workflow_prog ref_ext sample_clock ''r'' sample_step_ids ''n'' ''default''
       ''job'' ''default'' ''job1'' ''{}'', init_server) (Return (Inr ()), s') \<and>
    (\<exists>r \<in> set (workflow_steps (srv_db s')). st_workflow_run_id r = ''r'' \<and> st_state r = ''pending'')"
proof -
  let ?def = "hd (get_schedule_workflow_definition (in_action_workflow_name sample_info))"
  have policy: "as_retry_policy (hd (get_schedule_workflow_definition nm)) = \<lparr>maximum_attempts = 3, initial_interval_secs = 2\<rparr>" for nm
    by (simp add: get_schedule_workflow_definition_def cron_pipeline_def activity_step_def)
  have "step_text_ok ref_ext (step_of ''r'' sample_step_ids (schedule_step_args (in_action_args_json sample_info)) (0, ?def))"
    by (simp add: step_of_def new_step_def policy step_text_ok_def sample_info_def schedule_info_def sample_schedule_def
        schedule_step_args_def json_text_ok_def, simp add: ref_ext_def digits_val_digits_of)
  moreover have "fresh_steps sample_step_ids 0 5 (srv_db init_server)" "schema_ok (srv_db init_server)"
    using sample_active_fresh [of "''skip''"] schema_ok_migrate by (simp_all add: fresh_steps_def init_server_def migrate_def)
  ultimately show ?thesis
    using scheduled_start_race [of ref_ext init_server "''r''" sample_step_ids sample_info "''a''" sample_clock]
    by (simp add: init_server_def migrate_def no_offset_refused_def sample_info_def schedule_info_def sample_schedule_def) blast
qed

end
