(* ===== verification/Start_In_Company.thy ===== *)
theory Start_In_Company
  imports Interference System
begin

text \<open>
  The call \<open>StartWorkflow\<close> among the other tasks. Like the scheduled start of \<open>Interference\<close> it inserts the workflow
  and its steps without a transaction, but it holds the mutex of the services: no poll and no report comes
  between its statements, only the engine and the scheduler do. What these do leaves the new run
  alone, so the call ends with a run that is as it should be.
\<close>

section \<open>What the other tasks leave alone\<close>

definition all_pending :: "sqltext \<Rightarrow> server \<Rightarrow> bool" where
  "all_pending run_id s \<longleftrightarrow> (\<forall>r \<in> set (steps_of run_id (srv_db s)). st_state r = ''pending'')"

definition unfinished :: "sqltext \<Rightarrow> server \<Rightarrow> bool" where
  "unfinished run_id s \<longleftrightarrow>
     (\<forall>w \<in> set (workflows (srv_db s)). wf_run_id w = run_id \<longrightarrow> wf_state w \<noteq> ''completed'' \<and> wf_state w \<noteq> ''failed'')"

definition leaves_run :: "sqltext \<Rightarrow> server \<Rightarrow> server \<Rightarrow> bool" where
  "leaves_run run_id s t \<longleftrightarrow> steps_of run_id (srv_db t) = steps_of run_id (srv_db s) \<and>
     (all_pending run_id s \<longrightarrow> unfinished run_id s \<longrightarrow> unfinished run_id t) \<and>
     wf_run_id ` set (workflows (srv_db s)) \<subseteq> wf_run_id ` set (workflows (srv_db t)) \<and>
     (no_retried (srv_db s) \<longrightarrow> no_retried (srv_db t))"

text \<open>What the engine sees of the call: the steps of the new run are pending.\<close>

definition run_new :: "sqltext \<Rightarrow> server \<Rightarrow> bool" where
  "run_new run_id s \<longleftrightarrow> all_pending run_id s \<and> no_retried (srv_db s)"

definition keeps_new :: "sqltext \<Rightarrow> server \<Rightarrow> server \<Rightarrow> bool" where
  "keeps_new run_id s t \<longleftrightarrow> (run_new run_id s \<longrightarrow> run_new run_id t)"

interpretation run_left: rely "leaves_run run_id" for run_id
  by unfold_locales (auto simp: leaves_run_def all_pending_def)

interpretation engine_side: steady "keeps_new run_id" "run_new run_id" for run_id
  by unfold_locales (auto simp: keeps_new_def)

interpretation engine_start: compatible "keeps_new run_id" "leaves_run run_id" "leaves_run run_id" "leaves_run run_id" "keeps_new run_id"
  for run_id
  by unfold_locales (auto simp: keeps_new_def leaves_run_def run_new_def all_pending_def)

text \<open>Reading, and writing to workflows.\<close>

lemma leaves_run_refl: "leaves_run run_id s s"
  by (simp add: leaves_run_def)

lemma leaves_run_memory: "srv_db t = srv_db s \<Longrightarrow> leaves_run run_id s t"
  by (simp add: leaves_run_def unfinished_def)

lemma leaves_run_workflows:
  assumes "srv_db t = (srv_db s)\<lparr>workflows := ws\<rparr>" "wf_run_id ` set (workflows (srv_db s)) \<subseteq> wf_run_id ` set ws"
    and "all_pending run_id s \<Longrightarrow> unfinished run_id s \<Longrightarrow> unfinished run_id t"
  shows "leaves_run run_id s t"
  using assms by (simp add: leaves_run_def steps_of_def no_retried_def)

lemma leaves_run_new: "leaves_run run_id s t \<Longrightarrow> run_new run_id s \<Longrightarrow> run_new run_id t"
  by (simp add: leaves_run_def run_new_def all_pending_def)

section \<open>The engine\<close>

lemma engine_read: "run_new run_id s \<Longrightarrow>
    rg (keeps_new run_id) (leaves_run run_id) (\<lambda>_. run_new run_id) (stmtP busy (with_db (readE q))) s"
  by (rule engine_side.steady_stmtP) (simp_all add: with_db_def readE_def leaves_run_refl)

lemma engine_query: "run_new run_id s \<Longrightarrow> rg (keeps_new run_id) (leaves_run run_id) (\<lambda>_. run_new run_id) (dbP (readE q)) s"
  unfolding dbP_def by (rule engine_read)

lemma engine_write:
  assumes "run_new run_id s" "\<And>t. run_new run_id t \<Longrightarrow> leaves_run run_id t (snd (with_db m t))"
  shows "rg (keeps_new run_id) (leaves_run run_id) (\<lambda>_. run_new run_id) (dbP m) s"
  unfolding dbP_def using assms leaves_run_new by (intro engine_side.steady_stmtP) blast+

lemma engine_counts:
  assumes "run_new run_id s"
  shows "rg (keeps_new run_id) (leaves_run run_id)
    (\<lambda>res t. run_new run_id t \<and> (\<forall>n c f. res = Inr (n, c, f) \<longrightarrow> 0 < n \<longrightarrow> 0 < f \<or> c = n \<longrightarrow> run' \<noteq> run_id))
    (dbP (readE (\<lambda>d. Inr (step_counts run' d)))) s"
  unfolding dbP_def
proof (rule engine_side.rg_stmt_stable [where P = "run_new run_id"])
  fix t assume "run_new run_id t"
  then have "step_counts run_id (srv_db t) = (n, c, f) \<Longrightarrow> 0 < n \<Longrightarrow> f = 0 \<and> c = 0" for n c f
    by (auto simp: step_counts_def run_new_def all_pending_def count_where_def filter_empty_conv)
  with \<open>run_new run_id t\<close> show "leaves_run run_id t (snd (with_db (readE (\<lambda>d. Inr (step_counts run' d))) t)) \<and>
      run_new run_id (snd (with_db (readE (\<lambda>d. Inr (step_counts run' d))) t)) \<and>
      (\<forall>n c f. fst (with_db (readE (\<lambda>d. Inr (step_counts run' d))) t) = Inr (n, c, f) \<longrightarrow> 0 < n \<longrightarrow> 0 < f \<or> c = n \<longrightarrow> run' \<noteq> run_id)"
    by (auto simp: with_db_def readE_def leaves_run_refl)
qed (use assms in \<open>auto simp: keeps_new_def\<close>)

lemma engine_process:
  assumes "run_new run_id s"
  shows "rg (keeps_new run_id) (leaves_run run_id) (\<lambda>_. run_new run_id) (process_single_workflow_prog X clk run') s"
proof -
  let ?rg = "rg (keeps_new run_id) (leaves_run run_id)" and ?J = "run_new run_id"
  let ?finish = "\<lambda>st. dbP (update_workflow_state X run' st None (Some (utc_now clk)))"
  have start: "?rg (\<lambda>_. ?J) (dbP (stmt_start_workflow clk run')) t" if "?J t" for t
    by (rule engine_write [OF that])
      (auto simp: with_db_def stmt_start_workflow_eq mark_started_def unfinished_def ball_update_where image_update_where intro!: leaves_run_workflows)
  have prepare: "?rg (\<lambda>_. ?J) (dbP (okE ())) t" if "?J t" for t
    by (rule engine_write [OF that]) (simp add: with_db_def okE_def leaves_run_refl)
  have finish: "?rg (\<lambda>_. ?J) (?finish st) t" if "?J t" "run' \<noteq> run_id" for st t
    using that(2)
    by (intro engine_write [OF that(1)])
      (auto simp: with_db_def update_workflow_state_finish finish_workflow_def finish_row_def unfinished_def ball_update_where image_update_where intro!: leaves_run_workflows)
  have counts: "?rg (\<lambda>_. ?J) (bindP (dbP (readE (\<lambda>d. Inr (step_counts run' d)))) (\<lambda>(n, c, f).
      if 0 < n then (if 0 < f then ?finish Failed else if c = n then ?finish Completed else Return (Inr ()))
      else Return (Inr ()))) t" if "?J t" for t
    by (rule engine_side.rg_bindP, rule rg_mono [OF engine_counts [OF that]])
      (auto intro: finish engine_side.steady split: sum.split prod.split)
  show ?thesis
    unfolding process_single_workflow_prog_def lenientP_def
    by (rule engine_side.steady_bindP [OF start [OF assms]] engine_side.steady_bindP [OF prepare] engine_side.steady_bindP [OF engine_read]
        rg_case_option counts, assumption?)+
      (intro engine_side.steady_bindP rg_splits engine_side.steady_Return engine_query)
qed

lemma engine_timers:
  assumes "run_new run_id s"
  shows "rg (keeps_new run_id) (leaves_run run_id) (\<lambda>_. run_new run_id) (schedule_retry_timers_prog X clk run') s"
    and "rg (keeps_new run_id) (leaves_run run_id) (\<lambda>_. run_new run_id) (schedule_heartbeat_timers_prog X clk run') s"
proof -
  let ?rg = "rg (keeps_new run_id) (leaves_run run_id) (\<lambda>_. run_new run_id)"
  have prepare: "?rg (dbP (okE ())) t" if "run_new run_id t" for t
    by (rule engine_write [OF that]) (simp add: with_db_def okE_def leaves_run_refl)
  have timer: "?rg (localP (spawn_timer d ev)) t" if "run_new run_id t" for t d ev
    by (rule engine_side.steady_localP [OF that])
      (simp add: spawn_timer_def leaves_run_memory run_new_def all_pending_def)
  note steps = engine_side.steady_bindP engine_side.steady_forP prepare timer engine_read rg_splits engine_side.steady_Return
  show "?rg (schedule_retry_timers_prog X clk run') s"
    unfolding schedule_retry_timers_prog_def lenientP_def schedule_retry_timer_def by (intro steps assms)
  show "?rg (schedule_heartbeat_timers_prog X clk run') s"
    unfolding schedule_heartbeat_timers_prog_def lenientP_def schedule_heartbeat_timer_def by (intro steps assms)
qed

lemma engine_advance:
  "run_new run_id s \<Longrightarrow> rg (keeps_new run_id) (leaves_run run_id) (\<lambda>_. run_new run_id) (advance_prog X clk run') s"
  unfolding advance_prog_def by (intro engine_side.steady_bindP engine_process engine_timers)

text \<open>A turn of the engine on any event but a heartbeat timeout, of which there are none.\<close>

lemma engine_turn_leaves_run:
  assumes "run_new run_id s" "\<not> heartbeat_event ev"
  shows "rg (keeps_new run_id) (leaves_run run_id) (\<lambda>_. run_new run_id) (handle_event_prog X clk ev) s"
proof (cases ev)
  case ScheduleChange
  have prepare: "rg (keeps_new run_id) (leaves_run run_id) (\<lambda>_. run_new run_id) (dbP (okE ())) s"
    by (rule engine_write [OF assms(1)]) (simp add: with_db_def okE_def leaves_run_refl)
  show ?thesis
    unfolding ScheduleChange handle_event_prog.simps process_workflows_prog_def lenientP_def
    by (intro engine_side.steady_bindP prepare engine_side.steady_forP engine_read engine_advance)
next
  case (RetryDue sid)
  let ?q = "query_row workflow_steps (\<lambda>r. st_id r = sid) (\<lambda>r. (st_state r, st_workflow_run_id r)) :: (db, err, sqltext \<times> sqltext) exec"
  let ?Q = "\<lambda>res t. run_new run_id t \<and> (\<forall>st w. res = Inr (st, w) \<longrightarrow> st \<noteq> ''retried'')"
  have "rg (keeps_new run_id) (leaves_run run_id) ?Q (dbP ?q) s"
    unfolding dbP_def
  proof (rule engine_side.rg_stmt_stable [where P = "run_new run_id"])
    fix t assume "run_new run_id t"
    then show "leaves_run run_id t (snd (with_db ?q t)) \<and> ?Q (fst (with_db ?q t)) (snd (with_db ?q t))"
      by (auto simp: with_db_def query_row_def run_new_def no_retried_def list_all_iff leaves_run_refl
          dest: find_SomeD split: option.split)
  qed (use assms(1) in \<open>auto simp: keeps_new_def\<close>)
  then show ?thesis
    unfolding RetryDue handle_event_prog.simps handle_retry_due_prog_def
    by (intro engine_side.rg_bindP) (erule rg_mono, auto intro: engine_side.steady split: sum.split)
qed (use assms in \<open>simp_all add: engine_advance\<close>)

section \<open>The scheduler\<close>

lemma new_step_stored [simp]:
  "st_workflow_run_id (step_to_row X clk (new_step run_id ids i sd a)) = run_id"
  "st_state (step_to_row X clk (new_step run_id ids i sd a)) = ''pending''"
  by (simp_all add: step_to_row_def new_step_def step_state_to_str_def)

interpretation anywhere: steady "\<lambda>_ _. True" "\<lambda>_. True"
  by unfold_locales simp_all

text \<open>
  The scheduler, firing a schedule, leaves a run alone that is not the one it starts. It can cancel the run, if the
  name of the workflow is of the form of its own.
\<close>

lemma scheduler_leaves_run:
  assumes "run' \<noteq> run_id"
  shows "rg (\<lambda>_ _. True) (leaves_run run_id) (\<lambda>_ _. True) (process_schedule_prog X clk run' ids sid) s"
proof -
  let ?rg = "rg (\<lambda>_ _. True) (leaves_run run_id) (\<lambda>_ _. True)"
  have read: "?rg (stmtP busy (with_db (readE q))) t" for busy :: "err + 'c" and q t
    by (rule anything.rg_stmtP) (simp_all add: with_db_def readE_def leaves_run_refl)
  have query: "?rg (dbP (readE q)) t" for q :: "db \<Rightarrow> err + 'c" and t
    unfolding dbP_def by (rule read)
  have prepare: "?rg (dbP (okE ())) t" for t
    unfolding dbP_def by (rule anything.rg_stmtP) (simp_all add: with_db_def okE_def leaves_run_refl)
  have writes: "(\<And>t. leaves_run run_id t (snd (with_db m t))) \<Longrightarrow> ?rg (dbP m) t" for m :: "(db, err, unit) exec" and t
    unfolding dbP_def by (rule anything.rg_stmtP) simp_all
  have cancel: "?rg (dbP (cancel_workflow clk r)) t" for r t
    by (rule writes) (auto simp: with_db_def cancel_workflow_eq unfinished_def ball_update_where image_update_where leaves_run_refl intro!: leaves_run_workflows)
  have wf: "?rg (dbP (insert_workflow X (schedule_instance X clk run' i ns nm tq job tmo))) t" for i ns nm tq job tmo t
    using assms
    by (intro writes) (auto simp: with_db_def insert_workflow_def exec_insert_workflow_def unfinished_def leaves_run_refl
        intro!: leaves_run_workflows)
  have step: "?rg (dbP (insert_workflow_step X clk (new_step run' ids i sd a))) t" for i sd a t
    using assms
    by (intro writes) (auto simp: with_db_def insert_workflow_step_def exec_insert_step_def leaves_run_def steps_of_def unfinished_def
        no_retried_def)
  have event: "?rg (localP (send_event ev)) t" for ev t
    by (rule anything.rg_localP) (simp add: send_event_def leaves_run_memory)
  show ?thesis
    unfolding process_schedule_prog_def should_fire_prog_def apply_overlap_policy_prog_def terminate_existing_prog_def
      start_schedule_workflow_prog_def check_running_workflow_def lenientP_def
    by (intro anything.rg_bind_any rg_splits anywhere.steady_forP read query prepare cancel wf step event) simp_all
qed

section \<open>The call\<close>

text \<open>The new run with the first of its steps.\<close>

definition run_with :: "ext \<Rightarrow> clock \<Rightarrow> uuid \<Rightarrow> (nat \<Rightarrow> uuid) \<Rightarrow> StartWorkflowRequest \<Rightarrow> ActivityStep list \<Rightarrow> server \<Rightarrow> bool" where
  "run_with X clk run_id ids req defs s \<longleftrightarrow> run_id \<in> wf_run_id ` set (workflows (srv_db s)) \<and> unfinished run_id s \<and>
     steps_of run_id (srv_db s) = map (new_step_row X clk run_id ids (step_args (swr_args req))) (enumerate 0 defs)"

lemma run_with_left: "leaves_run run_id s t \<Longrightarrow> run_with X clk run_id ids req defs s \<Longrightarrow> run_with X clk run_id ids req defs t"
  by (auto simp: run_with_def leaves_run_def all_pending_def)

lemma keeps_new_steps:
  assumes "workflow_steps (srv_db t) = workflow_steps (srv_db s) @ rows" "\<forall>r \<in> set rows. st_state r = ''pending''"
  shows "keeps_new run_id s t"
  using assms by (auto simp: keeps_new_def run_new_def all_pending_def steps_of_def no_retried_def list_all_iff)

lemma start_insert_step:
  assumes "run_with X clk run_id ids req defs s"
  shows "rg (leaves_run run_id) (keeps_new run_id) (\<lambda>res t. res = Inr () \<longrightarrow> run_with X clk run_id ids req (defs @ [sd]) t)
    (dbP (insert_workflow_step X clk (new_step run_id ids (length defs) sd (step_args (swr_args req) sd)))) s"
  unfolding dbP_def
proof (rule run_left.rg_stmt_stable [where P = "run_with X clk run_id ids req defs"])
  fix t assume t: "run_with X clk run_id ids req defs t"
  let ?m = "insert_workflow_step X clk (new_step run_id ids (length defs) sd (step_args (swr_args req) sd))"
  have "keeps_new run_id t (snd (with_db ?m t))"
    by (auto simp: with_db_def insert_workflow_step_def exec_insert_step_def intro: keeps_new_steps)
  moreover have "fst (with_db ?m t) = Inr () \<longrightarrow> run_with X clk run_id ids req (defs @ [sd]) (snd (with_db ?m t))"
    using t by (auto simp: with_db_def insert_workflow_step_def exec_insert_step_def run_with_def unfinished_def steps_of_def
        enumerate_append_eq new_step_row_def)
  ultimately show "keeps_new run_id t (snd (with_db ?m t)) \<and>
      (fst (with_db ?m t) = Inr () \<longrightarrow> run_with X clk run_id ids req (defs @ [sd]) (snd (with_db ?m t)))" ..
qed (use assms run_with_left in blast)+

lemma start_insert_steps:
  "run_with X clk run_id ids req defs s \<Longrightarrow>
   rg (leaves_run run_id) (keeps_new run_id) (\<lambda>res t. res = Inr () \<longrightarrow> run_with X clk run_id ids req (defs @ rest) t)
     (forP (\<lambda>(index, step_def). mapErrP (Internal ''Failed to create step'')
        (dbP (insert_workflow_step X clk (new_step run_id ids index step_def (step_args (swr_args req) step_def)))))
      (enumerate (length defs) rest)) s"
proof (induction rest arbitrary: defs s)
  case Nil
  then show ?case by (auto dest: run_with_left)
next
  case (Cons sd rest)
  show ?case
    unfolding mapErrP_def enumerate_simps forP.simps prod.case
    by (rule run_left.rg_bindP, rule run_left.rg_mapP, rule rg_mono [OF start_insert_step [OF Cons.prems, of sd]])
      (use Cons.IH [of "defs @ [sd]"] in \<open>auto simp: mapErrP_def split: sum.split\<close>)
qed

lemma start_call:
  assumes "steps_of run_id (srv_db s) = []"
  shows "rg (leaves_run run_id) (keeps_new run_id)
    (\<lambda>res t. \<forall>r. res = Inr r \<longrightarrow> r = run_id \<and> run_with X clk run_id ids req (get_workflow_definition (swr_workflow_name req)) t)
    (start_workflow_prog X clk run_id ids req) s"
proof -
  let ?defs = "get_workflow_definition (swr_workflow_name req)" and ?m = "insert_workflow X (new_workflow run_id req)"
  have insert: "rg (leaves_run run_id) (keeps_new run_id) (\<lambda>res t. res = Inr () \<longrightarrow> run_with X clk run_id ids req [] t) (dbP ?m) s"
    unfolding dbP_def
  proof (rule run_left.rg_stmt_stable [where P = "\<lambda>t. steps_of run_id (srv_db t) = []"])
    fix t :: server assume "steps_of run_id (srv_db t) = []"
    then show "keeps_new run_id t (snd (with_db ?m t)) \<and> (fst (with_db ?m t) = Inr () \<longrightarrow> run_with X clk run_id ids req [] (snd (with_db ?m t)))"
      by (auto simp: with_db_def insert_workflow_def exec_insert_workflow_def run_with_def unfinished_def steps_of_def
          intro: keeps_new_steps)
  next
    show "leaves_run run_id t u \<Longrightarrow> steps_of run_id (srv_db t) = [] \<Longrightarrow> steps_of run_id (srv_db u) = []" for t u
      by (simp add: leaves_run_def)
  qed (use assms run_with_left in blast)+
  have told: "rg (leaves_run run_id) (keeps_new run_id) (\<lambda>_. run_with X clk run_id ids req ?defs) (localP (notify_engine ev)) t"
    if "run_with X clk run_id ids req ?defs t" for ev t
  proof (rule run_left.rg_localP)
    fix u assume "leaves_run run_id t u"
    with that have "run_with X clk run_id ids req ?defs u" by (blast dest: run_with_left)
    moreover have "leaves_run run_id u (snd (notify_engine ev u))" "keeps_new run_id u (snd (notify_engine ev u))"
      by (auto simp: notify_engine_def intro: leaves_run_memory keeps_new_steps [where rows = "[]"])
    ultimately show "keeps_new run_id u (snd (notify_engine ev u)) \<and>
        (\<forall>v. leaves_run run_id (snd (notify_engine ev u)) v \<longrightarrow> run_with X clk run_id ids req ?defs v)"
      by (blast dest: run_with_left)
  qed
  show ?thesis
    unfolding start_workflow_prog_def
    by (rule run_left.rg_bindP, unfold mapErrP_def, rule run_left.rg_mapP, rule rg_mono [OF insert])
      (auto split: sum.split intro!: run_left.rg_bindP rg_mono [OF start_insert_steps [where defs = "[]", simplified, unfolded mapErrP_def]]
         rg_mono [OF told], erule (1) run_with_left)
qed

text \<open>
  C8: \<open>StartWorkflow\<close> is safe in the company of the engine and the scheduler. Its inserts are single statements with no
  transaction around them; yet whatever the engine does with an event between them, and whatever a task does that leaves
  the rows of the run alone, as the scheduler does when it fires, if the call succeeds, the workflow is stored, nobody has
  declared it completed or failed before its steps were there, and it has the steps of its definition, all of them, once, in order
  and \<open>pending\<close>.
\<close>

theorem start_in_company:
  assumes "steps_of run_id (srv_db s) = []" "no_retried (srv_db s)" "\<not> heartbeat_event ev"
    and "(par_step (leaves_run run_id))\<^sup>*\<^sup>* (handle_event_prog X clk ev, start_workflow_prog X clk' run_id ids req, s) (p', Return (Inr r), s')"
  shows "r = run_id \<and> (\<exists>w \<in> set (workflows (srv_db s')). wf_run_id w = run_id) \<and>
    (\<forall>w \<in> set (workflows (srv_db s')). wf_run_id w = run_id \<longrightarrow> wf_state w \<noteq> ''completed'' \<and> wf_state w \<noteq> ''failed'') \<and>
    steps_of run_id (srv_db s') = map (\<lambda>(i, sd). step_to_row X clk' (new_step run_id ids i sd (step_args (swr_args req) sd)))
      (enumerate 0 (get_workflow_definition (swr_workflow_name req)))"
proof -
  have "run_new run_id s"
    using assms(1,2) by (simp add: run_new_def all_pending_def)
  from engine_start.par_reached [OF engine_turn_leaves_run [OF this assms(3)] start_call [OF assms(1)] assms(4)]
  have "r = run_id \<and> run_with X clk' run_id ids req (get_workflow_definition (swr_workflow_name req)) s'"
    using leaves_run_refl [of run_id s'] by simp
  then show ?thesis
    by (auto simp: run_with_def unfinished_def new_step_row_def cong: map_cong)
qed

theorem start_in_company_witness:
  "\<exists>s'. start_workflow ref_ext sample_clock ''r'' (\<lambda>n. ''s'') sample_request init_server = (Inr ''r'', s') \<and>
     map st_activity_name (steps_of ''r'' (srv_db s')) = [''job'']"
proof -
  let ?start = "start_workflow ref_ext sample_clock ''r'' (\<lambda>n. ''s'') sample_request"
  have call: "?start init_server = (Inr ''r'', snd (?start init_server))"
    using start_workflow_effect [of "''r''" init_server "\<lambda>n. ''s''" sample_request ref_ext sample_clock] sample_fresh
    by (simp add: init_server_def migrate_def prod_eq_iff)
  moreover from call have "run (start_workflow_prog ref_ext sample_clock ''r'' (\<lambda>n. ''s'') sample_request) init_server =
      (Inr ''r'', snd (?start init_server))"
    by (simp add: run_start_workflow)
  moreover have "steps_of ''r'' (srv_db init_server) = []" "no_retried (srv_db init_server)" "\<not> heartbeat_event ScheduleChange"
    by (simp_all add: init_server_def migrate_def steps_of_def no_retried_def)
  ultimately show ?thesis
    using start_in_company [OF _ _ _ par_run_right]
    by (fastforce simp: sample_request_steps step_to_row_def new_step_def activity_step_def)
qed

end
