(* ===== verification/Retries.thy ===== *)
theory Retries
  imports Grpc_Worker
begin

text \<open>
  The attempts of a step that fails at every try: \<open>poll_activity\<close> and \<open>report_activity_failure\<close> of
  \<open>server/src/grpc.rs\<close> in turn. Both count the attempt.
\<close>

text \<open>
  One round: a worker polls for the activity type, and if it gets a task, its activity fails and
  the worker reports it. Each round has its own clock and the UUID the poll draws.
\<close>

definition failing_round :: "ext \<Rightarrow> PollActivityRequest \<Rightarrow> clock \<times> uuid \<Rightarrow> (server, status, unit) exec" where
  "failing_round X req ca =
     andThen (poll_activity X (fst ca) (snd ca) req) (\<lambda>resp.
       case pr_task resp of
         None \<Rightarrow> okE ()
       | Some task \<Rightarrow>
           andThen (report_activity_failure X (fst ca) (at_activity_id task) ''error'') (\<lambda>_. okE ()))"

text \<open>What the rounds need of the libraries: delays in range, and times that can be read back.\<close>

definition retry_texts_ok :: "ext \<Rightarrow> RetryPolicy \<Rightarrow> clock \<Rightarrow> bool" where
  "retry_texts_ok X p clk \<longleftrightarrow>
     (\<forall>e. unat e < unat (maximum_attempts p) \<longrightarrow>
        (\<exists>t u. add_secs X (utc_now clk) (backoff_secs p e) = Some t \<and> parse_step_datetime X (fmt_time X t) = Inr u))"

text \<open>The rounds are far enough apart: the delay set in one is over in the next.\<close>

definition delay_over :: "ext \<Rightarrow> RetryPolicy \<Rightarrow> clock \<Rightarrow> clock \<Rightarrow> bool" where
  "delay_over X p clk clk' \<longleftrightarrow>
     (\<forall>e t. unat e < unat (maximum_attempts p) \<longrightarrow> add_secs X (utc_now clk) (backoff_secs p e) = Some t \<longrightarrow>
        fmt_time X t \<le> sql_now clk')"

text \<open>The row can be read, and has the policy, the activity and the attempt number that are given.\<close>

definition readable_step :: "ext \<Rightarrow> RetryPolicy \<Rightarrow> string \<Rightarrow> sqltext \<Rightarrow> u32 \<Rightarrow> step_row \<Rightarrow> bool" where
  "readable_step X p name sid n r \<longleftrightarrow>
     st_id r = sid \<and> st_activity_name r = name \<and> st_attempt r = u32_as_i64 n \<and> st_state r = ''pending'' \<and>
     (\<exists>i. row_to_step X r = Inr i \<and> si_id i = sid \<and> si_retry_policy i = p)"

text \<open>No other step waits to be handed out.\<close>

definition lone_step :: "sqltext \<Rightarrow> db \<Rightarrow> bool" where
  "lone_step sid d \<longleftrightarrow> distinct (map st_id (workflow_steps d)) \<and>
     (\<forall>r \<in> set (workflow_steps d). st_id r \<noteq> sid \<longrightarrow> st_state r \<notin> {''pending'', ''retried''})"

lemma filter_unique_key:
  "distinct (map key xs) \<Longrightarrow> find (\<lambda>x. key x = k) xs = Some r \<Longrightarrow> filter (\<lambda>x. key x = k) xs = [r]"
proof (induction xs)
  case (Cons a xs)
  show ?case
  proof (cases "key a = k")
    case True
    then have "filter (\<lambda>x. key x = k) xs = []" using Cons.prems(1) by (auto simp: filter_empty_conv image_iff)
    with True Cons.prems(2) show ?thesis by simp
  next
    case False
    with Cons show ?thesis by simp
  qed
qed simp

lemma lone_step_ready:
  assumes "lone_step sid d" "find (\<lambda>r. st_id r = sid) (workflow_steps d) = Some r"
  shows "filter (step_ready clk) (workflow_steps d) = (if step_ready clk r then [r] else [])"
proof -
  have "filter (step_ready clk) (workflow_steps d) = filter (step_ready clk) (filter (\<lambda>x. st_id x = sid) (workflow_steps d))"
    using assms(1) by (auto simp: lone_step_def step_ready_def intro!: filter_cong)
  also have "\<dots> = (if step_ready clk r then [r] else [])"
    using assms by (simp add: filter_unique_key lone_step_def)
  finally show ?thesis .
qed

lemma lone_step_update:
  "lone_step sid d \<Longrightarrow> (\<And>r. st_id (f r) = st_id r) \<Longrightarrow>
   lone_step sid (d\<lparr>workflow_steps := update_where (\<lambda>r. st_id r = sid) f (workflow_steps d)\<rparr>)"
  by (simp add: lone_step_def map_update_where ball_update_where)

lemma readable_step_retried:
  assumes "readable_step X p name sid n r" "parse_step_datetime X (fmt_time X t) = Inr u"
  shows "readable_step X p name sid m (step_update X Pending (Some m) None (Some t) (step_update X st att res nxt r))"
  using assms
  by (auto simp: readable_step_def row_to_step_def step_update_def step_state_to_str_def format_datetime_def
      transpose_opt_def str_to_step_state_def bindS_def split: sum.splits option.splits)

text \<open>The step after a round, and the state of the server.\<close>

definition after_failure :: "ext \<Rightarrow> RetryPolicy \<Rightarrow> u32 \<Rightarrow> time \<Rightarrow> step_row \<Rightarrow> step_row" where
  "after_failure X p n t =
     (if n + 1 + 1 < maximum_attempts p then step_update X Pending (Some (n + 1 + 1)) None (Some t)
      else step_update X Failed (Some (n + 1 + 1)) None None)"

lemma after_failure_id [simp]: "st_id (after_failure X p n t r) = st_id r"
  by (simp add: after_failure_def)

lemma failing_round_run:
  assumes row: "find (\<lambda>r. st_id r = sid) (workflow_steps (srv_db s)) = Some r" "row_to_step X r = Inr i" "lone_step sid (srv_db s)"
    and i: "si_id i = sid" "si_retry_policy i = p" "si_attempt i = n" "si_activity_name i \<in> set (pa_activity_types req)"
    and ready: "step_ready clk r" and fresh: "aid \<notin> ac_id ` set (activities (srv_db s))"
    and delay: "n + 1 + 1 < maximum_attempts p \<Longrightarrow> add_secs X (utc_now clk) (backoff_secs p (n + 1)) = Some t"
  shows "failing_round X req (clk, aid) s = (Inr (), s\<lparr>srv_db := (assigned X clk aid i (srv_db s))\<lparr>
     activities := update_where (\<lambda>x. ac_id x = aid) (activity_update X clk Activity_Failed None (Some ''error''))
       (activities (assigned X clk aid i (srv_db s))),
     workflow_steps := update_where (\<lambda>x. st_id x = sid) (after_failure X p n t)
       (workflow_steps (assigned X clk aid i (srv_db s)))\<rparr>\<rparr>)"
proof -
  let ?d = "assigned X clk aid i (srv_db s)" let ?s = "s\<lparr>srv_db := ?d\<rparr>"
  let ?r = "step_update X Running (Some (n + 1)) None None r"
  have "sid \<in> st_id ` set (workflow_steps (srv_db s))" using find_SomeD [OF row(1)] by auto
  then have poll: "poll_activity X clk aid req s = (Inr \<lparr>pr_task = Some (activity_task_of aid i), pr_has_task = True\<rparr>, ?s)"
    using i(1,4) fresh ready row
    by (intro poll_activity_eq [where steps = "[i]"]) (simp_all add: lone_step_ready order_by_asc_def)
  have "find (\<lambda>r. ac_id r = aid) (activities (srv_db s)) = None"
    using fresh by (auto simp: find_None_iff)
  then have act: "find (\<lambda>r. ac_id r = aid) (activities (srv_db ?s)) = Some (attempt_row clk aid sid (n + 1))"
    by (simp add: assigned_def find_append i)
  have step: "find (\<lambda>r. st_id r = ac_step_id (attempt_row clk aid sid (n + 1))) (workflow_steps (srv_db ?s)) = Some ?r"
    using row(1) find_SomeD [OF row(1)] by (simp add: assigned_def i find_update_where)
  have policy: "retry_from_str X (st_retry_policy_json ?r) = Some p"
    using row_to_step_fields [OF row(2)] i by simp
  show ?thesis
    using report_activity_failure_eq [OF act _ step policy, of "n + 1" clk t "''error''"] delay
    by (simp add: failing_round_def exec_simps poll activity_task_of_def after_failure_def)
qed

lemma failing_round_idle:
  assumes "find (\<lambda>r. st_id r = sid) (workflow_steps (srv_db s)) = Some r" "lone_step sid (srv_db s)" "st_state r = ''failed''"
  shows "failing_round X req ca s = (Inr (), s)"
proof -
  have "filter (step_ready (fst ca)) (workflow_steps (srv_db s)) = []"
    using assms by (simp add: lone_step_ready step_ready_def)
  then show ?thesis
    by (simp add: failing_round_def poll_activity_def get_pending_steps_def exec_simps order_by_asc_def)
qed

lemma after_failure_again:
  assumes row: "readable_step X p name sid n r" and more: "n + 1 + 1 < maximum_attempts p" "unat (n + 1) < unat (maximum_attempts p)"
    and t: "add_secs X (utc_now clk) (backoff_secs p (n + 1)) = Some t" "parse_step_datetime X (fmt_time X t) = Inr u"
  shows "readable_step X p name sid (n + 1 + 1) (after_failure X p n t (step_update X st att res nxt r))"
    and "delay_over X p clk clk' \<Longrightarrow> step_ready clk' (after_failure X p n t (step_update X st att res nxt r))"
proof -
  have again: "after_failure X p n t = step_update X Pending (Some (n + 1 + 1)) None (Some t)"
    using more(1) unfolding after_failure_def by simp
  show "readable_step X p name sid (n + 1 + 1) (after_failure X p n t (step_update X st att res nxt r))"
    unfolding again by (rule readable_step_retried [OF row t(2)])
  assume "delay_over X p clk clk'"
  then have "fmt_time X t \<le> sql_now clk'"
    using more(2) t(1) unfolding delay_over_def by blast
  then show "step_ready clk' (after_failure X p n t (step_update X st att res nxt r))"
    by (simp add: again step_ready_def step_update_def step_state_to_str_def format_datetime_def)
qed

lemma failing_round_eq:
  assumes row: "find (\<lambda>r. st_id r = sid) (workflow_steps (srv_db s)) = Some r" "readable_step X p name sid n r" "lone_step sid (srv_db s)"
    and ready: "step_ready clk r" "name \<in> set (pa_activity_types req)"
    and fresh: "aid \<notin> ac_id ` set (activities (srv_db s))"
    and texts: "retry_texts_ok X p clk" "unat n + 2 < 2 ^ 32"
  shows "\<exists>s' r'. failing_round X req (clk, aid) s = (Inr (), s') \<and> lone_step sid (srv_db s') \<and>
     map ac_id (activities (srv_db s')) = map ac_id (activities (srv_db s)) @ [aid] \<and>
     find (\<lambda>r. st_id r = sid) (workflow_steps (srv_db s')) = Some r' \<and>
     (if unat n + 2 < unat (maximum_attempts p)
      then readable_step X p name sid (n + 1 + 1) r' \<and> (\<forall>clk'. delay_over X p clk clk' \<longrightarrow> step_ready clk' r')
      else st_state r' = ''failed'')"
proof -
  obtain i where i: "row_to_step X r = Inr i" "si_id i = sid" "si_retry_policy i = p"
    using row(2) by (auto simp: readable_step_def)
  have att: "si_attempt i = n" "si_activity_name i = name"
    using row_to_step_fields [OF i(1)] i row(2) by (auto simp: readable_step_def)
  have two: "unat (n + 1) = unat n + 1" "unat (n + 1 + 1) = unat n + 2"
    using texts(2) by (simp_all add: unat_word_ariths)
  have lt: "n + 1 + 1 < maximum_attempts p \<longleftrightarrow> unat n + 2 < unat (maximum_attempts p)"
    unfolding word_less_nat_alt two(2) ..
  obtain t u where t: "n + 1 + 1 < maximum_attempts p \<Longrightarrow>
      add_secs X (utc_now clk) (backoff_secs p (n + 1)) = Some t \<and> parse_step_datetime X (fmt_time X t) = Inr u"
    using texts(1) two(1) lt unfolding retry_texts_ok_def by (metis Suc_eq_plus1 add_2_eq_Suc' Suc_lessD)
  let ?r = "step_update X Running (Some (n + 1)) None None r"
  have run: "failing_round X req (clk, aid) s = (Inr (), s\<lparr>srv_db := (assigned X clk aid i (srv_db s))\<lparr>
     activities := update_where (\<lambda>x. ac_id x = aid) (activity_update X clk Activity_Failed None (Some ''error''))
       (activities (assigned X clk aid i (srv_db s))),
     workflow_steps := update_where (\<lambda>x. st_id x = sid) (after_failure X p n t)
       (workflow_steps (assigned X clk aid i (srv_db s)))\<rparr>\<rparr>)" (is "_ = (_, ?s')")
    using i att ready(2) t by (intro failing_round_run [OF row(1) i(1) row(3) _ _ _ _ ready(1) fresh]) simp_all
  have "find (\<lambda>r. st_id r = sid) (workflow_steps (srv_db ?s')) = Some (after_failure X p n t ?r)"
    using row(1) find_SomeD [OF row(1)] by (simp add: assigned_def i att find_update_where)
  moreover have "lone_step sid (srv_db ?s')"
    using lone_step_update [OF lone_step_update [OF row(3), of "step_update X Running (Some (n + 1)) None None"], of "after_failure X p n t"]
    by (simp add: assigned_def i att lone_step_def)
  moreover have "map ac_id (activities (srv_db ?s')) = map ac_id (activities (srv_db s)) @ [aid]"
    by (simp add: assigned_def map_update_where)
  moreover have "st_state (after_failure X p n t ?r) = ''failed''" if "\<not> unat n + 2 < unat (maximum_attempts p)"
    using that unfolding after_failure_def lt by (simp add: step_state_to_str_def)
  moreover have "readable_step X p name sid (n + 1 + 1) (after_failure X p n t ?r) \<and>
      (\<forall>clk'. delay_over X p clk clk' \<longrightarrow> step_ready clk' (after_failure X p n t ?r))"
    if more: "unat n + 2 < unat (maximum_attempts p)"
  proof -
    have lim: "n + 1 + 1 < maximum_attempts p" "unat (n + 1) < unat (maximum_attempts p)"
      using more two(1) unfolding lt by linarith+
    show ?thesis using after_failure_again [OF row(2) lim] t [OF lim(1)] by blast
  qed
  ultimately show ?thesis using run by (intro exI [of _ ?s'] exI) auto
qed

lemma failing_rounds_idle:
  assumes "find (\<lambda>r. st_id r = sid) (workflow_steps (srv_db s)) = Some r" "lone_step sid (srv_db s)" "st_state r = ''failed''"
  shows "forE (failing_round X req) rs s = (Inr (), s)"
  using failing_round_idle [OF assms] by (induction rs) simp_all

lemma half_last: "\<not> 2 * Suc k < m \<Longrightarrow> 2 * k < m \<Longrightarrow> (m + 1) div 2 = Suc k"
  by presburger

lemma half_step: "2 * Suc k < m \<Longrightarrow> (m + 1) div 2 - k = Suc ((m + 1) div 2 - Suc k)"
  by presburger

text \<open>What a list of rounds needs of the libraries, of its clocks and of the UUIDs drawn in it.\<close>

definition rounds_ok :: "ext \<Rightarrow> RetryPolicy \<Rightarrow> (clock \<times> uuid) list \<Rightarrow> db \<Rightarrow> bool" where
  "rounds_ok X p rs d \<longleftrightarrow> distinct (map snd rs) \<and> set (map snd rs) \<inter> set (map ac_id (activities d)) = {} \<and>
     (\<forall>ca \<in> set rs. retry_texts_ok X p (fst ca)) \<and> successively (delay_over X p) (map fst rs)"

lemma rounds_ok_Cons:
  assumes "rounds_ok X p ((clk, aid) # rs) d"
  shows "aid \<notin> ac_id ` set (activities d)" "retry_texts_ok X p clk" "rs \<noteq> [] \<Longrightarrow> delay_over X p clk (fst (hd rs))"
    and "map ac_id (activities d') = map ac_id (activities d) @ [aid] \<Longrightarrow> rounds_ok X p rs d'"
proof -
  show "rounds_ok X p rs d'" if "map ac_id (activities d') = map ac_id (activities d) @ [aid]"
    using assms unfolding rounds_ok_def that by (auto simp: successively_Cons)
qed (use assms in \<open>auto simp: rounds_ok_def successively_Cons hd_map\<close>)

lemma failing_rounds_from:
  assumes "find (\<lambda>r. st_id r = sid) (workflow_steps (srv_db s)) = Some r" "readable_step X p name sid n r" "lone_step sid (srv_db s)"
    and "name \<in> set (pa_activity_types req)" "rs \<noteq> [] \<longrightarrow> step_ready (fst (hd rs)) r" "rounds_ok X p rs (srv_db s)"
    and "unat n = 2 * k" "2 * k < unat (maximum_attempts p)" "unat (maximum_attempts p) + 3 < 2 ^ 32"
  shows "\<exists>s' r'. forE (failing_round X req) rs s = (Inr (), s') \<and>
     find (\<lambda>r. st_id r = sid) (workflow_steps (srv_db s')) = Some r' \<and>
     length (activities (srv_db s')) = length (activities (srv_db s)) + min (length rs) ((unat (maximum_attempts p) + 1) div 2 - k) \<and>
     st_state r' = (if k + length rs < (unat (maximum_attempts p) + 1) div 2 then ''pending'' else ''failed'')"
  using assms
proof (induction rs arbitrary: s r n k)
  case Nil
  have "k < (unat (maximum_attempts p) + 1) div 2" using Nil(8) by linarith
  with Nil show ?case by (auto simp: readable_step_def)
next
  case (Cons ca rs)
  obtain clk aid where ca: "ca = (clk, aid)" by force
  have small: "unat n + 2 < 2 ^ 32" using Cons.prems(7-9) by linarith
  note ok = rounds_ok_Cons [OF Cons.prems(6) [unfolded ca]]
  have ready: "step_ready clk r" using Cons.prems(5) ca by simp
  obtain s1 r1 where one: "failing_round X req ca s = (Inr (), s1)" "lone_step sid (srv_db s1)"
      "map ac_id (activities (srv_db s1)) = map ac_id (activities (srv_db s)) @ [aid]"
      "find (\<lambda>r. st_id r = sid) (workflow_steps (srv_db s1)) = Some r1"
    and next_row: "if unat n + 2 < unat (maximum_attempts p)
      then readable_step X p name sid (n + 1 + 1) r1 \<and> (\<forall>clk'. delay_over X p clk clk' \<longrightarrow> step_ready clk' r1)
      else st_state r1 = ''failed''"
    using failing_round_eq [OF Cons.prems(1-3) ready Cons.prems(4) ok(1,2) small] ca by blast
  have len: "length (activities (srv_db s1)) = Suc (length (activities (srv_db s)))"
    using arg_cong [OF one(3), of length] by simp
  show ?case
  proof (cases "2 * Suc k < unat (maximum_attempts p)")
    case True
    have next_n: "unat (n + 1 + 1) = 2 * Suc k"
      using small Cons.prems(7) by (simp add: unat_word_ariths)
    have row: "readable_step X p name sid (n + 1 + 1) r1" "rs \<noteq> [] \<longrightarrow> step_ready (fst (hd rs)) r1"
      using next_row True Cons.prems(7) ok(3) by (simp_all split: if_splits)
    obtain s' r' where "forE (failing_round X req) rs s1 = (Inr (), s')"
        "find (\<lambda>r. st_id r = sid) (workflow_steps (srv_db s')) = Some r'"
        "length (activities (srv_db s')) = length (activities (srv_db s1)) + min (length rs) ((unat (maximum_attempts p) + 1) div 2 - Suc k)"
        "st_state r' = (if Suc k + length rs < (unat (maximum_attempts p) + 1) div 2 then ''pending'' else ''failed'')"
      using Cons.IH [OF one(4) row(1) one(2) Cons.prems(4) row(2) ok(4) [OF one(3)] next_n True Cons.prems(9)] by blast
    with one(1) len half_step [OF True] show ?thesis by simp
  next
    case False
    then have half: "(unat (maximum_attempts p) + 1) div 2 = Suc k" using Cons.prems(8) by (rule half_last)
    have "st_state r1 = ''failed''" using False next_row Cons.prems(7) by (simp split: if_splits)
    then show ?thesis
      unfolding half using failing_rounds_idle [OF one(4,2)] one(4) by (simp add: one(1) len)
  qed
qed

text \<open>
  C9: a step that always fails is tried only half as often as its policy allows. The poll and the
  failure report both count the attempt, so with a limit of \<open>m\<close> attempts, and however often a worker
  polls once the delays are over, \<open>(m + 1) div 2\<close> activities are started at most; until then the step
  is pending, and from then on failed.
\<close>

theorem failing_step_tried_half:
  assumes "find (\<lambda>r. st_id r = sid) (workflow_steps (srv_db s)) = Some r" "readable_step X p name sid 0 r"
    and "lone_step sid (srv_db s)" "name \<in> set (pa_activity_types req)" "st_next_retry_at r = None"
    and "0 < maximum_attempts p" "unat (maximum_attempts p) + 3 < 2 ^ 32"
    and "distinct (map snd rs)" "set (map snd rs) \<inter> set (map ac_id (activities (srv_db s))) = {}"
    and "\<forall>ca \<in> set rs. retry_texts_ok X p (fst ca)" "successively (delay_over X p) (map fst rs)"
  shows "\<exists>s' r'. forE (failing_round X req) rs s = (Inr (), s') \<and>
     find (\<lambda>r. st_id r = sid) (workflow_steps (srv_db s')) = Some r' \<and>
     length (activities (srv_db s')) = length (activities (srv_db s)) + min (length rs) ((unat (maximum_attempts p) + 1) div 2) \<and>
     st_state r' = (if length rs < (unat (maximum_attempts p) + 1) div 2 then ''pending'' else ''failed'')"
proof -
  have pos: "2 * 0 < unat (maximum_attempts p)" using assms(6) by (simp add: unat_gt_0)
  have ready: "rs \<noteq> [] \<longrightarrow> step_ready (fst (hd rs)) r"
    using assms(2,5) by (simp add: readable_step_def step_ready_def)
  show ?thesis
    using failing_rounds_from [OF assms(1-4) ready _ _ pos assms(7)] assms(8-11) by (simp add: rounds_ok_def)
qed

lemma sample_backoff: "unat e < 3 \<Longrightarrow> backoff_secs \<lparr>maximum_attempts = 3, initial_interval_secs = 2\<rparr> e \<in> {2, 4, 8}"
proof -
  assume "unat e < 3"
  then have "unat e = 0 \<or> unat e = 1 \<or> unat e = 2" by linarith
  then show ?thesis
    using backoff_value [of "\<lparr>maximum_attempts = 3, initial_interval_secs = 2\<rparr>" 2 e] by (auto simp: i64_max_def)
qed

lemma sample_retry_texts: "retry_texts_ok ref_ext \<lparr>maximum_attempts = 3, initial_interval_secs = 2\<rparr> clk"
proof -
  have "parse_step_datetime ref_ext w = Inr (int (digits_val w) * nanos_per_sec)" for w
    by (simp add: parse_step_datetime_def)
  then show ?thesis
    using sample_backoff by (fastforce simp: retry_texts_ok_def i64_max_def)
qed

definition later_clock :: clock where
  "later_clock = \<lparr>utc_now = 2000 * nanos_per_sec, sql_now = digits_of 12 2000\<rparr>"

definition last_clock :: clock where
  "last_clock = \<lparr>utc_now = 3000 * nanos_per_sec, sql_now = digits_of 12 3000\<rparr>"

lemma sample_delays:
  "successively (delay_over ref_ext \<lparr>maximum_attempts = 3, initial_interval_secs = 2\<rparr>) [sample_clock, later_clock, last_clock]"
proof -
  have "fmt_time ref_ext t \<le> sql_now later_clock" if "add_secs ref_ext (utc_now sample_clock) b = Some t" "b \<in> {2, 4, 8}" for b t
    using that by (auto simp: sample_clock_def later_clock_def i64_max_def intro!: digits_of_mono)
  moreover have "fmt_time ref_ext t \<le> sql_now last_clock" if "add_secs ref_ext (utc_now later_clock) b = Some t" "b \<in> {2, 4, 8}" for b t
    using that by (auto simp: last_clock_def later_clock_def i64_max_def intro!: digits_of_mono)
  ultimately show ?thesis
    using sample_backoff by (auto simp: delay_over_def)
qed

theorem failing_step_tried_half_witness:
  "\<exists>s' r'. forE (failing_round ref_ext \<lparr>pa_task_queue = [], pa_activity_types = [''job'']\<rparr>)
        [(sample_clock, ''a1''), (later_clock, ''a2''), (last_clock, ''a3'')]
      (init_server\<lparr>srv_db := sample_db [] [sample_workflow ''r'' ''w'' ''running''] [sample_step ''s'' ''r'' 0 ''pending'' 0] []\<rparr>) = (Inr (), s') \<and>
     find (\<lambda>r. st_id r = ''s'') (workflow_steps (srv_db s')) = Some r' \<and> length (activities (srv_db s')) = 2 \<and> st_state r' = ''failed''"
proof -
  let ?p = "\<lparr>maximum_attempts = 3, initial_interval_secs = 2\<rparr>"
  let ?r = "sample_step ''s'' ''r'' 0 ''pending'' 0"
  let ?s = "init_server\<lparr>srv_db := sample_db [] [sample_workflow ''r'' ''w'' ''running''] [?r] []\<rparr>"
  have row: "readable_step ref_ext ?p ''job'' ''s'' 0 ?r"
    using sample_step_decodes [of "''s''" "''r''"]
    by (simp add: readable_step_def sample_instance_def sample_step_def u32_as_i64_def)
  have here: "find (\<lambda>r. st_id r = ''s'') (workflow_steps (srv_db ?s)) = Some ?r" "lone_step ''s'' (srv_db ?s)" "st_next_retry_at ?r = None"
    by (simp_all add: sample_db_def sample_step_def lone_step_def)
  show ?thesis
    using failing_step_tried_half [OF here(1) row here(2) _ here(3), of "\<lparr>pa_task_queue = [], pa_activity_types = [''job'']\<rparr>"
        "[(sample_clock, ''a1''), (later_clock, ''a2''), (last_clock, ''a3'')]"] sample_retry_texts sample_delays
    by (simp add: sample_db_def del: forE.simps) (simp only: numeral_2_eq_2)
qed

end
