(* ===== verification/Tests_Activities.thy ===== *)
theory Tests_Activities
  imports Server_State
begin

text \<open>
  The unit tests of \<open>db/src/activities.rs\<close>, as computations on a new database: \<open>unwrap\<close> and \<open>expect\<close> pass an
  error on, a failed assertion is the panic of a test. They run against the definitions of \<open>Db_Activities\<close>; that
  they pass, for all identifiers and clocks, shows that the model does what the authors of the code
  expect of it.
\<close>

section \<open>Running a test\<close>

definition assertE :: "bool \<Rightarrow> ('s, err, unit) exec" where
  "assertE b = (if b then okE () else errE Panicked)"

definition expectE :: "'a option \<Rightarrow> ('s, err, 'a) exec" where
  "expectE v = (case v of None \<Rightarrow> errE Panicked | Some a \<Rightarrow> okE a)"

text \<open>\<open>m.is_err()\<close>\<close>

definition isErrE :: "('s, err, 'a) exec \<Rightarrow> ('s, err, bool) exec" where
  "isErrE m s = (case m s of (Inl e, t) \<Rightarrow> (Inr True, t) | (Inr a, t) \<Rightarrow> (Inr False, t))"

text \<open>\<open>test_conn\<close>: a test runs on the database that \<open>migrate\<close> creates.\<close>

definition passes :: "(db, err, unit) exec \<Rightarrow> bool" where
  "passes t \<longleftrightarrow> fst (t migrate) = Inr ()"

declare assertE_def [exec_simps] expectE_def [exec_simps] isErrE_def [exec_simps]

section \<open>The tests\<close>

definition parent_row :: "uuid \<Rightarrow> wf_row" where
  "parent_row run_id = \<lparr>
     wf_run_id = run_id, wf_workflow_id = ''wf-'' @ run_id, wf_name = ''test_wf'', wf_task_queue = ''default'',
     wf_state = ''pending'', wf_args_json = ''{}'', wf_result_json = None, wf_execution_timeout_secs = None,
     wf_run_timeout_secs = None, wf_task_timeout_secs = None, wf_started_at = None, wf_completed_at = None,
     wf_namespace = ''default''\<rparr>"

definition insert_parent_workflow :: "uuid \<Rightarrow> (db, err, unit) exec" where
  "insert_parent_workflow run_id = exec_insert_workflow (parent_row run_id)"

definition make_step :: "uuid \<Rightarrow> uuid \<Rightarrow> u64 \<Rightarrow> WorkflowStepInstance" where
  "make_step sid workflow_run_id index = \<lparr>
     si_id = sid, si_workflow_run_id = workflow_run_id, si_step_index = index, si_activity_name = ''test_activity'',
     si_args_json = JObject [(''input'', JString ''data'')],
     si_retry_policy = \<lparr>maximum_attempts = 3, initial_interval_secs = 2\<rparr>,
     si_timeout_secs = 60, si_heartbeat_timeout_secs = Some 30, si_state = Pending, si_attempt = 0,
     si_result_json = None, si_next_retry_at = None\<rparr>"

text \<open>The arguments \<open>r\<close>, \<open>r2\<close> are the UUIDs of workflows a test draws, \<open>a\<close>, \<open>b\<close>, \<open>c\<close> those of its steps.\<close>

definition test_insert_and_get_step :: "ext \<Rightarrow> clock \<Rightarrow> uuid \<Rightarrow> uuid \<Rightarrow> (db, err, unit) exec" where
  "test_insert_and_get_step X clk r a =
     andThen (insert_parent_workflow r) (\<lambda>_.
     andThen (insert_workflow_step X clk (make_step a r 0)) (\<lambda>_.
     andThen (get_next_step_for_workflow X r) (\<lambda>found.
     andThen (expectE found) (\<lambda>result.
     andThen (assertE (si_step_index result = 0)) (\<lambda>_.
     andThen (assertE (si_activity_name result = ''test_activity'')) (\<lambda>_.
     assertE (si_state result = Pending)))))))"

definition test_get_next_step_returns_lowest_index :: "ext \<Rightarrow> clock \<Rightarrow> uuid \<Rightarrow> uuid \<Rightarrow> uuid \<Rightarrow> uuid \<Rightarrow> (db, err, unit) exec" where
  "test_get_next_step_returns_lowest_index X clk r a b c =
     andThen (insert_parent_workflow r) (\<lambda>_.
     andThen (insert_workflow_step X clk (make_step a r 2)) (\<lambda>_.
     andThen (insert_workflow_step X clk (make_step b r 0)) (\<lambda>_.
     andThen (insert_workflow_step X clk (make_step c r 1)) (\<lambda>_.
     andThen (get_next_step_for_workflow X r) (\<lambda>found.
     andThen (expectE found) (\<lambda>result. assertE (si_step_index result = 0)))))))"

definition test_get_pending_steps :: "ext \<Rightarrow> clock \<Rightarrow> uuid \<Rightarrow> uuid \<Rightarrow> uuid \<Rightarrow> uuid \<Rightarrow> (db, err, unit) exec" where
  "test_get_pending_steps X clk r r2 a b =
     andThen (insert_parent_workflow r) (\<lambda>_.
     andThen (insert_parent_workflow r2) (\<lambda>_.
     andThen (insert_workflow_step X clk (make_step a r 0)) (\<lambda>_.
     andThen (insert_workflow_step X clk (make_step b r2 0)) (\<lambda>_.
     andThen (get_pending_steps X clk) (\<lambda>pending. assertE (length pending = 2))))))"

definition test_update_step_state :: "ext \<Rightarrow> clock \<Rightarrow> uuid \<Rightarrow> uuid \<Rightarrow> (db, err, unit) exec" where
  "test_update_step_state X clk r a =
     andThen (insert_parent_workflow r) (\<lambda>_.
     andThen (insert_workflow_step X clk (make_step a r 0)) (\<lambda>_.
     andThen (update_step_state X a Running (Some 1) None None) (\<lambda>_.
     andThen (get_next_step_for_workflow X r) (\<lambda>result. assertE (result = None)))))"

text \<open>\<open>past\<close> is the text of \<open>datetime('now', '-1 minute')\<close>.\<close>

definition test_update_step_state_with_retry :: "ext \<Rightarrow> clock \<Rightarrow> sqltext \<Rightarrow> uuid \<Rightarrow> uuid \<Rightarrow> (db, err, unit) exec" where
  "test_update_step_state_with_retry X clk past r a =
     andThen (insert_parent_workflow r) (\<lambda>_.
     andThen (insert_workflow_step X clk (make_step a r 0)) (\<lambda>_.
     andThen (exec_update_steps (\<lambda>row. st_id row = a)
        (\<lambda>row. row\<lparr>st_state := ''pending'', st_attempt := 2, st_next_retry_at := Some past\<rparr>)) (\<lambda>_.
     andThen (get_pending_steps X clk) (\<lambda>pending. assertE (list_ex (\<lambda>s. si_id s = a) pending)))))"

definition test_insert_activity_attempt :: "ext \<Rightarrow> clock \<Rightarrow> uuid \<Rightarrow> uuid \<Rightarrow> (db, err, unit) exec" where
  "test_insert_activity_attempt X clk r a =
     andThen (insert_parent_workflow r) (\<lambda>_.
     andThen (insert_workflow_step X clk (make_step a r 0)) (\<lambda>_.
     andThen (insert_activity_attempt clk ''activity-1'' a 1) (\<lambda>_.
     andThen get_running_activities (\<lambda>running.
     andThen (assertE (length running = 1)) (\<lambda>_. assertE (ra_id (running ! 0) = ''activity-1''))))))"

definition test_update_activity_state :: "ext \<Rightarrow> clock \<Rightarrow> uuid \<Rightarrow> uuid \<Rightarrow> (db, err, unit) exec" where
  "test_update_activity_state X clk r a =
     andThen (insert_parent_workflow r) (\<lambda>_.
     andThen (insert_workflow_step X clk (make_step a r 0)) (\<lambda>_.
     andThen (insert_activity_attempt clk ''activity-1'' a 1) (\<lambda>_.
     andThen (update_activity_state X clk ''activity-1'' Activity_Completed (Some (JObject [(''result'', JString ''ok'')])) None) (\<lambda>_.
     andThen get_running_activities (\<lambda>running. assertE (running = []))))))"

definition test_heartbeat_update :: "ext \<Rightarrow> clock \<Rightarrow> uuid \<Rightarrow> uuid \<Rightarrow> (db, err, unit) exec" where
  "test_heartbeat_update X clk r a =
     andThen (insert_parent_workflow r) (\<lambda>_.
     andThen (insert_workflow_step X clk (make_step a r 0)) (\<lambda>_.
     andThen (insert_activity_attempt clk ''activity-1'' a 1) (\<lambda>_.
     heartbeat_update clk ''activity-1'')))"

definition test_heartbeat_nonexistent :: "clock \<Rightarrow> (db, err, unit) exec" where
  "test_heartbeat_nonexistent clk = andThen (isErrE (heartbeat_update clk ''nonexistent'')) assertE"

definition test_get_running_activities_empty :: "(db, err, unit) exec" where
  "test_get_running_activities_empty = andThen get_running_activities (\<lambda>running. assertE (running = []))"

definition test_step_completion_with_result :: "ext \<Rightarrow> clock \<Rightarrow> uuid \<Rightarrow> uuid \<Rightarrow> (db, err, unit) exec" where
  "test_step_completion_with_result X clk r a =
     andThen (insert_parent_workflow r) (\<lambda>_.
     andThen (insert_workflow_step X clk (make_step a r 0)) (\<lambda>_.
     andThen (update_step_state X a Completed (Some 1) (Some (JObject [(''output'', JString ''done'')])) None) (\<lambda>_.
     andThen (get_next_step_for_workflow X r) (\<lambda>result. assertE (result = None)))))"

definition test_multiple_steps_in_workflow :: "ext \<Rightarrow> clock \<Rightarrow> uuid \<Rightarrow> (nat \<Rightarrow> uuid) \<Rightarrow> (db, err, unit) exec" where
  "test_multiple_steps_in_workflow X clk r ids =
     andThen (insert_parent_workflow r) (\<lambda>_.
     andThen (forE (\<lambda>i. insert_workflow_step X clk (make_step (ids i) r (of_nat i))) [0..<3]) (\<lambda>_.
     andThen (get_pending_steps X clk) (\<lambda>pending.
     andThen (assertE (length pending = 3)) (\<lambda>_.
     andThen (update_step_state X (si_id (pending ! 0)) Completed (Some 1) None None) (\<lambda>_.
     andThen (get_pending_steps X clk) (\<lambda>pending. assertE (length pending = 2)))))))"

section \<open>They pass\<close>

text \<open>What the tests need of the libraries: the values they store are read back.\<close>

definition test_text_ok :: "ext \<Rightarrow> uuid set \<Rightarrow> bool" where
  "test_text_ok X ids \<longleftrightarrow> (\<forall>i \<in> ids. uuid_parse X i = Some i) \<and> json_text_ok X (JObject [(''input'', JString ''data'')]) \<and>
     retry_from_str X (retry_to_string X \<lparr>maximum_attempts = 3, initial_interval_secs = 2\<rparr>) =
       Some \<lparr>maximum_attempts = 3, initial_interval_secs = 2\<rparr>"

lemma make_step_simps [simp]:
  "si_id (make_step a r i) = a" "si_workflow_run_id (make_step a r i) = r" "si_step_index (make_step a r i) = i"
  "si_activity_name (make_step a r i) = ''test_activity''" "si_state (make_step a r i) = Pending"
  by (simp_all add: make_step_def)

definition test_row :: "ext \<Rightarrow> clock \<Rightarrow> uuid \<Rightarrow> uuid \<Rightarrow> u64 \<Rightarrow> step_row" where
  "test_row X clk a r i = step_to_row X clk (make_step a r i)"

lemma test_row_simps [simp]:
  "st_id (test_row X clk a r i) = a" "st_workflow_run_id (test_row X clk a r i) = r"
  "st_state (test_row X clk a r i) = ''pending''" "st_step_index (test_row X clk a r i) = u64_as_i64 i"
  "st_next_retry_at (test_row X clk a r i) = None" "st_created_at (test_row X clk a r i) = sql_now clk"
  "step_check (test_row X clk a r i)" "step_ready clk' (test_row X clk a r i)"
  by (simp_all add: test_row_def step_to_row_def make_step_def step_state_to_str_def step_check_def format_datetime_def step_ready_def)

lemma test_row_decodes [simp]:
  "test_text_ok X ids \<Longrightarrow> a \<in> ids \<Longrightarrow> r \<in> ids \<Longrightarrow> row_to_step X (test_row X clk a r i) = Inr (make_step a r i)"
  using step_codec.decode_encode [of X "make_step a r i" clk]
  by (simp add: test_row_def test_text_ok_def step_text_ok_def step_to_secs_def make_step_def)

lemma parent_row_simps [simp]: "wf_run_id (parent_row r) = r" "wf_check (parent_row r)"
  by (simp_all add: parent_row_def wf_check_def)

text \<open>How the tests begin, and the statements they use, as equations on the tables.\<close>

lemma parent_inserted:
  "r \<notin> wf_run_id ` set (workflows d) \<Longrightarrow> insert_parent_workflow r d = (Inr (), d\<lparr>workflows := workflows d @ [parent_row r]\<rparr>)"
  by (simp add: insert_parent_workflow_def exec_insert_workflow_def)

lemma step_inserted:
  "a \<notin> st_id ` set (workflow_steps d) \<Longrightarrow> r \<in> wf_run_id ` set (workflows d) \<Longrightarrow>
   insert_workflow_step X clk (make_step a r i) d = (Inr (), d\<lparr>workflow_steps := workflow_steps d @ [test_row X clk a r i]\<rparr>)"
  using test_row_simps(1-7) [where X = X and clk = clk and a = a and r = r and i = i] unfolding test_row_def
  by (simp add: insert_workflow_step_def exec_insert_step_def)

lemma attempt_inserted:
  "aid \<notin> ac_id ` set (activities d) \<Longrightarrow> a \<in> st_id ` set (workflow_steps d) \<Longrightarrow>
   insert_activity_attempt clk aid a n d = (Inr (), d\<lparr>activities := activities d @ [\<lparr>
     ac_id = aid, ac_step_id = a, ac_attempt = u32_as_i64 n, ac_state = ''running'', ac_started_at = Some (sql_now clk),
     ac_completed_at = None, ac_last_heartbeat_at = None, ac_result_json = None, ac_error_message = None\<rparr>]\<rparr>)"
  by (simp add: insert_activity_attempt_def exec_insert_activity_def act_check_def)

lemmas test_simps = passes_def exec_simps migrate_def parent_inserted step_inserted attempt_inserted order_by_asc_def
  update_step_state_eq update_activity_state_eq get_next_step_for_workflow_def get_pending_steps_def
  get_running_activities_def join_activities_def running_activity_def step_state_to_str_def

lemma tests_reading:
  assumes "test_text_ok X {r, r2, a, b, c}" "distinct [r2, r]" "distinct [c, b, a]"
  shows "passes (test_insert_and_get_step X clk r a)" "passes (test_get_next_step_returns_lowest_index X clk r a b c)"
    "passes (test_get_pending_steps X clk r r2 a b)"
  using assms
  by (simp_all add: test_insert_and_get_step_def test_get_next_step_returns_lowest_index_def test_get_pending_steps_def
      test_simps u64_as_i64_def)

lemma tests_updating:
  assumes "test_text_ok X {r, a}"
  shows "passes (test_update_step_state X clk r a)" "passes (test_step_completion_with_result X clk r a)"
  using assms by (simp_all add: test_update_step_state_def test_step_completion_with_result_def test_simps)

lemma tests_activities:
  "passes (test_insert_activity_attempt X clk r a)" "passes (test_update_activity_state X clk r a)"
  "passes (test_heartbeat_update X clk r a)" "passes (test_heartbeat_nonexistent clk)" "passes test_get_running_activities_empty"
  by (simp_all add: test_insert_activity_attempt_def test_update_activity_state_def test_heartbeat_update_def
      test_heartbeat_nonexistent_def test_get_running_activities_empty_def test_simps heartbeat_update_def
      exec_update_activities_def sql_update_def act_check_def count_where_def activity_state_to_str_def)

lemma step_retry_check: "step_check (row\<lparr>st_state := ''pending'', st_attempt := n, st_next_retry_at := t\<rparr>)"
  by (simp add: step_check_def)

lemma test_retry:
  assumes "test_text_ok X {r, a}" "past \<le> sql_now clk" "\<exists>t. parse_step_datetime X past = Inr t"
  shows "passes (test_update_step_state_with_retry X clk past r a)"
proof -
  let ?row = "(test_row X clk a r 0)\<lparr>st_state := ''pending'', st_attempt := 2, st_next_retry_at := Some past\<rparr>"
  have ready: "step_ready clk ?row" using assms(2) by (simp add: step_ready_def)
  obtain t where t: "parse_step_datetime X past = Inr t" using assms(3) by blast
  have "row_to_step X ?row = Inr ((make_step a r 0)\<lparr>si_attempt := 2, si_next_retry_at := Some t\<rparr>)"
    using test_row_decodes [OF assms(1), of a r clk 0] t
    by (auto simp: row_to_step_def bindS_def option_to_sum_def str_to_step_state_def i64_as_u32_def transpose_opt_def make_step_def
        split: sum.splits option.splits)
  with ready show ?thesis
    by (simp add: test_update_step_state_with_retry_def test_simps exec_update_steps_def sql_update_def step_retry_check)
qed

lemma test_several:
  assumes "test_text_ok X (insert r (ids ` {0..<3}))" "inj_on ids {0..<3}"
  shows "passes (test_multiple_steps_in_workflow X clk r ids)"
proof -
  have ne: "ids 1 \<noteq> ids 0" "ids 2 \<noteq> ids 0" "ids 2 \<noteq> ids 1" "ids 0 \<noteq> ids 1" "ids 0 \<noteq> ids 2"
    by (simp_all add: inj_on_eq_iff [OF assms(2)])
  have three: "[0..<3] = [0, 1, 2 :: nat]" by (simp add: upt_rec)
  have "row_to_step X (test_row X clk (ids i) r k) = Inr (make_step (ids i) r k)" if "i < 3" for i k
    using assms(1) that by (intro test_row_decodes) auto
  then show ?thesis
    using ne by (simp add: test_multiple_steps_in_workflow_def three test_simps step_ready_def)
qed

definition activities_tests :: "ext \<Rightarrow> clock \<Rightarrow> sqltext \<Rightarrow> uuid \<Rightarrow> uuid \<Rightarrow> uuid \<Rightarrow> uuid \<Rightarrow> uuid \<Rightarrow> (nat \<Rightarrow> uuid) \<Rightarrow> (db, err, unit) exec list" where
  "activities_tests X clk past r r2 a b c ids =
    [test_insert_and_get_step X clk r a, test_get_next_step_returns_lowest_index X clk r a b c,
    test_get_pending_steps X clk r r2 a b, test_update_step_state X clk r a, test_update_step_state_with_retry X clk past r a,
    test_insert_activity_attempt X clk r a, test_update_activity_state X clk r a, test_heartbeat_update X clk r a,
    test_heartbeat_nonexistent clk, test_get_running_activities_empty, test_step_completion_with_result X clk r a,
    test_multiple_steps_in_workflow X clk r ids]"

text \<open>
  The unit tests of \<open>db/src/activities.rs\<close> pass: for all identifiers that differ where the tests draw several, and
  for libraries that read back the values the tests store.
\<close>

lemma activities_tests_pass:
  assumes "test_text_ok X ({r, r2, a, b, c} \<union> ids ` {0..<3})" "distinct [r2, r]" "distinct [c, b, a]" "inj_on ids {0..<3}"
    and "past \<le> sql_now clk" "\<exists>t. parse_step_datetime X past = Inr t"
  shows "list_all passes (activities_tests X clk past r r2 a b c ids)"
proof -
  have "test_text_ok X {r, r2, a, b, c}" "test_text_ok X {r, a}" "test_text_ok X (insert r (ids ` {0..<3}))"
    using assms(1) by (auto simp: test_text_ok_def)
  with assms(2-6) show ?thesis
    by (simp add: activities_tests_def tests_reading tests_updating tests_activities test_retry test_several)
qed

end
