(* ===== verification/Tests_Engine.thy ===== *)
theory Tests_Engine
  imports Tests_Activities Engine Task_Queue
begin

text \<open>
  The unit tests of \<open>server/src/engine.rs\<close> and of \<open>core/src/task_queue.rs\<close>. A test of the engine has a
  connection to the database that the engine uses; both are the state of the model. The three tests of
  heartbeat timeouts are empty in the source, with the remark that the date format does not match; the
  theorem \<open>no_heartbeat_timeout\<close> says what this comes to.
\<close>

section \<open>The tests of the engine\<close>

definition engine_passes :: "(server, err, unit) exec \<Rightarrow> bool" where
  "engine_passes t \<longleftrightarrow> fst (t init_server) = Inr ()"

definition test_workflow_row :: "uuid \<Rightarrow> wf_row" where
  "test_workflow_row run_id = \<lparr>
     wf_run_id = run_id, wf_workflow_id = ''wf-'' @ run_id, wf_name = ''test_wf'', wf_task_queue = ''default'',
     wf_state = ''pending'', wf_args_json = ''{}'', wf_result_json = None, wf_execution_timeout_secs = None,
     wf_run_timeout_secs = None, wf_task_timeout_secs = None, wf_started_at = None, wf_completed_at = None,
     wf_namespace = ''default''\<rparr>"

definition test_insert_workflow :: "uuid \<Rightarrow> (server, err, unit) exec" where
  "test_insert_workflow run_id = with_db (exec_insert_workflow (test_workflow_row run_id))"

definition test_step_row :: "clock \<Rightarrow> uuid \<Rightarrow> uuid \<Rightarrow> i64 \<Rightarrow> step_row" where
  "test_step_row clk sid workflow_run_id index = \<lparr>
     st_id = sid, st_workflow_run_id = workflow_run_id, st_step_index = index, st_activity_name = ''test_activity'',
     st_args_json = ''{}'', st_retry_policy_json = ''{\"maximum_attempts\":3,\"initial_interval_secs\":2.0}'',
     st_timeout_secs = 60, st_heartbeat_timeout_secs = Some 30, st_state = ''pending'', st_attempt = 0,
     st_result_json = None, st_next_retry_at = None, st_created_at = sql_now clk\<rparr>"

definition test_insert_step :: "clock \<Rightarrow> uuid \<Rightarrow> uuid \<Rightarrow> i64 \<Rightarrow> (server, err, unit) exec" where
  "test_insert_step clk sid workflow_run_id index = with_db (exec_insert_step (test_step_row clk sid workflow_run_id index))"

definition set_step :: "(step_row \<Rightarrow> bool) \<Rightarrow> sqltext \<Rightarrow> (server, err, nat) exec" where
  "set_step P state = with_db (exec_update_steps P (\<lambda>r. r\<lparr>st_state := state\<rparr>))"

definition set_retried :: "sqltext \<Rightarrow> sqltext \<Rightarrow> (server, err, nat) exec" where
  "set_retried sid retry_at =
     with_db (exec_update_steps (\<lambda>r. st_id r = sid) (\<lambda>r. r\<lparr>st_state := ''retried'', st_next_retry_at := Some retry_at\<rparr>))"

definition workflow_state_is :: "uuid \<Rightarrow> sqltext \<Rightarrow> (server, err, unit) exec" where
  "workflow_state_is run_id expected =
     andThen (with_db (query_row workflows (\<lambda>r. wf_run_id r = run_id) wf_state)) (\<lambda>state. assertE (state = expected))"

definition test_process_pending_workflow_transitions_to_running :: "ext \<Rightarrow> clock \<Rightarrow> uuid \<Rightarrow> (server, err, unit) exec" where
  "test_process_pending_workflow_transitions_to_running X clk r =
     andThen (test_insert_workflow r) (\<lambda>_.
     andThen (process_workflows X clk) (\<lambda>_.
     workflow_state_is r ''running''))"

definition test_process_workflow_with_completed_steps :: "ext \<Rightarrow> clock \<Rightarrow> uuid \<Rightarrow> uuid \<Rightarrow> (server, err, unit) exec" where
  "test_process_workflow_with_completed_steps X clk r a =
     andThen (test_insert_workflow r) (\<lambda>_.
     andThen (test_insert_step clk a r 0) (\<lambda>_.
     andThen (set_step (\<lambda>row. st_id row = a) ''completed'') (\<lambda>_.
     andThen (process_workflows X clk) (\<lambda>_.
     workflow_state_is r ''completed''))))"

definition test_process_workflow_with_failed_step :: "ext \<Rightarrow> clock \<Rightarrow> uuid \<Rightarrow> uuid \<Rightarrow> (server, err, unit) exec" where
  "test_process_workflow_with_failed_step X clk r a =
     andThen (test_insert_workflow r) (\<lambda>_.
     andThen (test_insert_step clk a r 0) (\<lambda>_.
     andThen (set_step (\<lambda>row. st_id row = a) ''failed'') (\<lambda>_.
     andThen (process_workflows X clk) (\<lambda>_.
     workflow_state_is r ''failed''))))"

definition step_state_is :: "uuid \<Rightarrow> i64 \<Rightarrow> sqltext \<Rightarrow> (server, err, unit) exec" where
  "step_state_is run_id index expected =
     andThen (with_db (query_row workflow_steps (\<lambda>r. st_workflow_run_id r = run_id \<and> st_step_index r = index) st_state))
       (\<lambda>state. assertE (state = expected))"

definition test_step_ordering_dependency_check :: "ext \<Rightarrow> clock \<Rightarrow> uuid \<Rightarrow> uuid \<Rightarrow> uuid \<Rightarrow> uuid \<Rightarrow> (server, err, unit) exec" where
  "test_step_ordering_dependency_check X clk r a b c =
     andThen (test_insert_workflow r) (\<lambda>_.
     andThen (test_insert_step clk a r 0) (\<lambda>_.
     andThen (test_insert_step clk b r 1) (\<lambda>_.
     andThen (test_insert_step clk c r 2) (\<lambda>_.
     andThen (process_workflows X clk) (\<lambda>_.
     andThen (step_state_is r 0 ''pending'') (\<lambda>_.
     andThen (set_step (\<lambda>row. st_workflow_run_id row = r \<and> st_step_index row = 0) ''completed'') (\<lambda>_.
     andThen (process_workflows X clk) (\<lambda>_.
     step_state_is r 1 ''pending''))))))))"

text \<open>\<open>past\<close> and \<open>future\<close> are the texts of \<open>datetime('now', '-1 minute')\<close> and \<open>datetime('now', '+1 hour')\<close>.\<close>

definition test_check_retries_resets_ready_steps :: "ext \<Rightarrow> clock \<Rightarrow> sqltext \<Rightarrow> uuid \<Rightarrow> uuid \<Rightarrow> (server, err, unit) exec" where
  "test_check_retries_resets_ready_steps X clk past r a =
     andThen (test_insert_workflow r) (\<lambda>_.
     andThen (test_insert_step clk a r 0) (\<lambda>_.
     andThen (set_retried a past) (\<lambda>_.
     andThen (with_db (check_retries X clk)) (\<lambda>_.
     andThen (with_db (query_row workflow_steps (\<lambda>row. st_id row = a) (\<lambda>row. (st_state row, st_next_retry_at row)))) (\<lambda>(state, next_retry).
     andThen (assertE (state = ''pending'')) (\<lambda>_. assertE (next_retry = None)))))))"

definition test_check_retries_skips_future_steps :: "ext \<Rightarrow> clock \<Rightarrow> sqltext \<Rightarrow> uuid \<Rightarrow> uuid \<Rightarrow> (server, err, unit) exec" where
  "test_check_retries_skips_future_steps X clk future r a =
     andThen (test_insert_workflow r) (\<lambda>_.
     andThen (test_insert_step clk a r 0) (\<lambda>_.
     andThen (set_retried a future) (\<lambda>_.
     andThen (with_db (check_retries X clk)) (\<lambda>_.
     andThen (with_db (query_row workflow_steps (\<lambda>row. st_id row = a) (\<lambda>row. (st_state row, st_next_retry_at row)))) (\<lambda>(state, next_retry).
     andThen (assertE (state = ''retried'')) (\<lambda>_. assertE (next_retry \<noteq> None)))))))"

definition test_process_empty_workflows :: "ext \<Rightarrow> clock \<Rightarrow> (server, err, unit) exec" where
  "test_process_empty_workflows X clk = process_workflows X clk"

definition test_check_retries_empty :: "ext \<Rightarrow> clock \<Rightarrow> (server, err, unit) exec" where
  "test_check_retries_empty X clk = with_db (check_retries X clk)"

definition test_check_heartbeats_empty :: "ext \<Rightarrow> clock \<Rightarrow> (server, err, unit) exec" where
  "test_check_heartbeats_empty X clk = with_db (check_heartbeats X clk)"

definition test_engine_event_workflow_created :: "ext \<Rightarrow> clock \<Rightarrow> uuid \<Rightarrow> uuid \<Rightarrow> (server, err, unit) exec" where
  "test_engine_event_workflow_created X clk r a =
     andThen (test_insert_workflow r) (\<lambda>_.
     andThen (test_insert_step clk a r 0) (\<lambda>_.
     andThen (handle_workflow_created X clk r) (\<lambda>_.
     workflow_state_is r ''running'')))"

definition test_engine_event_step_completed :: "ext \<Rightarrow> clock \<Rightarrow> uuid \<Rightarrow> uuid \<Rightarrow> (server, err, unit) exec" where
  "test_engine_event_step_completed X clk r a =
     andThen (test_insert_workflow r) (\<lambda>_.
     andThen (test_insert_step clk a r 0) (\<lambda>_.
     andThen (set_step (\<lambda>row. st_workflow_run_id row = r) ''completed'') (\<lambda>_.
     andThen (handle_step_completed X clk r) (\<lambda>_.
     workflow_state_is r ''completed''))))"

definition test_engine_event_retry_due :: "ext \<Rightarrow> clock \<Rightarrow> sqltext \<Rightarrow> uuid \<Rightarrow> uuid \<Rightarrow> (server, err, unit) exec" where
  "test_engine_event_retry_due X clk past r a =
     andThen (test_insert_workflow r) (\<lambda>_.
     andThen (test_insert_step clk a r 0) (\<lambda>_.
     andThen (set_retried a past) (\<lambda>_.
     andThen (handle_retry_due X clk a) (\<lambda>_.
     andThen (with_db (query_row workflow_steps (\<lambda>row. st_id row = a) st_state)) (\<lambda>state. assertE (state = ''pending''))))))"

text \<open>The channel: what is sent is received, and two senders feed the same channel.\<close>

definition test_broadcast_channel_basic :: "(server, err, unit) exec" where
  "test_broadcast_channel_basic =
     andThen (send_event (WorkflowCreated ''test-123'')) (\<lambda>_.
     andThen (readE (\<lambda>s. Inr (srv_events s))) (\<lambda>received.
     case received of WorkflowCreated _ # _ \<Rightarrow> okE () | _ \<Rightarrow> errE Panicked))"

definition test_engine_sender_cloning :: "(server, err, unit) exec" where
  "test_engine_sender_cloning =
     andThen (send_event ScheduleChange) (\<lambda>_. send_event (WorkflowCreated ''test''))"

section \<open>They pass\<close>

lemma test_row_checks [simp]:
  "wf_run_id (test_workflow_row r) = r" "wf_state (test_workflow_row r) = ''pending''" "wf_check (test_workflow_row r)"
  "st_id (test_step_row clk a r i) = a" "st_workflow_run_id (test_step_row clk a r i) = r" "st_step_index (test_step_row clk a r i) = i"
  "st_state (test_step_row clk a r i) = ''pending''" "step_check (test_step_row clk a r i)"
  by (simp_all add: test_workflow_row_def wf_check_def test_step_row_def step_check_def)

lemma update_checks:
  "step_check (row\<lparr>st_state := ''completed''\<rparr>)" "step_check (row\<lparr>st_state := ''failed''\<rparr>)"
  "step_check (row\<lparr>st_state := ''retried'', st_next_retry_at := t\<rparr>)" "step_check (row\<lparr>st_state := ''pending'', st_next_retry_at := t\<rparr>)"
  by (simp_all add: step_check_def)

lemmas engine_setup = test_insert_workflow_def exec_insert_workflow_def test_insert_step_def exec_insert_step_def
  set_step_def set_retried_def exec_update_steps_def sql_update_def update_checks init_server_def migrate_def
  workflow_state_is_def step_state_is_def query_row_def count_where_def

lemmas engine_test_simps = engine_passes_def exec_simps engine_setup process_workflows_def process_single_workflow_eq
  steps_of_def wf_verdict_def mark_started_def finish_workflow_def finish_row_def workflow_state_to_str_def
  schedule_timers_for_workflow_def schedule_retry_timers_for_workflow_def schedule_heartbeat_timers_for_workflow_def
  join_activities_def order_by_asc_def

lemma tests_processing:
  "engine_passes (test_process_pending_workflow_transitions_to_running X clk r)"
  "engine_passes (test_process_workflow_with_completed_steps X clk r a)"
  "engine_passes (test_process_workflow_with_failed_step X clk r a)"
  "engine_passes (test_process_empty_workflows X clk)"
  by (simp_all add: test_process_pending_workflow_transitions_to_running_def test_process_workflow_with_completed_steps_def
      test_process_workflow_with_failed_step_def test_process_empty_workflows_def engine_test_simps)

lemma test_ordering:
  assumes "distinct [c, b, a]"
  shows "engine_passes (test_step_ordering_dependency_check X clk r a b c)"
  using assms by (simp add: test_step_ordering_dependency_check_def engine_test_simps)

lemma tests_retries:
  assumes "past \<le> fmt_time X (utc_now clk)" "\<not> future \<le> fmt_time X (utc_now clk)"
  shows "engine_passes (test_check_retries_resets_ready_steps X clk past r a)"
    "engine_passes (test_check_retries_skips_future_steps X clk future r a)"
    "engine_passes (test_check_retries_empty X clk)" "engine_passes (test_check_heartbeats_empty X clk)"
  using assms
  by (simp_all add: test_check_retries_resets_ready_steps_def test_check_retries_skips_future_steps_def test_check_retries_empty_def
      test_check_heartbeats_empty_def check_retries_def check_heartbeats_def get_running_activities_def stmt_reset_step_def engine_test_simps)

lemma tests_events:
  "engine_passes (test_engine_event_workflow_created X clk r a)" "engine_passes (test_engine_event_step_completed X clk r a)"
  "engine_passes (test_engine_event_retry_due X clk past r a)" "engine_passes test_broadcast_channel_basic"
  "engine_passes test_engine_sender_cloning"
  by (simp_all add: test_engine_event_workflow_created_def test_engine_event_step_completed_def test_engine_event_retry_due_def
      test_broadcast_channel_basic_def test_engine_sender_cloning_def handle_workflow_created_def handle_step_completed_def
      handle_retry_due_def stmt_reset_step_def engine_test_simps)

definition engine_tests :: "ext \<Rightarrow> clock \<Rightarrow> sqltext \<Rightarrow> sqltext \<Rightarrow> uuid \<Rightarrow> uuid \<Rightarrow> uuid \<Rightarrow> uuid \<Rightarrow> (server, err, unit) exec list" where
  "engine_tests X clk past future r a b c =
    [test_process_pending_workflow_transitions_to_running X clk r,
    test_process_workflow_with_completed_steps X clk r a, test_process_workflow_with_failed_step X clk r a,
    test_step_ordering_dependency_check X clk r a b c, test_check_retries_resets_ready_steps X clk past r a,
    test_check_retries_skips_future_steps X clk future r a, test_process_empty_workflows X clk, test_check_retries_empty X clk,
    test_check_heartbeats_empty X clk, test_engine_event_workflow_created X clk r a, test_engine_event_step_completed X clk r a,
    test_engine_event_retry_due X clk past r a, test_broadcast_channel_basic, test_engine_sender_cloning]"

text \<open>
  The unit tests of \<open>server/src/engine.rs\<close> pass, for all identifiers and clocks and with no assumption on the libraries
  but that the text of a past time is before the text of the present and that of a future time after it.
\<close>

lemma engine_tests_pass:
  assumes "distinct [c, b, a]" "past \<le> fmt_time X (utc_now clk)" "\<not> future \<le> fmt_time X (utc_now clk)"
  shows "list_all engine_passes (engine_tests X clk past future r a b c)"
  using assms by (simp add: engine_tests_def tests_processing test_ordering tests_retries tests_events)

section \<open>The tests of the task queue\<close>

definition test_register_and_unregister_worker :: "time \<Rightarrow> bool" where
  "test_register_and_unregister_worker now \<longleftrightarrow>
     (let queue = tq_new ''default'' in worker_count queue = 0 \<and>
     (let queue = register_worker now ''w1'' [''activity_a''] queue in
        worker_count queue = 1 \<and> has_handler queue ''activity_a'' \<and>
     (let (removed, queue) = unregister_worker ''w1'' queue in removed \<noteq> None \<and> worker_count queue = 0)))"

definition test_update_heartbeat :: "time \<Rightarrow> bool" where
  "test_update_heartbeat now \<longleftrightarrow>
     (let queue = register_worker now ''w1'' [''activity_a''] (tq_new ''default'') in
     (let (found, queue) = update_heartbeat now ''w1'' queue in found \<and>
     (let (found, queue) = update_heartbeat now ''nonexistent'' queue in \<not> found)))"

definition test_get_handlers :: "time \<Rightarrow> bool" where
  "test_get_handlers now \<longleftrightarrow>
     (let queue = register_worker now ''w2'' [''activity_a''] (register_worker now ''w1'' [''activity_a'', ''activity_b''] (tq_new ''default'')) in
      length (get_handlers queue ''activity_a'') = 2 \<and> length (get_handlers queue ''activity_b'') = 1)"

lemma task_queue_tests_pass: "test_register_and_unregister_worker now" "test_update_heartbeat now" "test_get_handlers now"
  by (simp_all add: test_register_and_unregister_worker_def test_update_heartbeat_def test_get_handlers_def tq_new_def register_worker_def
      tq_insert_def worker_count_def has_handler_def unregister_worker_def tq_remove_def get_worker_def update_heartbeat_def get_handlers_def Let_def)

end
