(* ===== verification/Tests_Workflows.thy ===== *)
theory Tests_Workflows
  imports Tests_Activities
begin

text \<open>The unit tests of \<open>db/src/workflows.rs\<close> on the definitions of \<open>Db_Workflows\<close>.\<close>

section \<open>The tests\<close>

definition make_workflow :: "uuid \<Rightarrow> WorkflowInstance" where
  "make_workflow run_id = \<lparr>
     wi_run_id = run_id, wi_workflow_id = ''wf-'' @ take 8 run_id, wi_name = ''test_workflow'', wi_task_queue = ''default'',
     wi_state = Pending, wi_args_json = JObject [(''input'', JString ''data'')], wi_result_json = None,
     wi_timeouts = \<lparr>execution_timeout_secs = Some 3600, run_timeout_secs = Some 1800, task_timeout_secs = Some 300\<rparr>,
     wi_started_at = None, wi_completed_at = None, wi_namespace = ''default''\<rparr>"

definition test_insert_and_get_workflow :: "ext \<Rightarrow> uuid \<Rightarrow> (db, err, unit) exec" where
  "test_insert_and_get_workflow X r =
     andThen (insert_workflow X (make_workflow r)) (\<lambda>_.
     andThen (get_workflow X r) (\<lambda>found.
     andThen (expectE found) (\<lambda>result.
     andThen (assertE (wi_run_id result = r)) (\<lambda>_.
     andThen (assertE (wi_name result = ''test_workflow'')) (\<lambda>_.
     assertE (wi_state result = Pending))))))"

definition test_get_nonexistent_workflow :: "ext \<Rightarrow> (db, err, unit) exec" where
  "test_get_nonexistent_workflow X =
     andThen (get_workflow X ''00000000-0000-0000-0000-000000000000'') (\<lambda>result. assertE (result = None))"

definition test_list_workflows_empty :: "ext \<Rightarrow> (db, err, unit) exec" where
  "test_list_workflows_empty X = andThen (list_workflows X ''default'' None) (\<lambda>workflows. assertE (workflows = []))"

definition test_list_workflows_multiple :: "ext \<Rightarrow> uuid \<Rightarrow> uuid \<Rightarrow> (db, err, unit) exec" where
  "test_list_workflows_multiple X r r2 =
     andThen (insert_workflow X (make_workflow r)) (\<lambda>_.
     andThen (insert_workflow X (make_workflow r2)) (\<lambda>_.
     andThen (list_workflows X ''default'' None) (\<lambda>workflows. assertE (length workflows = 2))))"

definition test_list_workflows_state_filter :: "ext \<Rightarrow> uuid \<Rightarrow> uuid \<Rightarrow> (db, err, unit) exec" where
  "test_list_workflows_state_filter X r r2 =
     andThen (insert_workflow X ((make_workflow r)\<lparr>wi_state := Pending\<rparr>)) (\<lambda>_.
     andThen (insert_workflow X ((make_workflow r2)\<lparr>wi_state := Running\<rparr>)) (\<lambda>_.
     andThen (list_workflows X ''default'' (Some Pending)) (\<lambda>pending.
     andThen (assertE (length pending = 1)) (\<lambda>_.
     andThen (list_workflows X ''default'' (Some Running)) (\<lambda>running.
     andThen (assertE (length running = 1)) (\<lambda>_.
     andThen (list_workflows X ''default'' None) (\<lambda>all. assertE (length all = 2))))))))"

definition test_update_workflow_state :: "ext \<Rightarrow> time \<Rightarrow> uuid \<Rightarrow> (db, err, unit) exec" where
  "test_update_workflow_state X completed_at r =
     andThen (insert_workflow X (make_workflow r)) (\<lambda>_.
     andThen (update_workflow_state X r Running None None) (\<lambda>_.
     andThen (get_workflow X r) (\<lambda>found.
     andThen (expectE found) (\<lambda>result.
     andThen (assertE (wi_state result = Running)) (\<lambda>_.
     andThen (update_workflow_state X r Completed (Some (JObject [(''output'', JString ''done'')])) (Some completed_at)) (\<lambda>_.
     andThen (get_workflow X r) (\<lambda>found.
     andThen (expectE found) (\<lambda>result.
     andThen (assertE (wi_state result = Completed)) (\<lambda>_.
     andThen (assertE (wi_result_json result \<noteq> None)) (\<lambda>_.
     assertE (wi_completed_at result \<noteq> None)))))))))))"

definition test_cancel_workflow :: "ext \<Rightarrow> clock \<Rightarrow> uuid \<Rightarrow> (db, err, unit) exec" where
  "test_cancel_workflow X clk r =
     andThen (insert_workflow X (make_workflow r)) (\<lambda>_.
     andThen (cancel_workflow clk r) (\<lambda>_.
     andThen (get_workflow X r) (\<lambda>found.
     andThen (expectE found) (\<lambda>result. assertE (wi_state result = Cancelled)))))"

definition test_cancel_already_completed_workflow :: "ext \<Rightarrow> clock \<Rightarrow> uuid \<Rightarrow> (db, err, unit) exec" where
  "test_cancel_already_completed_workflow X clk r =
     andThen (insert_workflow X ((make_workflow r)\<lparr>wi_state := Completed\<rparr>)) (\<lambda>_.
     andThen (isErrE (cancel_workflow clk r)) assertE)"

definition test_cancel_nonexistent_workflow :: "clock \<Rightarrow> (db, err, unit) exec" where
  "test_cancel_nonexistent_workflow clk =
     andThen (isErrE (cancel_workflow clk ''00000000-0000-0000-0000-000000000000'')) assertE"

definition test_workflow_namespace_filter :: "ext \<Rightarrow> uuid \<Rightarrow> uuid \<Rightarrow> (db, err, unit) exec" where
  "test_workflow_namespace_filter X r r2 =
     andThen (insert_workflow X (make_workflow r)) (\<lambda>_.
     andThen (insert_workflow X ((make_workflow r2)\<lparr>wi_namespace := ''other''\<rparr>)) (\<lambda>_.
     andThen (list_workflows X ''default'' None) (\<lambda>own.
     andThen (assertE (length own = 1)) (\<lambda>_.
     andThen (list_workflows X ''other'' None) (\<lambda>other. assertE (length other = 1))))))"

definition test_workflow_round_trip_with_timeouts :: "ext \<Rightarrow> uuid \<Rightarrow> (db, err, unit) exec" where
  "test_workflow_round_trip_with_timeouts X r =
     andThen (insert_workflow X \<lparr>
        wi_run_id = r, wi_workflow_id = ''timeout-test'', wi_name = ''wf'', wi_task_queue = ''default'', wi_state = Pending,
        wi_args_json = JObject [], wi_result_json = None,
        wi_timeouts = \<lparr>execution_timeout_secs = Some 7200, run_timeout_secs = Some 3600, task_timeout_secs = Some 600\<rparr>,
        wi_started_at = None, wi_completed_at = None, wi_namespace = ''default''\<rparr>) (\<lambda>_.
     andThen (get_workflow X r) (\<lambda>found.
     andThen (expectE found) (\<lambda>result.
     andThen (assertE (execution_timeout_secs (wi_timeouts result) = Some 7200)) (\<lambda>_.
     andThen (assertE (run_timeout_secs (wi_timeouts result) = Some 3600)) (\<lambda>_.
     assertE (task_timeout_secs (wi_timeouts result) = Some 600))))))"

section \<open>They pass\<close>

text \<open>Rows of workflows that the tests insert are read back.\<close>

definition wf_test_ok :: "ext \<Rightarrow> uuid set \<Rightarrow> bool" where
  "wf_test_ok X ids \<longleftrightarrow> (\<forall>i \<in> ids. uuid_parse X i = Some i) \<and> json_text_ok X (JObject [(''input'', JString ''data'')]) \<and>
     json_text_ok X (JObject [(''output'', JString ''done'')]) \<and> json_text_ok X (JObject [])"

lemma insert_workflow_fresh:
  "wi_run_id w \<notin> wf_run_id ` set (workflows d) \<Longrightarrow>
   insert_workflow X w d = (Inr (), d\<lparr>workflows := workflows d @ [workflow_to_row X w]\<rparr>)"
  by (cases "wi_state w") (simp_all add: insert_workflow_def exec_insert_workflow_def workflow_to_row_def wf_check_def workflow_state_to_str_def)

lemma make_workflow_simps [simp]:
  "wi_run_id (make_workflow r) = r" "wi_name (make_workflow r) = ''test_workflow''" "wi_state (make_workflow r) = Pending"
  "wi_namespace (make_workflow r) = ''default''" "wi_started_at (make_workflow r) = None" "wi_completed_at (make_workflow r) = None"
  by (simp_all add: make_workflow_def)

lemma workflow_to_row_simps [simp]:
  "wf_run_id (workflow_to_row X w) = wi_run_id w" "wf_namespace (workflow_to_row X w) = wi_namespace w"
  "wf_state (workflow_to_row X w) = workflow_state_to_str (wi_state w)" "wf_started_at (workflow_to_row X w) = format_datetime X (wi_started_at w)"
  by (simp_all add: workflow_to_row_def)

lemma workflow_row_decodes:
  "wf_test_ok X ids \<Longrightarrow> r \<in> ids \<Longrightarrow>
   row_to_workflow X (workflow_to_row X ((make_workflow r)\<lparr>wi_state := st, wi_namespace := ns\<rparr>)) =
     Inr ((make_workflow r)\<lparr>wi_state := st, wi_namespace := ns\<rparr>)"
  using wf_codec.decode_encode [of X "(make_workflow r)\<lparr>wi_state := st, wi_namespace := ns\<rparr>"]
  by (simp add: wf_test_ok_def workflow_text_ok_def workflow_to_secs_def make_workflow_def)

lemma make_workflow_updates:
  "(make_workflow r)\<lparr>wi_state := Pending\<rparr> = make_workflow r" "(make_workflow r)\<lparr>wi_namespace := ''default''\<rparr> = make_workflow r"
  by (simp_all add: make_workflow_def)

lemmas wf_decode = workflow_row_decodes [where st = Pending and ns = "''default''", simplified make_workflow_updates]
  workflow_row_decodes [where ns = "''default''", unfolded make_workflow_def, simplified, folded make_workflow_def]
  workflow_row_decodes [where st = Pending, simplified make_workflow_updates]

lemmas wf_test_simps = passes_def exec_simps migrate_def insert_workflow_fresh get_workflow_def list_workflows_def
  order_by_desc_def workflow_state_to_str_def

lemma tests_listing:
  assumes "wf_test_ok X {r, r2}" "r2 \<noteq> r"
  shows "passes (test_insert_and_get_workflow X r)" "passes (test_get_nonexistent_workflow X)" "passes (test_list_workflows_empty X)"
    "passes (test_list_workflows_multiple X r r2)" "passes (test_workflow_namespace_filter X r r2)"
  using assms
  by (simp_all add: test_insert_and_get_workflow_def test_get_nonexistent_workflow_def test_list_workflows_empty_def
      test_list_workflows_multiple_def test_workflow_namespace_filter_def wf_test_simps wf_decode format_datetime_def)

lemma test_filtering:
  assumes "wf_test_ok X {r, r2}" "r2 \<noteq> r"
  shows "passes (test_list_workflows_state_filter X r r2)"
proof -
  let ?w = "make_workflow r" and ?w2 = "(make_workflow r2)\<lparr>wi_state := Running\<rparr>"
  have "row_to_workflow X (workflow_to_row X ?w) = Inr ?w" "row_to_workflow X (workflow_to_row X ?w2) = Inr ?w2"
    using workflow_row_decodes [OF assms(1), where r = r and st = Pending and ns = "''default''"] workflow_row_decodes [OF assms(1), where r = r2 and st = Running and ns = "''default''"]
    by (simp_all add: make_workflow_def)
  with assms(2) show ?thesis
    by (simp add: test_list_workflows_state_filter_def make_workflow_updates wf_test_simps format_datetime_def)
qed

text \<open>What a row holds after an update of its state.\<close>

lemma updated_row_decodes:
  assumes "wf_test_ok X {r}" "pred_option (json_text_ok X) res" "pred_option (time_text_ok X) compl"
  shows "row_to_workflow X ((workflow_to_row X (make_workflow r))\<lparr>wf_state := workflow_state_to_str st,
      wf_result_json := map_option (json_to_string X) res, wf_completed_at := format_datetime X compl\<rparr>) =
    Inr ((make_workflow r)\<lparr>wi_state := st, wi_result_json := res, wi_completed_at := map_option trunc_secs compl\<rparr>)"
proof -
  let ?w = "(make_workflow r)\<lparr>wi_state := st, wi_result_json := res, wi_completed_at := compl\<rparr>"
  have "workflow_text_ok X ?w" using assms by (simp add: wf_test_ok_def workflow_text_ok_def make_workflow_def)
  from wf_codec.decode_encode [OF this] show ?thesis
    by (simp add: workflow_to_row_def workflow_to_secs_def make_workflow_def)
qed

lemma test_updating:
  assumes "wf_test_ok X {r}" "time_text_ok X t"
  shows "passes (test_update_workflow_state X t r)"
proof -
  let ?row = "workflow_to_row X (make_workflow r)"
  have "json_text_ok X (JObject [(''output'', JString ''done'')])" using assms(1) by (simp add: wf_test_ok_def)
  then have "row_to_workflow X (?row\<lparr>wf_state := ''running'', wf_result_json := None, wf_completed_at := format_datetime X None\<rparr>) =
      Inr ((make_workflow r)\<lparr>wi_state := Running, wi_result_json := None, wi_completed_at := None\<rparr>)"
    "row_to_workflow X (?row\<lparr>wf_state := ''completed'', wf_result_json := Some (json_to_string X (JObject [(''output'', JString ''done'')])),
        wf_completed_at := format_datetime X (Some t)\<rparr>) =
      Inr ((make_workflow r)\<lparr>wi_state := Completed, wi_result_json := Some (JObject [(''output'', JString ''done'')]),
        wi_completed_at := Some (trunc_secs t)\<rparr>)"
    using updated_row_decodes [OF assms(1), of None None Running]
      updated_row_decodes [OF assms(1), of "Some (JObject [(''output'', JString ''done'')])" "Some t" Completed] assms(2)
    by (simp_all add: workflow_state_to_str_def)
  then show ?thesis
    by (simp add: test_update_workflow_state_def wf_test_simps update_workflow_state_eq)
qed

lemma cancel_check: "wf_check (w\<lparr>wf_state := ''cancelled'', wf_completed_at := t\<rparr>)"
  by (simp add: wf_check_def)

lemma tests_cancelling:
  assumes "wf_test_ok X {r}" "\<exists>t. parse_datetime X (sql_now clk) = Inr t"
  shows "passes (test_cancel_workflow X clk r)" "passes (test_cancel_already_completed_workflow X clk r)"
    "passes (test_cancel_nonexistent_workflow clk)"
proof -
  obtain t where t: "parse_datetime X (sql_now clk) = Inr t" using assms(2) by blast
  have "row_to_workflow X ((workflow_to_row X (make_workflow r))\<lparr>wf_state := ''cancelled'', wf_completed_at := Some (sql_now clk)\<rparr>) =
      Inr ((make_workflow r)\<lparr>wi_state := Cancelled, wi_completed_at := Some t\<rparr>)"
    using updated_row_decodes [OF assms(1), of None None Cancelled] t
    by (auto simp: row_to_workflow_def workflow_to_row_def make_workflow_def workflow_state_to_str_def bindS_def option_to_sum_def transpose_opt_def
        str_to_workflow_state_def format_datetime_def split: sum.splits option.splits)
  then show "passes (test_cancel_workflow X clk r)"
    by (simp add: test_cancel_workflow_def wf_test_simps cancel_workflow_def exec_update_workflows_def sql_update_def cancel_check count_where_def)
qed (simp_all add: test_cancel_already_completed_workflow_def test_cancel_nonexistent_workflow_def wf_test_simps
    cancel_workflow_def exec_update_workflows_def sql_update_def count_where_def)

lemma test_timeouts:
  assumes "wf_test_ok X {r}"
  shows "passes (test_workflow_round_trip_with_timeouts X r)"
proof -
  let ?w = "\<lparr>wi_run_id = r, wi_workflow_id = ''timeout-test'', wi_name = ''wf'', wi_task_queue = ''default'', wi_state = Pending,
        wi_args_json = JObject [], wi_result_json = None,
        wi_timeouts = \<lparr>execution_timeout_secs = Some 7200, run_timeout_secs = Some 3600, task_timeout_secs = Some 600\<rparr>,
        wi_started_at = None, wi_completed_at = None, wi_namespace = ''default''\<rparr>"
  have "row_to_workflow X (workflow_to_row X ?w) = Inr ?w"
    using wf_codec.decode_encode [of X ?w] assms by (simp add: wf_test_ok_def workflow_text_ok_def workflow_to_secs_def)
  then show ?thesis
    by (simp add: test_workflow_round_trip_with_timeouts_def wf_test_simps)
qed

definition workflows_tests :: "ext \<Rightarrow> clock \<Rightarrow> time \<Rightarrow> uuid \<Rightarrow> uuid \<Rightarrow> (db, err, unit) exec list" where
  "workflows_tests X clk t r r2 =
    [test_insert_and_get_workflow X r, test_get_nonexistent_workflow X, test_list_workflows_empty X,
    test_list_workflows_multiple X r r2, test_list_workflows_state_filter X r r2, test_update_workflow_state X t r,
    test_cancel_workflow X clk r, test_cancel_already_completed_workflow X clk r, test_cancel_nonexistent_workflow clk,
    test_workflow_namespace_filter X r r2, test_workflow_round_trip_with_timeouts X r]"

text \<open>
  The unit tests of \<open>db/src/workflows.rs\<close> pass, for all identifiers and clocks and for libraries that read
  back the values the tests store.
\<close>

lemma workflows_tests_pass:
  assumes "wf_test_ok X {r, r2}" "r2 \<noteq> r" "time_text_ok X t" "\<exists>t. parse_datetime X (sql_now clk) = Inr t"
  shows "list_all passes (workflows_tests X clk t r r2)"
proof -
  have "wf_test_ok X {r}" using assms(1) by (simp add: wf_test_ok_def)
  with assms show ?thesis
    by (simp add: workflows_tests_def tests_listing test_filtering test_updating tests_cancelling test_timeouts)
qed

end
