(* ===== verification/Tests_Schedules.thy ===== *)
theory Tests_Schedules
  imports Tests_Activities
begin

text \<open>The unit tests of \<open>db/src/schedules.rs\<close> on the definitions of \<open>Db_Schedules\<close>. \<open>now\<close> is what \<open>Utc::now\<close> gives.\<close>

section \<open>The tests\<close>

definition make_cron_schedule :: "time \<Rightarrow> string \<Rightarrow> Schedule" where
  "make_cron_schedule now i = \<lparr>
     sc_schedule_id = i, sc_namespace = ''default'', sc_spec = Cron [''0 * * * *''],
     sc_action = \<lparr>wa_workflow_name = ''test_wf'', wa_args = [], wa_task_queue = ''default'', wa_id = ''action-1'', wa_timeouts = timeouts_default\<rparr>,
     sc_policy = Skip, sc_created_at = now, sc_updated_at = now\<rparr>"

definition make_interval_schedule :: "time \<Rightarrow> string \<Rightarrow> Schedule" where
  "make_interval_schedule now i = \<lparr>
     sc_schedule_id = i, sc_namespace = ''default'', sc_spec = Interval (duration_from_secs 300),
     sc_action = \<lparr>wa_workflow_name = ''interval_wf'', wa_args = [], wa_task_queue = ''default'', wa_id = ''action-2'', wa_timeouts = timeouts_default\<rparr>,
     sc_policy = Buffer 5, sc_created_at = now, sc_updated_at = now\<rparr>"

definition test_insert_and_get_cron_schedule :: "ext \<Rightarrow> clock \<Rightarrow> time \<Rightarrow> (db, err, unit) exec" where
  "test_insert_and_get_cron_schedule X clk now =
     andThen (insert_schedule X clk (make_cron_schedule now ''cron-1'')) (\<lambda>_.
     andThen (get_schedule X ''cron-1'') (\<lambda>found.
     andThen (expectE found) (\<lambda>result.
     andThen (assertE (sc_schedule_id result = ''cron-1'')) (\<lambda>_.
     andThen (assertE (sc_namespace result = ''default'')) (\<lambda>_.
     case sc_spec result of
       Cron exprs \<Rightarrow> andThen (assertE (length exprs = 1)) (\<lambda>_. assertE (exprs ! 0 = ''0 * * * *''))
     | Interval _ \<Rightarrow> errE Panicked)))))"

definition test_insert_and_get_interval_schedule :: "ext \<Rightarrow> clock \<Rightarrow> time \<Rightarrow> (db, err, unit) exec" where
  "test_insert_and_get_interval_schedule X clk now =
     andThen (insert_schedule X clk (make_interval_schedule now ''interval-1'')) (\<lambda>_.
     andThen (get_schedule X ''interval-1'') (\<lambda>found.
     andThen (expectE found) (\<lambda>result.
     andThen (assertE (sc_schedule_id result = ''interval-1'')) (\<lambda>_.
     case sc_spec result of Interval dur \<Rightarrow> assertE (duration_as_secs dur = 300) | Cron _ \<Rightarrow> errE Panicked))))"

definition test_get_nonexistent_schedule :: "ext \<Rightarrow> (db, err, unit) exec" where
  "test_get_nonexistent_schedule X = andThen (get_schedule X ''nonexistent'') (\<lambda>result. assertE (result = None))"

definition test_list_schedules_empty :: "ext \<Rightarrow> (db, err, unit) exec" where
  "test_list_schedules_empty X = andThen (list_schedules X ''default'') (\<lambda>schedules. assertE (schedules = []))"

definition test_list_schedules_multiple :: "ext \<Rightarrow> clock \<Rightarrow> time \<Rightarrow> (db, err, unit) exec" where
  "test_list_schedules_multiple X clk now =
     andThen (insert_schedule X clk (make_cron_schedule now ''cron-1'')) (\<lambda>_.
     andThen (insert_schedule X clk (make_interval_schedule now ''interval-1'')) (\<lambda>_.
     andThen (list_schedules X ''default'') (\<lambda>schedules. assertE (length schedules = 2))))"

definition test_list_schedules_namespace_filter :: "ext \<Rightarrow> clock \<Rightarrow> time \<Rightarrow> (db, err, unit) exec" where
  "test_list_schedules_namespace_filter X clk now =
     andThen (insert_schedule X clk (make_cron_schedule now ''cron-1'')) (\<lambda>_.
     andThen (insert_schedule X clk ((make_interval_schedule now ''interval-ns'')\<lparr>sc_namespace := ''other''\<rparr>)) (\<lambda>_.
     andThen (list_schedules X ''default'') (\<lambda>own.
     andThen (assertE (length own = 1)) (\<lambda>_.
     andThen (list_schedules X ''other'') (\<lambda>other. assertE (length other = 1))))))"

definition test_update_schedule_spec :: "ext \<Rightarrow> clock \<Rightarrow> time \<Rightarrow> (db, err, unit) exec" where
  "test_update_schedule_spec X clk now =
     (let schedule = make_cron_schedule now ''update-test'' in
      andThen (insert_schedule X clk schedule) (\<lambda>_.
      let updated = schedule\<lparr>sc_spec := Interval (duration_from_secs 600)\<rparr> in
      andThen (update_schedule_spec X clk ''update-test'' ''default'' updated) (\<lambda>_.
      andThen (get_schedule X ''update-test'') (\<lambda>found.
      andThen (expectE found) (\<lambda>result.
      case sc_spec result of Interval dur \<Rightarrow> assertE (duration_as_secs dur = 600) | Cron _ \<Rightarrow> errE Panicked)))))"

definition test_delete_schedule :: "ext \<Rightarrow> clock \<Rightarrow> time \<Rightarrow> (db, err, unit) exec" where
  "test_delete_schedule X clk now =
     andThen (insert_schedule X clk (make_cron_schedule now ''delete-test'')) (\<lambda>_.
     andThen (get_schedule X ''delete-test'') (\<lambda>before.
     andThen (assertE (before \<noteq> None)) (\<lambda>_.
     andThen (delete_schedule ''delete-test'' ''default'') (\<lambda>rows.
     andThen (assertE (rows = 1)) (\<lambda>_.
     andThen (get_schedule X ''delete-test'') (\<lambda>after. assertE (after = None)))))))"

definition test_delete_nonexistent_schedule :: "(db, err, unit) exec" where
  "test_delete_nonexistent_schedule = andThen (delete_schedule ''nonexistent'' ''default'') (\<lambda>rows. assertE (rows = 0))"

definition args_schedule :: "time \<Rightarrow> time \<Rightarrow> Schedule" where
  "args_schedule created updated = \<lparr>
     sc_schedule_id = ''args-test'', sc_namespace = ''default'', sc_spec = Cron [''*/5 * * * *''],
     sc_action = \<lparr>wa_workflow_name = ''wf_with_args'', wa_args = [(''key1'', ''val1''), (''key2'', ''val2'')], wa_task_queue = ''workers'',
        wa_id = ''action-args'',
        wa_timeouts = \<lparr>execution_timeout_secs = Some 3600, run_timeout_secs = None, task_timeout_secs = Some 300\<rparr>\<rparr>,
     sc_policy = TerminateExisting, sc_created_at = created, sc_updated_at = updated\<rparr>"

definition test_schedule_with_args_round_trip :: "ext \<Rightarrow> clock \<Rightarrow> time \<Rightarrow> time \<Rightarrow> (db, err, unit) exec" where
  "test_schedule_with_args_round_trip X clk created updated =
     andThen (insert_schedule X clk (args_schedule created updated)) (\<lambda>_.
     andThen (get_schedule X ''args-test'') (\<lambda>found.
     andThen (expectE found) (\<lambda>result.
     andThen (expectE (map_of (wa_args (sc_action result)) ''key1'')) (\<lambda>v1.
     andThen (assertE (v1 = ''val1'')) (\<lambda>_.
     andThen (expectE (map_of (wa_args (sc_action result)) ''key2'')) (\<lambda>v2.
     andThen (assertE (v2 = ''val2'')) (\<lambda>_.
     assertE (execution_timeout_secs (wa_timeouts (sc_action result)) = Some 3600))))))))"

section \<open>They pass\<close>

text \<open>The schedules of the tests are read back.\<close>

definition sched_test_ok :: "ext \<Rightarrow> clock \<Rightarrow> time \<Rightarrow> time \<Rightarrow> time \<Rightarrow> bool" where
  "sched_test_ok X clk t now updated \<longleftrightarrow> schedule_text_ok X clk t (make_cron_schedule now []) \<and>
     schedule_text_ok X clk t (make_interval_schedule now []) \<and> schedule_text_ok X clk t (args_schedule now updated)"

lemma test_schedules_decode:
  assumes "sched_test_ok X clk t now updated"
  shows "row_to_schedule X (schedule_to_row X clk (make_cron_schedule now i)) = Inr (stored_schedule t (make_cron_schedule now i))"
    "row_to_schedule X (schedule_to_row X clk (make_interval_schedule now i)) = Inr (stored_schedule t (make_interval_schedule now i))"
    "row_to_schedule X (schedule_to_row X clk ((make_interval_schedule now i)\<lparr>sc_namespace := ns\<rparr>)) =
      Inr (stored_schedule t ((make_interval_schedule now i)\<lparr>sc_namespace := ns\<rparr>))"
    "row_to_schedule X (schedule_to_row X clk (args_schedule now updated)) = Inr (stored_schedule t (args_schedule now updated))"
  using assms
  by (auto intro!: sched_codec.decode_encode simp: sched_test_ok_def schedule_text_ok_def make_cron_schedule_def make_interval_schedule_def)

lemma test_schedule_simps [simp]:
  "sc_schedule_id (make_cron_schedule now i) = i" "sc_namespace (make_cron_schedule now i) = ''default''"
  "sc_schedule_id (make_interval_schedule now i) = i" "sc_namespace (make_interval_schedule now i) = ''default''"
  "sc_schedule_id (args_schedule now u) = ''args-test''" "sc_namespace (args_schedule now u) = ''default''"
  "sc_spec (make_cron_schedule now i) = Cron [''0 * * * *'']" "sc_spec (make_interval_schedule now i) = Interval (duration_from_secs 300)"
  "wa_args (sc_action (args_schedule now u)) = [(''key1'', ''val1''), (''key2'', ''val2'')]"
  "execution_timeout_secs (wa_timeouts (sc_action (args_schedule now u))) = Some 3600"
  by (simp_all add: make_cron_schedule_def make_interval_schedule_def args_schedule_def)

lemmas sched_test_simps = passes_def exec_simps migrate_def insert_schedule_eq get_schedule_def list_schedules_def order_by_asc_def
  delete_schedule_def exec_delete_schedules_def count_where_def

lemma stored_simps [simp]:
  "sc_schedule_id (stored_schedule t s) = sc_schedule_id s" "sc_namespace (stored_schedule t s) = sc_namespace s"
  "sc_spec (stored_schedule t s) = stored_spec (sc_spec s)" "sc_action (stored_schedule t s) = sc_action s"
  by (simp_all add: stored_schedule_def)

lemma tests_one_schedule:
  assumes "sched_test_ok X clk t now updated"
  shows "passes (test_insert_and_get_cron_schedule X clk now)" "passes (test_insert_and_get_interval_schedule X clk now)"
    "passes (test_delete_schedule X clk now)"
  using test_schedules_decode [OF assms]
  by (simp_all add: test_insert_and_get_cron_schedule_def test_insert_and_get_interval_schedule_def test_delete_schedule_def sched_test_simps
      stored_spec_def)

lemma test_args:
  assumes "sched_test_ok X clk t now updated"
  shows "passes (test_schedule_with_args_round_trip X clk now updated)"
  using test_schedules_decode(4) [OF assms]
  by (simp add: test_schedule_with_args_round_trip_def sched_test_simps)

lemma tests_listing_schedules:
  assumes "sched_test_ok X clk t now updated"
  shows "passes (test_list_schedules_multiple X clk now)" "passes (test_list_schedules_namespace_filter X clk now)"
    "passes (test_get_nonexistent_schedule X)" "passes (test_list_schedules_empty X)" "passes test_delete_nonexistent_schedule"
  using test_schedules_decode [OF assms]
  by (simp_all add: test_list_schedules_multiple_def test_list_schedules_namespace_filter_def test_get_nonexistent_schedule_def
      test_list_schedules_empty_def test_delete_nonexistent_schedule_def sched_test_simps)

lemma test_update_spec:
  assumes "sched_test_ok X clk t now updated"
  shows "passes (test_update_schedule_spec X clk now)"
proof -
  let ?s = "(make_cron_schedule now ''update-test'')\<lparr>sc_spec := Interval (duration_from_secs 600)\<rparr>"
  have "schedule_text_ok X clk t ?s"
    using assms by (simp add: sched_test_ok_def schedule_text_ok_def make_cron_schedule_def)
  then have "row_to_schedule X (schedule_to_row X clk ?s) = Inr (stored_schedule t ?s)"
    by (rule sched_codec.decode_encode)
  moreover have "update_schedule_spec X clk ''update-test'' ''default'' ?s (migrate\<lparr>schedules := [schedule_to_row X clk (make_cron_schedule now ''update-test'')]\<rparr>) =
      (Inr (), migrate\<lparr>schedules := [schedule_to_row X clk ?s]\<rparr>)"
    by (simp add: update_schedule_spec_def exec_simps exec_update_schedules_def sql_update_def schedule_to_row_def spec_columns_def
        make_cron_schedule_def policy_column_def sched_check_def migrate_def)
  ultimately show ?thesis
    by (simp add: test_update_schedule_spec_def Let_def sched_test_simps stored_spec_def)
qed

definition schedules_tests :: "ext \<Rightarrow> clock \<Rightarrow> time \<Rightarrow> time \<Rightarrow> (db, err, unit) exec list" where
  "schedules_tests X clk now updated =
    [test_insert_and_get_cron_schedule X clk now, test_insert_and_get_interval_schedule X clk now,
    test_get_nonexistent_schedule X, test_list_schedules_empty X, test_list_schedules_multiple X clk now,
    test_list_schedules_namespace_filter X clk now, test_update_schedule_spec X clk now, test_delete_schedule X clk now,
    test_delete_nonexistent_schedule, test_schedule_with_args_round_trip X clk now updated]"

text \<open>
  The unit tests of \<open>db/src/schedules.rs\<close> pass, for all clocks and for libraries that read back the values the tests
  store.
\<close>

lemma schedules_tests_pass:
  assumes "sched_test_ok X clk t now updated"
  shows "list_all passes (schedules_tests X clk now updated)"
  by (simp add: schedules_tests_def tests_one_schedule [OF assms] test_args [OF assms] tests_listing_schedules [OF assms] test_update_spec [OF assms])

end
