(* ===== verification/Spec2Isabelle.thy ===== *)
theory Spec2Isabelle
  imports Core_Display Entry_Points Start_In_Company Retries Tests_Engine Tests_Workflows Tests_Schedules
begin

text \<open>
  Khronos is a workflow orchestrator in Rust. A server keeps schedules, workflows, their steps and
  the attempts to run them (activities) in an SQLite database; an engine task moves workflows on, a
  scheduler task starts workflows at their times, gRPC services create and query them, and a worker
  process polls for activities, runs them and reports. This library models these parts and proves
  what they do.

  \<^bold>\<open>The program and its model.\<close> All paths are under \<open>src/crates\<close>.

  \<^item> \<open>core/src\<close>: data types in \<open>Core_Types\<close>, their \<open>Display\<close> forms in \<open>Core_Display\<close>, the registry
    \<open>TaskQueue\<close> in \<open>Task_Queue\<close>.
  \<^item> \<open>db/src\<close>: the tables, their constraints, the SQL statements and \<open>Database::new\<close> in \<open>Schema\<close>, where a database file may
    still lack tables and the migration creates those it lacks; the functions of
    \<open>workflows.rs\<close>, \<open>activities.rs\<close> and \<open>schedules.rs\<close> in \<open>Db_Workflows\<close>, \<open>Db_Activities\<close> and
    \<open>Db_Schedules\<close>. What a row loses of a struct is stated through the locales of \<open>Codec\<close>.
  \<^item> \<open>server/src/engine.rs\<close>: the state the tasks share in \<open>Server_State\<close> (database, event channel,
    pending timers), the handlers and sweeps in \<open>Engine\<close>.
  \<^item> \<open>server/src/grpc.rs\<close>: the worker, schedule, workflow and Temporal services in \<open>Grpc_Worker\<close>,
    \<open>Grpc_Schedule\<close>, \<open>Grpc_Workflow\<close>, \<open>Grpc_Temporal\<close>, \<open>Temporal_Update\<close> (the call that builds an SQL
    text) and \<open>Temporal_Stubs\<close> (the calls that answer with an empty message), the built-in workflow definitions in \<open>Workflow_Defs\<close>. A request or response message is a
    record with the fields the handlers read.
  \<^item> \<open>server/src/scheduler.rs\<close>: the heap of entries in \<open>Min_Queue\<close>, everything else in \<open>Scheduler\<close>;
    what a fired schedule does to the state is shown in \<open>Overlap_Policies\<close>, the loop in \<open>Scheduler_Loop\<close>.
  \<^item> \<open>worker/src\<close>: handlers, registry, executor, client and poller in \<open>Worker\<close>, the reconnect delay in
    \<open>Backoff\<close> over the rounding of \<open>Floats\<close>, the concurrent tasks of a running worker as a step
    relation in \<open>Worker_Runtime\<close>: poller, channel, main loop, handlers, reports, and the signal at which the worker
    stops and drops the rest. Which processes a handler starts ever end is a parameter there.
  \<^item> A workflow from its start to its end, through the services and the engine, in \<open>Lifecycle\<close>; a step
    that fails again and again in \<open>Retries\<close>.
  \<^item> \<open>run_server\<close> and the interplay of the tasks: the step relation of \<open>System\<close>, whose steps are calls, turns
    of the engine, timers, passes of the scheduler, changes it is told of and restarts of the process; what it never forgets in
    \<open>History\<close>.
  \<^item> The same tasks statement by statement: \<open>Programs\<close> has sequences of statements that can be interleaved and
    refused, and the rely-guarantee rules for them; \<open>Handler_Programs\<close> has every turn of the engine, the poll, both
    reports, \<open>StartWorkflow\<close> and the firing of a schedule in that form, equal to the handlers when they run alone;
    \<open>Interference\<close> and \<open>Start_In_Company\<close> have what they do in company.
  \<^item> \<open>server/src/main.rs\<close> and \<open>worker/src/main.rs\<close> in \<open>Entry_Points\<close>, which also compares
    \<open>worker/src/handlers.rs\<close>, an earlier version of the handlers that is in no module, with those in use.
  \<^item> The unit tests: \<open>Tests_Activities\<close>, \<open>Tests_Workflows\<close>, \<open>Tests_Schedules\<close> and \<open>Tests_Engine\<close> have those of the files
    of the database functions, of the engine and of the task queue as programs of the model, \<open>Core_Display\<close> those of
    the core types that do not use serde. Three tests of the engine, on heartbeats, have an empty body.

  A function that can fail and writes is an \<open>exec\<close> of \<open>Prelude\<close>: it takes the state and returns an
  error or a value, and the state, because SQLite runs in autocommit mode and what was written before
  an error stays. Every \<open>?\<close>, \<open>map_err\<close> and \<open>ok()\<close> of the source is an operator of that type. A Rust
  panic is an error value of its own, which the task loops do not survive.

  \<^bold>\<open>What is outside the program.\<close> serde, uuid, chrono, cron and SQLite's parser are the record \<open>ext\<close>
  of \<open>External\<close>, an argument of the definitions that call them; a property that needs something of
  them says so in a hypothesis. \<open>ref_ext\<close> is an instance for the witnesses. The clock and fresh UUIDs
  are arguments. The text of a library's error is left out of the messages that quote it. SQLite
  scans a table in the order of insertion and sorts stably. Strings are lists of characters of
  Latin-1, for which case conversion and white space are as in Rust. An \<open>f64\<close> of a retry policy
  is a rational number: the code multiplies it by powers of two only, which is exact, and then
  truncates. The reconnect delay of the worker computes with \<open>f32\<close> and \<open>f64\<close> values that are rounded;
  there every operation rounds to the nearest number of 24 or 53 bits, ties to even, which is the
  hardware's result as no value overflows or is subnormal.

  \<^bold>\<open>Interfaces.\<close> \<open>row_codec\<close> and \<open>text_codec\<close> (what is stored can be read back), \<open>db_client\<close> (an
  invariant of the database that the statements keep is kept by every handler), \<open>min_queue\<close> (the heap),
  \<open>keyed_store\<close> and \<open>removable_store\<close> (maps of workers and of handlers), \<open>step_invariant\<close> (an
  invariant of a system of steps), \<open>row_order\<close> (what happens to a row is an order), \<open>rely\<close>, \<open>steady\<close> and \<open>compatible\<close>
  (what a task may count on from the others, an assertion that they do not disturb, and that two tasks give one another what
  they count on). Each is interpreted on the definitions of the model, and the
  properties use the facts of the interpretations.

  \<^bold>\<open>What is shown.\<close>

  \<^item> Invariants of all reachable states: the schema, texts that are values of their enums, no
    namespace, no step in the state \<open>retried\<close>, no heartbeat timeout, a sorted heap.
  \<^item> A workflow whose tasks are served runs to its end, one round per step, in the order of its
    definition; a step that fails at every try is given up after half of its attempts.
  \<^item> For each handler, its effect on the whole state on every branch that a request can take: polls,
    reports, heartbeats, start, cancel, create, update and delete. For the engine, that processing a
    workflow is the verdict on the states of its steps.
  \<^item> For the scheduler, which entries fire and stay, what the overlap policies start and cancel, when
    it sleeps, what it loads, that a cron schedule starts nothing when the scheduler wakes for it, and that no schedule joins the heap until the process is started again.
  \<^item> The reports of results are equivalent in the Temporal service and the native one, those of failures but for the
    engine, which only the Temporal one notifies; the Temporal \<open>UpdateSchedule\<close> changes exactly the given fields when no string has a quote.
  \<^item> For a worker, that it keeps its bounds and accounts for every task, reporting none twice and dropping some only when it is
    stopped; that, if handlers end, it drains in finitely many steps, and if they hang, it can stop for ever; and the bounds of its
    reconnect delay.
  \<^item> Round trips of steps, workflows and schedules through the database.
  \<^item> Nothing stored is lost, not by a restart either; every start of the process, on a new file, on one whose
    migration was cut off or on that of an earlier run, is in a reachable state.
  \<^item> At the grain of statements: the invariants hold between any two statements, the engine's verdict, the
    answer of a poll and a workflow that is started are right in the company of the other tasks, except that the report of a
    failure can undo the verdict; and the cases where the lack of a transaction or a refused statement shows.
  \<^item> The unit tests pass in the model, which checks the definitions against the examples of the repository.
  \<^item> What the code does where it differs from its intention; the manifest's findings name the theorems.

  \<^bold>\<open>Bounds and fuel.\<close> No definition uses fuel. The firing loop of the scheduler ends because every
  turn takes an entry from the heap, all other loops run over lists. \<open>u32\<close> and \<open>u64\<close> are words, the
  arithmetic wraps as in a release build; an \<open>i64\<close> is an \<open>int\<close> with the casts written out.

  \<^bold>\<open>Grain.\<close> A step of \<open>System\<close> is a whole call or a whole turn of a task, and the effects of the handlers are
  stated for a call that is not interleaved. The engine and the scheduler have database connections of
  their own and no handler opens a transaction, so statements fall between one another, and SQLite can refuse
  one with \<open>SQLITE_BUSY\<close>. \<open>Handler_Programs\<close> has that grain for whatever drives a workflow; cancelling and
  heartbeats are one statement each. The calls of the schedule service and of the Temporal service are whole in every
  model; for them it holds that every single statement keeps the invariants.

  \<^bold>\<open>Not modelled.\<close> Parsing the command line (clap), logging and the build scripts; the protocol code that
  prost and tonic generate, and the JSON forms that serde derives, with the tests of the core types that are
  about these; the network, the connection of the worker and the waiting itself, where a step relation says what
  may happen next; errors of SQLite other than those of the statements and \<open>SQLITE_BUSY\<close>, such as a full disk. The two
  tests of the poller are instances of the bounds of its delay. The integration tests run a server over the network. What SQLite
  does with a Temporal \<open>UpdateSchedule\<close> whose strings contain quotes is a parameter, and such calls are not
  steps of \<open>System\<close>.
\<close>

section \<open>A sample run\<close>

definition sample_ids :: "nat \<Rightarrow> uuid" where
  "sample_ids n = ''step'' @ digits_of 2 n"

definition sample_system :: system where
  "sample_system = sys_init\<lparr>sys_server :=
     rpc_effect ref_ext sample_clock ''r'' sample_ids (StartWorkflowCall sample_request) (sys_server sys_init)\<rparr>"

text \<open>A system in which the last step of a workflow has just been reported.\<close>

definition sample_finishing :: system where
  "sample_finishing = sys_init\<lparr>sys_server := init_server\<lparr>
     srv_db := sample_db [] [sample_workflow ''r'' ''w'' ''running''] [sample_step ''s'' ''r'' 0 ''completed'' 1]
       [sample_activity ''a'' ''s'' 1 ''completed''],
     srv_events := [StepCompleted ''r'']\<rparr>\<rparr>"

lemma sample_reachable: "reachable ref_ext sample_system"
  unfolding sample_system_def by (intro reachable_step [OF reachable_init] sys_step.call)

section \<open>Invariants of the running server\<close>

text \<open>
  C1: in every reachable state the database satisfies its schema: the keys are unique, every
  state and policy column holds a value its constraint allows, every step belongs to a stored
  workflow and every activity to a stored step.
\<close>

theorem reachable_schema_ok:
  assumes "reachable X s"
  shows "schema_ok (srv_db (sys_server s))"
  using sys_schema.at_reachable [of X s] assms by (simp add: reachable_def on_db_def)

theorem reachable_schema_ok_witness: "schema_ok (srv_db (sys_server sample_system))"
  by (rule reachable_schema_ok [OF sample_reachable])

text \<open>
  C31: the texts in the state and policy columns are well-typed: in every reachable state each one is
  read back as a value of its Rust enum, although the \<open>CHECK\<close> of \<open>workflow_steps\<close> also allows a text
  that has none.
\<close>

theorem reachable_states_typed:
  assumes "reachable X s"
  shows "(\<forall>r \<in> set (workflows (srv_db (sys_server s))). \<exists>st. str_to_workflow_state (wf_state r) = Inr st) \<and>
    (\<forall>r \<in> set (workflow_steps (srv_db (sys_server s))). \<exists>st. str_to_step_state (st_state r) = Inr st) \<and>
    (\<forall>r \<in> set (schedules (srv_db (sys_server s))). \<exists>p. row_policy r = Inr p)"
proof -
  have "schema_ok (srv_db (sys_server s))" "no_retried (srv_db (sys_server s))"
    using sys_schema.at_reachable [of X s] sys_retried.at_reachable [of X s] assms by (simp_all add: reachable_def on_db_def)
  then show ?thesis
    by (force simp: schema_ok_def no_retried_def list_all_iff wf_check_def step_check_def sched_check_def
        str_to_workflow_state_def str_to_step_state_def row_policy_def)
qed

theorem reachable_states_typed_witness:
  "\<exists>r st. r \<in> set (workflows (srv_db (sys_server sample_system))) \<and> str_to_workflow_state (wf_state r) = Inr st"
proof -
  have fresh: "''r'' \<notin> wf_run_id ` set (workflows (srv_db init_server))"
    "fresh_steps sample_ids 0 (length (get_workflow_definition (swr_workflow_name sample_request))) (srv_db init_server)"
    by (simp_all add: sample_request_steps fresh_steps_def init_server_def migrate_def)
  then have "workflow_to_row ref_ext (new_workflow ''r'' sample_request) \<in> set (workflows (srv_db (sys_server sample_system)))"
    using start_workflow_eq [OF fresh, of ref_ext sample_clock]
    by (simp add: sample_system_def sys_init_def rpc_effect_def started_def)
  with reachable_states_typed [OF sample_reachable] show ?thesis by blast
qed

text \<open>
  C11: nothing that happened is forgotten: whatever the server does, restarts included, every stored
  workflow, step and activity stays stored with the columns that say what it is; a workflow that has
  left \<open>pending\<close> does not come back to it and keeps its starting time, and an activity that has ended
  does not run again.
\<close>

theorem history_kept:
  assumes "(sys_step X)\<^sup>*\<^sup>* s s'"
  shows "extends (srv_db (sys_server s)) (srv_db (sys_server s'))"
  using assms
proof (induction rule: rtranclp_induct)
  case base
  show ?case by (rule extends_refl)
next
  case (step t u)
  then show ?case
    using history.sys_step_keeps [of X t u "srv_db (sys_server s)"] by (simp add: on_db_def)
qed

theorem history_kept_witness:
  "extends (srv_db (sys_server sample_system)) (srv_db (sys_server (restarted sample_system)))"
  by (rule history_kept [of ref_ext]) (blast intro: r_into_rtranclp sys_step.restart)

text \<open>
  C20: a restart can lose the end of a workflow. When all steps of a run are completed and the event that
  says so is in the channel, the engine's next turn completes the workflow; a restart at this point
  leaves it in the state it had, and as the engine starts with no event and no timer and does
  not look at the stored workflows, its turns change nothing: the workflow waits for an event of
  another origin, such as the change of a schedule.
\<close>

theorem restart_loses_verdict:
  assumes ext: "no_offset_refused X" and up: "sys_engine s = Up"
    and chan: "srv_events (sys_server s) = [StepCompleted run_id]"
    and steps: "steps_of run_id (srv_db (sys_server s)) \<noteq> []"
      "\<forall>p \<in> set (steps_of run_id (srv_db (sys_server s))). st_state p = ''completed''"
    and wf: "w \<in> set (workflows (srv_db (sys_server s)))" "wf_run_id w = run_id"
  shows "(\<exists>s'. sys_step X s s' \<and> srv_events (sys_server s') = [] \<and>
      (\<forall>w' \<in> set (workflows (srv_db (sys_server s'))). wf_run_id w' = run_id \<longrightarrow> wf_state w' = ''completed'')) \<and>
    w \<in> set (workflows (srv_db (sys_server (restarted s)))) \<and>
    srv_timers (sys_server (restarted s)) = [] \<and>
    engine_turn X clk (sys_server (restarted s)) = sys_server (restarted s)"
proof -
  let ?srv = "sys_server s"
  have verdict: "wf_verdict (map st_state (steps_of run_id (srv_db ?srv))) = Some Completed"
    using steps by (auto simp: wf_verdict_def)
  let ?d = "finish_workflow X clk run_id Completed (mark_started clk run_id (srv_db ?srv))"
  have turn: "handle_event X clk (StepCompleted run_id) (?srv\<lparr>srv_events := []\<rparr>) =
      (Inr (), ?srv\<lparr>srv_events := [], srv_db := ?d\<rparr>)"
    by (simp add: handle_event_def handle_step_completed_def logErr_def andThen_def with_db_def
        process_single_workflow_eq verdict schedule_timers_idle [OF ext])
  have "sys_step X s (s\<lparr>sys_server := ?srv\<lparr>srv_events := [], srv_db := ?d\<rparr>, sys_engine := after_task (Inr ())\<rparr>)"
    by (rule sys_step.event [OF up chan _ turn]) (simp add: engine_capacity_def)
  moreover have "\<forall>w' \<in> set (workflows ?d). wf_run_id w' = run_id \<longrightarrow> wf_state w' = ''completed''"
    by (auto simp: finish_workflow_def ball_update_where finish_row_def workflow_state_to_str_def)
  ultimately show ?thesis
    using wf(1) by (intro conjI exI) (assumption | simp add: engine_turn_def)+
qed

theorem restart_loses_verdict_witness:
  "sample_workflow ''r'' ''w'' ''running'' \<in> set (workflows (srv_db (sys_server (restarted sample_finishing)))) \<and>
   engine_turn ref_ext sample_clock (sys_server (restarted sample_finishing)) = sys_server (restarted sample_finishing) \<and>
   (\<exists>s'. sys_step ref_ext sample_finishing s' \<and> srv_events (sys_server s') = [])"
  using restart_loses_verdict [of ref_ext sample_finishing "''r''" "sample_workflow ''r'' ''w'' ''running''" sample_clock]
  by (auto simp: sample_finishing_def sys_init_def no_offset_refused_def sample_db_def steps_of_def sample_workflow_def
      sample_step_def)

text \<open>
  C19: only the schedules that were loaded when the server started ever fire, each entry once. After the
  scheduler has started, and until the process is started again, the heap only loses entries, whatever
  calls create or change schedules: SQLite refuses the query that should put a fired entry back, and nothing
  tells the scheduler to load the schedules again. So whatever a later wake fires was in the heap at the start.
\<close>

theorem no_schedule_joins:
  assumes "reachable X s" "sys_scheduler s \<noteq> NotStarted" "\<not> sql_accepts X next_fire_sql"
    and "(\<lambda>a b. sys_step X a b \<and> b \<noteq> restarted a)\<^sup>*\<^sup>* s s'"
  shows "mset (sys_heap s') \<subseteq># mset (sys_heap s) \<and>
    (\<forall>env now ids h srv. fire_due X env now 0 (sys_heap s') (sys_server s') = (Inr (ids, h), srv) \<longrightarrow>
       mset ids \<subseteq># image_mset entry_schedule_id (mset (sys_heap s)))"
proof -
  have heap: "mset (sys_heap s') \<subseteq># mset (sys_heap s) \<and> sys_scheduler s' \<noteq> NotStarted \<and> reachable X s'"
    using assms(4)
  proof (induction rule: rtranclp_induct)
    case (step t u)
    then have "sys_changes t = 0" "sorted (sys_heap t)"
      using sys_unchanged.at_reachable [of X t] sys_sorted.at_reachable [of X t] by (simp_all add: reachable_def)
    with step heap_shrinks [of X t u] assms(3) show ?case
      by (auto intro: reachable_step subset_mset.order_trans)
  qed (simp add: assms(1,2))
  then have "sorted (sys_heap s')"
    using sys_sorted.at_reachable [of X s'] by (simp add: reachable_def)
  note fired = fire_due_heap [OF this]
  have "mset (filter P (sys_heap s')) \<subseteq># mset (sys_heap s)" for P
    using heap by (simp add: subset_mset.order_trans [OF multiset_filter_subset])
  with heap show ?thesis
    by (auto dest!: fired intro!: image_mset_subseteq_mono)
qed

definition sample_serving :: system where
  "sample_serving = sys_init\<lparr>sys_scheduler := Up\<rparr>"

theorem no_schedule_joins_witness:
  "\<exists>s'. (sys_step ref_ext)\<^sup>*\<^sup>* sample_serving s' \<and> schedules (srv_db (sys_server s')) \<noteq> [] \<and> sys_heap s' = []"
proof -
  let ?s' = "sample_serving\<lparr>sys_server := rpc_effect ref_ext sample_clock [] sample_ids (CreateScheduleCall sample_create) init_server\<rparr>"
  have "scheduler_reload ref_ext sample_clock [] (sys_server sys_init) = (Inr [], init_server)"
    by (simp add: sys_init_def scheduler_reload_def reload_all_schedules_def init_server_def migrate_def exec_simps heap_of_fires_def)
  from sys_step.start_scheduler [OF _ this]
  have "sys_step ref_ext sys_init sample_serving" by (simp add: sample_serving_def sys_init_def after_task_def)
  then have "reachable ref_ext sample_serving" by (rule reachable_step [OF reachable_init])
  moreover have call: "sys_step ref_ext sample_serving ?s'"
    using sys_step.call [of ref_ext sample_serving] by (simp add: sample_serving_def sys_init_def)
  ultimately have "mset (sys_heap ?s') \<subseteq># mset (sys_heap sample_serving)"
    using no_schedule_joins [of ref_ext sample_serving ?s']
    by (auto simp: sample_serving_def next_fire_sql_def)
  moreover have "schedules (srv_db (sys_server ?s')) \<noteq> []"
    by (simp add: rpc_effect_def create_schedule_eq sample_create_valid init_server_def migrate_def notify_engine_def)
  ultimately show ?thesis using call by (intro exI [of _ ?s']) (simp add: sample_serving_def sys_init_def r_into_rtranclp)
qed

text \<open>
  C38: the engine's reaction to a \<open>RetryDue\<close> event never changes anything: no reachable state has a
  step in the state \<open>retried\<close> that the handler waits for.
\<close>

theorem retry_due_is_idle:
  assumes "reachable X s"
  shows "snd (handle_retry_due X clk sid (sys_server s)) = sys_server s"
proof -
  have "no_retried (srv_db (sys_server s))"
    using sys_retried.at_reachable [of X s] assms by (simp add: reachable_def on_db_def)
  then have "r \<in> set (workflow_steps (srv_db (sys_server s))) \<Longrightarrow> st_state r \<noteq> ''retried''" for r
    by (auto simp: no_retried_def list_all_iff)
  then show ?thesis
    by (auto simp: handle_retry_due_def exec_simps query_row_def split: option.split dest: find_SomeD)
qed

theorem retry_due_is_idle_witness:
  "snd (handle_retry_due ref_ext sample_clock ''step00'' (sys_server sample_system)) = sys_server sample_system"
  by (rule retry_due_is_idle [OF sample_reachable])

text \<open>
  C37: no heartbeat timeout is ever detected: as chrono refuses a format without an offset, no
  reachable state has a \<open>HeartbeatTimeout\<close> event in the channel or in a timer.
\<close>

theorem no_heartbeat_timeout:
  assumes "reachable X s" "no_offset_refused X"
  shows "HeartbeatTimeout a \<notin> set (srv_events (sys_server s)) \<and> (t, HeartbeatTimeout a) \<notin> set (srv_timers (sys_server s))"
proof -
  have "quiet (sys_server s)"
    using sys_quiet.at_reachable [of X s] assms by (simp add: reachable_def)
  then show ?thesis by (force simp: quiet_def list_ex_iff)
qed

theorem no_heartbeat_timeout_witness:
  "HeartbeatTimeout ''a'' \<notin> set (srv_events (sys_server sample_system)) \<and>
   (5, HeartbeatTimeout ''a'') \<notin> set (srv_timers (sys_server sample_system))"
  by (rule no_heartbeat_timeout [OF sample_reachable]) (simp add: no_offset_refused_def)

text \<open>
  No namespace can be registered: in every reachable state \<open>RegisterNamespace\<close> is refused by
  the database, because its INSERT names a column the table does not have, and
  \<open>DescribeNamespace\<close> finds nothing.
\<close>

lemma no_namespace_registered:
  assumes "reachable X s"
  shows "register_namespace e ns (sys_server s) =
      (Inl (Internal ''Failed to create namespace'' (SqlErr (NoSuchColumn ''updated_at''))), sys_server s) \<and>
    fst (describe_namespace ns (sys_server s)) = Inl (NotFoundStatus (''Namespace '' @ ns @ '' not found''))"
proof -
  have "namespaces (srv_db (sys_server s)) = []"
    using sys_unnamed.at_reachable [of X s] assms by (simp add: reachable_def on_db_def no_namespaces_def)
  then show ?thesis
    by (simp add: register_namespace_def describe_namespace_def exec_simps count_where_def register_namespace_no_column)
qed

section \<open>Temporal schedules and the scheduler\<close>

text \<open>
  A cron schedule created through the Temporal service is accepted and never fires: its
  expressions are stored joined by commas, the scheduler expects a JSON list, and so the schedule has no
  next fire time.
\<close>

lemma temporal_cron_never_scheduled:
  assumes "valid_create req sched (''cron'', exprs, secs) sw" "strs_from_str X exprs = None"
    and "tcr_schedule_id req \<notin> sr_schedule_id ` set (schedules (srv_db s))"
  shows "\<exists>row. temporal_create_schedule X clk req s =
      (Inr (), s\<lparr>srv_db := (srv_db s)\<lparr>schedules := schedules (srv_db s) @ [row]\<rparr>\<rparr>) \<and>
    sr_schedule_id row = tcr_schedule_id req \<and> next_fire X clk' (schedule_info X row) d = (Inr None, d)"
  using temporal_create_eq [OF assms(1,3)] assms(2)
  by (intro exI conjI) (assumption | simp add: next_fire_def schedule_info_def temporal_schedule_row_def
      calculate_next_cron_fire_def exec_simps)+

section \<open>The unit tests\<close>

text \<open>
  The unit tests of the repository for the three files of database functions, for the engine and for the task
  queue, and those of the core types that do not use serde, pass in the model, for all identifiers that differ
  where a test draws several, for all clocks, and for libraries that read back the values the tests store and whose
  texts order the times the tests use. Three tests of the engine, on heartbeats, have an empty body and no counterpart.
\<close>

lemma unit_tests_pass:
  assumes texts: "test_text_ok X ({r, r2, a, b, c} \<union> ids ` {0..<3})" "wf_test_ok X {r, r2}" "sched_test_ok X clk t now updated"
    and times: "time_text_ok X now" "\<exists>t. parse_datetime X (sql_now clk) = Inr t" "\<exists>t. parse_step_datetime X past = Inr t"
      "past \<le> sql_now clk" "past \<le> fmt_time X (utc_now clk)" "\<not> future \<le> fmt_time X (utc_now clk)"
    and uuids: "r2 \<noteq> r" "distinct [c, b, a]" "inj_on ids {0..<3}"
  shows "list_all passes (activities_tests X clk past r r2 a b c ids) \<and> list_all passes (workflows_tests X clk now r r2) \<and>
    list_all passes (schedules_tests X clk now updated) \<and> list_all engine_passes (engine_tests X clk past future r a b c) \<and>
    test_register_and_unregister_worker now \<and> test_update_heartbeat now \<and> test_get_handlers now \<and> list_all id (core_tests now a b c)"
proof -
  have "distinct [r2, r]" using uuids(1) by simp
  then have "list_all passes (activities_tests X clk past r r2 a b c ids)"
    by (rule activities_tests_pass [OF texts(1) _ uuids(2,3) times(4,3)])
  then show ?thesis
    using workflows_tests_pass [OF texts(2) uuids(1) times(1,2)] schedules_tests_pass [OF texts(3)]
      engine_tests_pass [OF uuids(2) times(5,6)] task_queue_tests_pass core_tests_pass by blast
qed

end
